theory Spec2Isabelle
  imports Main
begin

text \<open>
  A shallow embedding of the generator of openapi-ts-client: \<^verbatim>\<open>utils.js\<close> and
  \<^verbatim>\<open>generate.js\<close>, function by function, over JavaScript values. The module state
  is passed explicitly, every \<^verbatim>\<open>throw\<close> is an error value, and what comes from other
  packages (lodash's \<^verbatim>\<open>camelCase\<close>, the hooks, the formatter) is a parameter.
\<close>

section \<open>JavaScript values\<close>

text \<open>
  The generator works on the parsed OpenAPI document, a tree of JavaScript values.
  An object is the list of its own enumerable string-keyed properties in the order
  in which \<^verbatim>\<open>Object.entries\<close> enumerates them (keys are distinct); numbers
  are integers. \<open>JUndefined\<close> is the value of a missing property.
\<close>

datatype jsval =
    JUndefined
  | JNull
  | JBool bool
  | JNum int
  | JStr string
  | JArr "jsval list"
  | JObj "(string \<times> jsval) list"

text \<open>Every \<^verbatim>\<open>throw\<close> of the source, and the runtime's own \<open>TypeError\<close>.\<close>

datatype error =
    UnknownRef jsval
  | DuplicateTypeName string jsval
  | NotYetImplemented string
  | UnknownScalarType jsval
  | UnknownEnumType jsval
  | OnlyOpenApiV3
  | TypeError
  | HookError string

fun nullish :: "jsval \<Rightarrow> bool" where
  "nullish JUndefined = True"
| "nullish JNull = True"
| "nullish _ = False"

text \<open>\<^verbatim>\<open>Boolean(v)\<close>, the test of \<^verbatim>\<open>if (v)\<close>, \<^verbatim>\<open>v && w\<close> and \<^verbatim>\<open>v || w\<close>.\<close>

fun truthy :: "jsval \<Rightarrow> bool" where
  "truthy JUndefined = False"
| "truthy JNull = False"
| "truthy (JBool b) = b"
| "truthy (JNum n) = (n \<noteq> 0)"
| "truthy (JStr s) = (s \<noteq> [])"
| "truthy (JArr _) = True"
| "truthy (JObj _) = True"

text \<open>
  \<^verbatim>\<open>v.k\<close> for a value \<open>v\<close> that is neither \<^verbatim>\<open>null\<close> nor \<^verbatim>\<open>undefined\<close>
  (callers check that first) and one of the fixed keys the source probes; none of them
  is a property of a prototype, so only an object's own properties answer.
\<close>

fun get :: "jsval \<Rightarrow> string \<Rightarrow> jsval" where
  "get (JObj kvs) k = (case map_of kvs k of Some v \<Rightarrow> v | None \<Rightarrow> JUndefined)"
| "get _ k = JUndefined"

text \<open>
  The decimal digits of an integer. A document's numbers are taken to be integers of
  magnitude below \<open>2^53\<close>, which JavaScript represents exactly and \<^verbatim>\<open>String\<close> prints
  as their decimal digits; fractions are outside the model, and for a larger \<open>JNum\<close>
  the digits printed here are not what \<^verbatim>\<open>String\<close> gives (it rounds to a double, and
  from \<open>10^21\<close> on prints an exponent).
\<close>

fun showNat :: "nat \<Rightarrow> string" where
  "showNat n =
     (if n < 10 then [''0123456789'' ! n]
      else showNat (n div 10) @ [''0123456789'' ! (n mod 10)])"

declare showNat.simps [simp del]

definition showInt :: "int \<Rightarrow> string" where
  "showInt i = (if i < 0 then CHR ''-'' # showNat (nat (- i)) else showNat (nat i))"

text \<open>\<^verbatim>\<open>xs.join(sep)\<close> on an array of strings.\<close>

fun join :: "string \<Rightarrow> string list \<Rightarrow> string" where
  "join sep [] = []"
| "join sep [x] = x"
| "join sep (x # y # ys) = x @ sep @ join sep (y # ys)"

text \<open>
  \<^verbatim>\<open>String(v)\<close>, as a template literal and \<^verbatim>\<open>v + ''\<close> compute it. An array is its
  elements joined by a comma, where \<^verbatim>\<open>null\<close> and \<^verbatim>\<open>undefined\<close> elements give the
  empty string.
\<close>

fun toString :: "jsval \<Rightarrow> string" where
  "toString JUndefined = ''undefined''"
| "toString JNull = ''null''"
| "toString (JBool b) = (if b then ''true'' else ''false'')"
| "toString (JNum n) = showInt n"
| "toString (JStr s) = s"
| "toString (JArr xs) =
     join '','' (map (\<lambda>x. if x = JUndefined \<or> x = JNull then [] else toString x) xs)"
| "toString (JObj _) = ''[object Object]''"

text \<open>\<^verbatim>\<open>xs.join(sep)\<close> on an array of arbitrary values.\<close>

definition joinVals :: "string \<Rightarrow> jsval list \<Rightarrow> string" where
  "joinVals sep xs = join sep (map (\<lambda>x. if nullish x then [] else toString x) xs)"

text \<open>The entries of a string or an array are its indexed elements.\<close>

definition indexed :: "jsval list \<Rightarrow> (string \<times> jsval) list" where
  "indexed xs = zip (map showNat [0..<length xs]) xs"

text \<open>\<^verbatim>\<open>Object.entries(v)\<close>; \<^verbatim>\<open>Object.keys\<close> and \<^verbatim>\<open>Object.values\<close> are its projections.\<close>

fun objectEntries :: "jsval \<Rightarrow> error + (string \<times> jsval) list" where
  "objectEntries JUndefined = Inl TypeError"
| "objectEntries JNull = Inl TypeError"
| "objectEntries (JObj kvs) = Inr kvs"
| "objectEntries (JArr xs) = Inr (indexed xs)"
| "objectEntries (JStr s) = Inr (indexed (map (\<lambda>c. JStr [c]) s))"
| "objectEntries (JBool _) = Inr []"
| "objectEntries (JNum _) = Inr []"

definition objectKeys :: "jsval \<Rightarrow> error + string list" where
  "objectKeys v = map_sum id (map fst) (objectEntries v)"

definition objectValues :: "jsval \<Rightarrow> error + jsval list" where
  "objectValues v = map_sum id (map snd) (objectEntries v)"

text \<open>\<^verbatim>\<open>[...v]\<close>: arrays and strings are iterable, nothing else in a document is.\<close>

fun spread :: "jsval \<Rightarrow> error + jsval list" where
  "spread (JArr xs) = Inr xs"
| "spread (JStr s) = Inr (map (\<lambda>c. JStr [c]) s)"
| "spread _ = Inl TypeError"

text \<open>\<^verbatim>\<open>s.startsWith(p)\<close>.\<close>

definition startsWith :: "string \<Rightarrow> string \<Rightarrow> bool" where
  "startsWith s p = (take (length p) s = p)"

text \<open>\<^verbatim>\<open>v || w\<close>.\<close>

definition orElse :: "jsval \<Rightarrow> jsval \<Rightarrow> jsval" where
  "orElse v w = (if truthy v then v else w)"

text \<open>
  \<^verbatim>\<open>c.toUpperCase()\<close> for one character; the model's strings are ASCII, other
  characters are left as they are.
\<close>

definition toUpperCase :: "char \<Rightarrow> char" where
  "toUpperCase c =
     (case map_of (zip ''abcdefghijklmnopqrstuvwxyz'' ''ABCDEFGHIJKLMNOPQRSTUVWXYZ'') c of
        Some u \<Rightarrow> u
      | None \<Rightarrow> c)"

text \<open>Carrying a function over the value of a computation that may have thrown.\<close>

definition mapRes :: "('a \<Rightarrow> 'b) \<Rightarrow> (error + 'a) \<times> 's \<Rightarrow> (error + 'b) \<times> 's" where
  "mapRes f r = (case r of (Inl e, st) \<Rightarrow> (Inl e, st) | (Inr x, st) \<Rightarrow> (Inr (f x), st))"

section \<open>Module state\<close>

text \<open>
  The module-level variables: \<^verbatim>\<open>createdTypeNames\<close> (a Set) and \<^verbatim>\<open>refMap\<close>
  (a Map) of utils.js, \<^verbatim>\<open>shownWarnings\<close> of generate.js (an object used as a set
  of keys), and the keys of the \<^verbatim>\<open>console.warn\<close> calls made so far, in order.
\<close>

record state =
  createdTypeNames :: "string set"
  refMap :: "string \<rightharpoonup> string"
  shownWarnings :: "string set"
  console :: "string list"

definition fresh :: state where
  "fresh = \<lparr>createdTypeNames = {}, refMap = Map.empty, shownWarnings = {}, console = []\<rparr>"

definition warn :: "string \<Rightarrow> state \<Rightarrow> state" where
  "warn key st =
     (if key \<notin> shownWarnings st
      then st\<lparr>shownWarnings := insert key (shownWarnings st), console := console st @ [key]\<rparr>
      else st)"

section \<open>utils.js\<close>

text \<open>
  \<open>cc\<close> stands for \<^verbatim>\<open>camelCase\<close> of the package lodash.camelcase, which is not part
  of the repository; it takes any value and returns a string.
\<close>

definition isRef :: "jsval \<Rightarrow> bool" where
  "isRef schemaOrRef = truthy (get schemaOrRef ''$ref'')"

definition capitalize :: "string \<Rightarrow> string" where
  "capitalize s = (case s of [] \<Rightarrow> [] | c # cs \<Rightarrow> toUpperCase c # cs)"

definition toPascalCase :: "(jsval \<Rightarrow> string) \<Rightarrow> string \<Rightarrow> string" where
  "toPascalCase cc s = (if s = [] then s else capitalize (cc (JStr s)))"

definition createTypeIdentifier :: "(jsval \<Rightarrow> string) \<Rightarrow> jsval \<Rightarrow> string \<Rightarrow> string" where
  "createTypeIdentifier cc v suffix = toPascalCase cc (toString v @ suffix)"

definition createTypeName ::
  "(jsval \<Rightarrow> string) \<Rightarrow> jsval \<Rightarrow> string \<Rightarrow> state \<Rightarrow> (error + string) \<times> state" where
  "createTypeName cc v suffix st =
     (let typeName = createTypeIdentifier cc v suffix in
      if typeName \<in> createdTypeNames st then (Inl (DuplicateTypeName typeName v), st)
      else (Inr typeName, st\<lparr>createdTypeNames := insert typeName (createdTypeNames st)\<rparr>))"

definition createOperationName :: "(jsval \<Rightarrow> string) \<Rightarrow> jsval \<Rightarrow> string" where
  "createOperationName cc v = cc v"

definition componentKeys :: "string list" where
  "componentKeys = [''schemas'', ''parameters'', ''requestBodies'', ''responses'']"

text \<open>The \<^verbatim>\<open>refMap.set\<close> calls of one component kind, in order.\<close>

definition refEntries :: "(jsval \<Rightarrow> string) \<Rightarrow> jsval \<Rightarrow> string \<Rightarrow> (string \<times> string) list" where
  "refEntries cc components key =
     (case objectKeys (orElse (get components key) (JObj [])) of
        Inl e \<Rightarrow> []
      | Inr refNames \<Rightarrow>
          map (\<lambda>refName. (''#/components/'' @ key @ ''/'' @ refName,
                           createTypeIdentifier cc (JStr refName) [])) refNames)"

definition mapSet :: "string \<times> string \<Rightarrow> (string \<rightharpoonup> string) \<Rightarrow> (string \<rightharpoonup> string)" where
  "mapSet kv m = m(fst kv \<mapsto> snd kv)"

definition buildRefMap :: "(jsval \<Rightarrow> string) \<Rightarrow> jsval \<Rightarrow> state \<Rightarrow> (error + unit) \<times> state" where
  "buildRefMap cc openApiDocument st =
     (if nullish openApiDocument then (Inl TypeError, st)
      else let components = get openApiDocument ''components'' in
        if \<not> truthy components then (Inr (), st)
        else (Inr (),
              st\<lparr>refMap := fold mapSet (concat (map (refEntries cc components) componentKeys))
                                (refMap st)\<rparr>))"

definition getTypeNameFromRef :: "jsval \<Rightarrow> state \<Rightarrow> error + string" where
  "getTypeNameFromRef schema st =
     (case get schema ''$ref'' of
        JStr r \<Rightarrow> (case refMap st r of None \<Rightarrow> Inl (UnknownRef (JStr r)) | Some t \<Rightarrow> Inr t)
      | v \<Rightarrow> Inl (UnknownRef v))"

section \<open>generate.js: the schema compiler\<close>

definition newline :: string where
  "newline = [CHR 0x0A]"

definition createTypeUnion :: "jsval list \<Rightarrow> string" where
  "createTypeUnion types = joinVals '' | '' types"

definition createNullableType :: "string \<Rightarrow> string" where
  "createNullableType type = createTypeUnion [JStr type, JStr ''null'']"

definition maybeNullable :: "jsval \<Rightarrow> string \<Rightarrow> string" where
  "maybeNullable schema type =
     (if truthy (get schema ''nullable'') then createNullableType type else type)"

definition createEnumType :: "jsval \<Rightarrow> error + string" where
  "createEnumType schema =
     (let type = get schema ''type''; enum = get schema ''enum'' in
      if type = JStr ''boolean'' \<or> type = JStr ''integer'' \<or> type = JStr ''number'' then
        (if truthy (get schema ''nullable'')
         then map_sum id (\<lambda>vs. createTypeUnion (vs @ [JStr ''null''])) (spread enum)
         else (case enum of JArr vs \<Rightarrow> Inr (createTypeUnion vs) | _ \<Rightarrow> Inl TypeError))
      else if type = JStr ''string'' then
        (case enum of
           JArr vs \<Rightarrow>
             (let wrapped = map (\<lambda>v. JStr (''\"'' @ toString v @ ''\"'')) vs in
              Inr (createTypeUnion
                     (if truthy (get schema ''nullable'') then wrapped @ [JStr ''null''] else wrapped)))
         | _ \<Rightarrow> Inl TypeError)
      else Inl (UnknownEnumType type))"

definition formatted :: "jsval \<Rightarrow> string \<Rightarrow> string" where
  "formatted schema base =
     (if truthy (get schema ''format'')
      then base @ '' /* '' @ toString (get schema ''format'') @ '' */''
      else base)"

definition createScalarType :: "jsval \<Rightarrow> error + string" where
  "createScalarType schema =
     (let type = get schema ''type'' in
      if truthy (get schema ''enum'') then createEnumType schema
      else if type = JStr ''boolean'' then Inr (maybeNullable schema ''boolean'')
      else if type = JStr ''integer'' then Inr (maybeNullable schema (formatted schema ''number''))
      else if type = JStr ''number'' then Inr (maybeNullable schema (formatted schema ''number''))
      else if type = JStr ''string'' then Inr (maybeNullable schema (formatted schema ''string''))
      else Inl (UnknownScalarType type))"

text \<open>\<^verbatim>\<open>new Set(v)\<close>: the elements of an iterable; none for a missing argument.\<close>

definition newSet :: "jsval \<Rightarrow> error + jsval list" where
  "newSet v = (if nullish v then Inr [] else spread v)"


text \<open>Measures for the termination of the schema compiler.\<close>

definition weight :: "jsval \<Rightarrow> nat" where
  "weight v = (if nullish v then 0 else 10 * size v + 5)"

definition sizes :: "jsval list \<Rightarrow> nat" where
  "sizes vs = sum_list (map size vs)"

lemma size_map_of: "map_of kvs k = Some v \<Longrightarrow> size v < size (JObj kvs)"
  by (induction kvs) (auto split: if_splits)

lemma size_get: "get s k \<noteq> JUndefined \<Longrightarrow> size (get s k) < size s"
  by (cases s) (auto split: option.splits dest: size_map_of)

lemma weight_get: "weight (get s k) < 10 * size s + 4"
proof (cases "get s k = JUndefined")
  case True
  then show ?thesis by (simp add: weight_def)
next
  case False
  from size_get [OF this] show ?thesis by (simp add: weight_def)
qed

lemma sizes_le_size_list: "sizes vs \<le> size_list size vs"
  by (induction vs) (auto simp: sizes_def)

lemma sizes_snd_le: "sizes (map snd kvs) \<le> size_list (size_prod (\<lambda>_. 0) size) kvs"
  by (induction kvs) (auto simp: sizes_def)

lemma map_snd_indexed: "map snd (indexed xs) = xs"
  by (simp add: indexed_def)

lemma sizes_chars: "sizes (map (\<lambda>c. JStr [c]) s) = 0"
  by (induction s) (auto simp: sizes_def)

lemma sizes_objectEntries: "objectEntries v = Inr kvs \<Longrightarrow> sizes (map snd kvs) \<le> size v"
proof (cases v)
  case (JArr xs)
  assume "objectEntries v = Inr kvs"
  with JArr sizes_le_size_list [of xs] show ?thesis by (auto simp: map_snd_indexed)
next
  case (JObj ps)
  assume "objectEntries v = Inr kvs"
  with JObj sizes_snd_le [of ps] show ?thesis by auto
next
  case (JStr s)
  assume "objectEntries v = Inr kvs"
  with JStr show ?thesis by (auto simp: map_snd_indexed sizes_chars)
qed (auto simp: sizes_def)

lemma truthy_get_size: "truthy (get s k) \<Longrightarrow> size (get s k) < size s"
  by (rule size_get) auto

function createType :: "jsval \<Rightarrow> state \<Rightarrow> (error + string) \<times> state"
  and createTypes :: "jsval list \<Rightarrow> state \<Rightarrow> (error + string list) \<times> state"
  and createArrayType :: "jsval \<Rightarrow> state \<Rightarrow> (error + string) \<times> state"
  and createObjectType :: "jsval \<Rightarrow> state \<Rightarrow> (error + string) \<times> state"
  and createObjectTypeProperties ::
    "(string \<times> jsval) list \<Rightarrow> jsval list \<Rightarrow> state \<Rightarrow> (error + string list) \<times> state"
  and createObjectTypeProperty ::
    "string \<Rightarrow> jsval \<Rightarrow> bool \<Rightarrow> state \<Rightarrow> (error + string) \<times> state"
where
  "createType schema st =
     (if nullish schema then (Inl TypeError, st)
      else if isRef schema then (getTypeNameFromRef schema st, st)
      else if truthy (get schema ''allOf'') then
        (case get schema ''allOf'' of
           JArr members \<Rightarrow> mapRes (join '' & '') (createTypes members st)
         | _ \<Rightarrow> (Inl TypeError, st))
      else if truthy (get schema ''anyOf'') then
        (case get schema ''anyOf'' of
           JArr members \<Rightarrow> mapRes (join '' | '') (createTypes members st)
         | _ \<Rightarrow> (Inl TypeError, st))
      else if truthy (get schema ''not'') then
        (Inl (NotYetImplemented ''\"not\" keyword not yet implemented.''), st)
      else if truthy (get schema ''oneOf'') then
        (case get schema ''oneOf'' of
           JArr members \<Rightarrow> mapRes (join '' | '') (createTypes members st)
         | _ \<Rightarrow> (Inl TypeError, st))
      else if truthy (get schema ''discriminator'') then
        (Inl (NotYetImplemented ''\"discriminator\" keyword not yet implemented.''), st)
      else
        (let st1 = (if truthy (get schema ''deprecated'') then warn ''deprecated'' st else st);
             st2 = (if truthy (get schema ''default'') then warn ''default'' st1 else st1)
         in if get schema ''type'' = JStr ''array'' then createArrayType schema st2
            else if get schema ''type'' = JStr ''object'' then createObjectType schema st2
            else (createScalarType schema, st2)))"
| "createTypes [] st = (Inr [], st)"
| "createTypes (schema # schemas) st =
     (case createType schema st of
        (Inl e, st1) \<Rightarrow> (Inl e, st1)
      | (Inr t, st1) \<Rightarrow> mapRes ((#) t) (createTypes schemas st1))"
| "createArrayType schema st =
     mapRes (\<lambda>t. maybeNullable schema (''Array<'' @ t @ ''>''))
       (createType (get schema ''items'') st)"
| "createObjectType schema st =
     (case (if truthy (get schema ''properties'') then
              (case newSet (get schema ''required'') of
                 Inl e \<Rightarrow> (Inl e, st)
               | Inr requiredProperties \<Rightarrow>
                   (case objectEntries (get schema ''properties'') of
                      Inl e \<Rightarrow> (Inl e, st)
                    | Inr props \<Rightarrow> createObjectTypeProperties props requiredProperties st))
            else (Inr [], st)) of
        (Inl e, st1) \<Rightarrow> (Inl e, st1)
      | (Inr properties, st1) \<Rightarrow>
          (let additionalProperties = get schema ''additionalProperties'' in
           if additionalProperties \<noteq> JUndefined \<and> properties = [] then
             (if additionalProperties = JBool True then
                (Inr (maybeNullable schema ''Record<string, unknown>''), st1)
              else
                (case objectKeys additionalProperties of
                   Inl e \<Rightarrow> (Inl e, st1)
                 | Inr ks \<Rightarrow>
                     if ks = [] then (Inr (maybeNullable schema ''Record<string, unknown>''), st1)
                     else mapRes (\<lambda>t. maybeNullable schema (''Record<string, '' @ t @ ''>''))
                            (createType additionalProperties st1)))
           else
             mapRes (\<lambda>properties'.
                       maybeNullable schema (''{'' @ newline @ join '','' properties' @ newline @ ''}''))
               (if additionalProperties \<noteq> JUndefined then
                  (if additionalProperties = JBool True
                   then (Inr (properties @ [''[key: string]: unknown'']), st1)
                   else mapRes (\<lambda>t. properties @ [''[key: string]: '' @ t])
                          (createType additionalProperties st1))
                else (Inr properties, st1))))"
| "createObjectTypeProperties [] requiredProperties st = (Inr [], st)"
| "createObjectTypeProperties ((name, schema) # props) requiredProperties st =
     (case createObjectTypeProperty name schema (JStr name \<in> set requiredProperties) st of
        (Inl e, st1) \<Rightarrow> (Inl e, st1)
      | (Inr p, st1) \<Rightarrow> mapRes ((#) p) (createObjectTypeProperties props requiredProperties st1))"
| "createObjectTypeProperty name schema required st =
     (if nullish schema then (Inl TypeError, st)
      else
        (let st1 = (if truthy (get schema ''readOnly'') then warn ''readOnly'' st else st);
             st2 = (if truthy (get schema ''writeOnly'') then warn ''writeOnly'' st1 else st1);
             st3 = (if truthy (get schema ''xml'') then warn ''xml'' st2 else st2)
         in mapRes (\<lambda>t. ''\"'' @ name @ ''\"'' @ (if required then [] else ''?'') @ '': '' @ t)
              (createType schema st3)))"
  by pat_completeness auto

termination
proof (relation "measures
   [\<lambda>x. case x of
        Inl (Inl (v, st)) \<Rightarrow> weight v
      | Inl (Inr (Inl (vs, st))) \<Rightarrow> 10 * sizes vs + 6
      | Inl (Inr (Inr (v, st))) \<Rightarrow> 10 * size v + 4
      | Inr (Inl (v, st)) \<Rightarrow> 10 * size v + 4
      | Inr (Inr (Inl (kvs, req, st))) \<Rightarrow> 10 * sizes (map snd kvs) + 7
      | Inr (Inr (Inr (name, v, req, st))) \<Rightarrow> 10 * size v + 6,
    \<lambda>x. case x of
        Inl (Inr (Inl (vs, st))) \<Rightarrow> length vs
      | Inr (Inr (Inl (kvs, req, st))) \<Rightarrow> length kvs
      | _ \<Rightarrow> 0]", goal_cases)
  case 1
  show ?case by simp
next
  case (2 schema st members)
  from truthy_get_size [OF 2(3)] 2(4) sizes_le_size_list [of members] 2(1)
  show ?case by (simp add: weight_def)
next
  case (3 schema st members)
  from truthy_get_size [OF 3(4)] 3(5) sizes_le_size_list [of members] 3(1)
  show ?case by (simp add: weight_def)
next
  case (4 schema st members)
  from truthy_get_size [OF 4(6)] 4(7) sizes_le_size_list [of members] 4(1)
  show ?case by (simp add: weight_def)
next
  case 5
  then show ?case by (auto simp: weight_def)
next
  case 6
  then show ?case by (auto simp: weight_def)
next
  case 7
  show ?case by (auto simp: weight_def sizes_def)
next
  case 8
  show ?case by (auto simp: sizes_def)
next
  case (9 schema st)
  from weight_get [of schema "''items''"] show ?case by simp
next
  case (10 schema st req props)
  from truthy_get_size [OF 10(1)] sizes_objectEntries [OF 10(3)]
  show ?case by simp
next
  case (11 schema)
  then show ?case using weight_get [of schema "''additionalProperties''"] by auto
next
  case (12 schema)
  then show ?case using weight_get [of schema "''additionalProperties''"] by auto
next
  case 13
  show ?case by (auto simp: sizes_def)
next
  case 14
  show ?case by (auto simp: sizes_def)
next
  case 15
  show ?case by (auto simp: weight_def)
qed

declare createType.simps [simp del] createTypes.simps [simp del] createArrayType.simps [simp del]
  createObjectType.simps [simp del] createObjectTypeProperties.simps [simp del]
  createObjectTypeProperty.simps [simp del]

section \<open>Sequencing\<close>

text \<open>
  A statement of the source runs in the module state and either returns a value or
  throws; a thrown error ends the run, and the state changes made before it stay.
\<close>

type_synonym 'a prog = "state \<Rightarrow> (error + 'a) \<times> state"

definition ret :: "'a \<Rightarrow> 'a prog" where
  "ret x st = (Inr x, st)"

definition throw :: "error \<Rightarrow> 'a prog" where
  "throw e st = (Inl e, st)"

definition lift :: "error + 'a \<Rightarrow> 'a prog" where
  "lift r st = (r, st)"

definition andThen :: "'a prog \<Rightarrow> ('a \<Rightarrow> 'b prog) \<Rightarrow> 'b prog" where
  "andThen m f st = (case m st of (Inl e, st1) \<Rightarrow> (Inl e, st1) | (Inr x, st1) \<Rightarrow> f x st1)"

text \<open>\<^verbatim>\<open>xs.map(f)\<close> for an \<open>f\<close> that changes the state or throws.\<close>

fun mapM :: "('a \<Rightarrow> 'b prog) \<Rightarrow> 'a list \<Rightarrow> 'b list prog" where
  "mapM f [] st = (Inr [], st)"
| "mapM f (x # xs) st =
     (case f x st of
        (Inl e, st1) \<Rightarrow> (Inl e, st1)
      | (Inr y, st1) \<Rightarrow> mapRes ((#) y) (mapM f xs st1))"

text \<open>\<^verbatim>\<open>xs.map(f)\<close> for an \<open>f\<close> that only computes or throws.\<close>

fun mapE :: "('a \<Rightarrow> error + 'b) \<Rightarrow> 'a list \<Rightarrow> error + 'b list" where
  "mapE f [] = Inr []"
| "mapE f (x # xs) =
     (case f x of
        Inl e \<Rightarrow> Inl e
      | Inr y \<Rightarrow> (case mapE f xs of Inl e \<Rightarrow> Inl e | Inr ys \<Rightarrow> Inr (y # ys)))"

section \<open>generate.js: text fragments\<close>

text \<open>\<^verbatim>\<open>s.trim()\<close>, on the white space of ASCII.\<close>

definition whitespace :: "char \<Rightarrow> bool" where
  "whitespace c = (c \<in> set [CHR '' '', CHR 0x09, CHR 0x0A, CHR 0x0B, CHR 0x0C, CHR 0x0D])"

definition trim :: "string \<Rightarrow> string" where
  "trim s = rev (dropWhile whitespace (rev (dropWhile whitespace s)))"

text \<open>
  \<^verbatim>\<open>createComment\<close> is only ever called with an array; each line must be a string,
  since \<^verbatim>\<open>s.trim\<close> is called on it.
\<close>

definition commentLine :: "jsval \<Rightarrow> error + string" where
  "commentLine s = (case s of JStr t \<Rightarrow> Inr ('' * '' @ trim t) | _ \<Rightarrow> Inl TypeError)"

definition createComment :: "jsval list \<Rightarrow> error + string" where
  "createComment lines =
     map_sum id (\<lambda>ls. join newline [''/**'', join newline ls, '' */'']) (mapE commentLine lines)"

definition createTypeAlias :: "string \<Rightarrow> string \<Rightarrow> string" where
  "createTypeAlias name typeDefinition = ''export type '' @ name @ '' = '' @ typeDefinition"

definition createNamespace :: "string \<Rightarrow> string list \<Rightarrow> string" where
  "createNamespace name children =
     ''export namespace '' @ name @ '' {'' @ newline @ ''    '' @ join newline children
       @ newline @ ''  }''"

definition createInfoHeader :: "jsval \<Rightarrow> error + string" where
  "createInfoHeader openApiDocument =
     (if nullish openApiDocument \<or> nullish (get openApiDocument ''info'') then Inl TypeError
      else
        (let info = get openApiDocument ''info'';
             title = get info ''title'';
             description = get info ''description'';
             termsOfService = get info ''termsOfService'';
             contact = get info ''contact'';
             license = get info ''license'';
             version = get info ''version''
         in createComment (filter truthy
              ([title, JStr newline]
               @ (if truthy description then [description, JStr newline] else [])
               @ [if truthy termsOfService
                  then JStr (''Terms of service: '' @ toString termsOfService)
                  else termsOfService,
                  if truthy contact
                  then JStr (''Contact: '' @ joinVals '', ''
                         (filter truthy
                            [get contact ''name'', get contact ''email'', get contact ''url'']))
                  else contact,
                  if truthy license
                  then JStr (''License: '' @ toString (get license ''name''))
                  else license,
                  JStr (''Version: '' @ toString version)]))))"

text \<open>\<^verbatim>\<open>getRequestBodySchemas\<close>: the body itself, or the schema of each media type.\<close>

definition getRequestBodySchemas :: "jsval \<Rightarrow> error + jsval list" where
  "getRequestBodySchemas maybeSchema =
     (if nullish maybeSchema then Inl TypeError
      else if \<not> truthy (get maybeSchema ''content'') then Inr [maybeSchema]
      else
        (case objectValues (get maybeSchema ''content'') of
           Inl e \<Rightarrow> Inl e
         | Inr medias \<Rightarrow>
             mapE (\<lambda>media. if nullish media then Inl TypeError else Inr (get media ''schema''))
               medias))"

section \<open>generate.js: component types\<close>

definition createTypesFromSchemas :: "(jsval \<Rightarrow> string) \<Rightarrow> jsval \<Rightarrow> string list prog" where
  "createTypesFromSchemas cc openApiDocument =
     (if nullish openApiDocument then throw TypeError
      else
        (let components = get openApiDocument ''components'' in
         if \<not> truthy components \<or> \<not> truthy (get components ''schemas'') then ret []
         else
           andThen (lift (objectEntries (get components ''schemas'')))
             (mapM (\<lambda>(name, schema).
                andThen (createTypeName cc (JStr name) [])
                  (\<lambda>typeName. andThen (createType schema)
                     (\<lambda>typeDefinition. ret (createTypeAlias typeName typeDefinition)))))))"

definition createTypesFromParameters :: "jsval \<Rightarrow> string list prog" where
  "createTypesFromParameters openApiDocument =
     (if nullish openApiDocument then throw TypeError
      else
        (let components = get openApiDocument ''components'' in
         if \<not> truthy components \<or> \<not> truthy (get components ''parameters'') then ret []
         else throw (NotYetImplemented ''\"components.parameters\" not yet implemented.'')))"

definition createTypesFromRequestBodies :: "(jsval \<Rightarrow> string) \<Rightarrow> jsval \<Rightarrow> string list prog" where
  "createTypesFromRequestBodies cc openApiDocument =
     (if nullish openApiDocument then throw TypeError
      else
        (let components = get openApiDocument ''components'' in
         if \<not> truthy components \<or> \<not> truthy (get components ''requestBodies'') then ret []
         else
           andThen (lift (objectEntries (get components ''requestBodies'')))
             (mapM (\<lambda>(name, component).
                andThen (lift (getRequestBodySchemas component))
                  (\<lambda>schemas.
                     andThen (createTypeName cc (JStr name) ''RequestBody'')
                       (\<lambda>typeName.
                          andThen (createType (case schemas of [] \<Rightarrow> JUndefined | schema # _ \<Rightarrow> schema))
                            (\<lambda>typeDefinition. ret (createTypeAlias typeName typeDefinition))))))))"

definition createTypesFromResponses :: "jsval \<Rightarrow> string list prog" where
  "createTypesFromResponses openApiDocument =
     (if nullish openApiDocument then throw TypeError
      else
        (let components = get openApiDocument ''components'' in
         if \<not> truthy components \<or> \<not> truthy (get components ''responses'') then ret []
         else throw (NotYetImplemented ''\"components.responses\" not yet implemented.'')))"

section \<open>generate.js: endpoints\<close>

text \<open>
  A plain object built by assignment enumerates its array-index keys first, in
  ascending numeric order, and then its other keys in the order of their creation.
\<close>

definition natOfString :: "string \<Rightarrow> nat" where
  "natOfString s = foldl (\<lambda>n c. 10 * n + (of_char c - 48)) 0 s"

definition isArrayIndex :: "string \<Rightarrow> bool" where
  "isArrayIndex k =
     (k \<noteq> [] \<and> list_all (\<lambda>c. c \<in> set ''0123456789'') k \<and> (k = ''0'' \<or> hd k \<noteq> CHR ''0'')
      \<and> natOfString k < 4294967295)"

definition precedes :: "string \<Rightarrow> string \<Rightarrow> bool" where
  "precedes k' k = (isArrayIndex k' \<and> natOfString k' < natOfString k)"

text \<open>\<^verbatim>\<open>o[k] = v\<close> on a plain object \<open>o\<close>.\<close>

definition setProp :: "string \<Rightarrow> 'a \<Rightarrow> (string \<times> 'a) list \<Rightarrow> (string \<times> 'a) list" where
  "setProp k v kvs =
     (if k \<in> fst ` set kvs then map (\<lambda>p. if fst p = k then (k, v) else p) kvs
      else if isArrayIndex k then
        takeWhile (\<lambda>p. precedes (fst p) k) kvs @ [(k, v)] @ dropWhile (\<lambda>p. precedes (fst p) k) kvs
      else kvs @ [(k, v)])"

text \<open>The properties every plain object inherits from \<^verbatim>\<open>Object.prototype\<close>.\<close>

definition objectPrototypeKeys :: "string list" where
  "objectPrototypeKeys =
     [''constructor'', ''__proto__'', ''hasOwnProperty'', ''isPrototypeOf'',
      ''propertyIsEnumerable'', ''toLocaleString'', ''toString'', ''valueOf'',
      ''__defineGetter__'', ''__defineSetter__'', ''__lookupGetter__'', ''__lookupSetter__'']"

text \<open>
  One entry of \<^verbatim>\<open>parametersByLocation\<close>: the \<^verbatim>\<open>required\<close> array and the
  \<^verbatim>\<open>properties\<close> object of the schema
  \<^verbatim>\<open>{ type: 'object', required: [], properties: {} }\<close>.
\<close>

type_synonym parameterGroup = "jsval list \<times> (string \<times> jsval) list"

definition groupSchema :: "parameterGroup \<Rightarrow> jsval" where
  "groupSchema g =
     JObj [(''type'', JStr ''object''), (''required'', JArr (fst g)), (''properties'', JObj (snd g))]"

text \<open>
  The body of \<^verbatim>\<open>allParameters.forEach\<close>. A location that names an inherited property
  is found truthy without having been created, and the assignment to its
  \<^verbatim>\<open>properties\<close> throws; assigning to \<^verbatim>\<open>__proto__\<close> creates no property.
\<close>

definition addParameter ::
  "jsval \<Rightarrow> (string \<times> parameterGroup) list \<Rightarrow> error + (string \<times> parameterGroup) list" where
  "addParameter parameter parametersByLocation =
     (if nullish parameter then Inl TypeError
      else
        (let location = toString (get parameter ''in'') in
         if location \<notin> fst ` set parametersByLocation \<and> location \<in> set objectPrototypeKeys
         then Inl TypeError
         else
           (let g = (case map_of parametersByLocation location of
                       Some g \<Rightarrow> g
                     | None \<Rightarrow> ([], []));
                name = toString (get parameter ''name'');
                properties =
                  (if name = ''__proto__'' then snd g
                   else setProp name (get parameter ''schema'') (snd g));
                required =
                  (if get parameter ''required'' \<noteq> JBool False
                   then fst g @ [get parameter ''name'']
                   else fst g)
            in Inr (setProp location (required, properties) parametersByLocation))))"

fun groupParameters ::
  "jsval list \<Rightarrow> (string \<times> parameterGroup) list \<Rightarrow> error + (string \<times> parameterGroup) list" where
  "groupParameters [] parametersByLocation = Inr parametersByLocation"
| "groupParameters (parameter # rest) parametersByLocation =
     (case addParameter parameter parametersByLocation of
        Inl e \<Rightarrow> Inl e
      | Inr parametersByLocation' \<Rightarrow> groupParameters rest parametersByLocation')"

text \<open>\<^verbatim>\<open>[...sharedParameters, ...parameters]\<close>.\<close>

definition allParameters :: "jsval \<Rightarrow> jsval \<Rightarrow> error + jsval list" where
  "allParameters sharedParameters parameters =
     (case spread sharedParameters of
        Inl e \<Rightarrow> Inl e
      | Inr shared \<Rightarrow> (case spread parameters of Inl e \<Rightarrow> Inl e | Inr own \<Rightarrow> Inr (shared @ own)))"

text \<open>
  The loop \<^verbatim>\<open>Object.entries(parametersByLocation).forEach\<close> of \<^verbatim>\<open>createEndpoints\<close>:
  one alias \<^verbatim>\<open><Location>Parameters\<close> for each location.
\<close>

definition parameterTypes ::
  "(jsval \<Rightarrow> string) \<Rightarrow> (string \<times> parameterGroup) list \<Rightarrow> string list prog" where
  "parameterTypes cc parametersByLocation =
     mapM (\<lambda>(location, g).
             andThen (createType (groupSchema g))
               (\<lambda>typeDefinition.
                  ret (createTypeAlias
                         (createTypeIdentifier cc (JStr (location @ ''Parameters'')) [])
                         typeDefinition)))
       parametersByLocation"

text \<open>
  The types of one media-type map: \<^verbatim>\<open>Object.entries(content).map(([mediaType, { schema }]) => createType(schema))\<close>.
\<close>

definition contentTypes :: "jsval \<Rightarrow> string list prog" where
  "contentTypes content =
     andThen (lift (objectEntries content))
       (mapM (\<lambda>(mediaType, media).
                if nullish media then throw TypeError else createType (get media ''schema'')))"

text \<open>
  The \<^verbatim>\<open>.map(...).flat()\<close> over the responses of one group, already filtered by
  status code; \<open>placeholder\<close> is \<^verbatim>\<open>'void'\<close> or \<^verbatim>\<open>'unknown'\<close>.
\<close>

definition responseTypes :: "string \<Rightarrow> (string \<times> jsval) list \<Rightarrow> string list prog" where
  "responseTypes placeholder responses =
     andThen
       (mapM (\<lambda>(statusCode, response).
                if nullish response then throw TypeError
                else if \<not> truthy (get response ''content'') then ret [placeholder]
                else contentTypes (get response ''content''))
          responses)
       (\<lambda>types. ret (concat types))"

definition isSuccess :: "string \<Rightarrow> bool" where
  "isSuccess statusCode = startsWith statusCode ''2''"

definition isError :: "string \<Rightarrow> bool" where
  "isError statusCode =
     (statusCode = ''default'' \<or> startsWith statusCode ''4'' \<or> startsWith statusCode ''5'')"

text \<open>The block \<^verbatim>\<open>if (responses) { ... }\<close> of \<^verbatim>\<open>createEndpoints\<close>.\<close>

definition responseNamespace :: "(jsval \<Rightarrow> string) \<Rightarrow> jsval \<Rightarrow> string list prog" where
  "responseNamespace cc responses =
     andThen (lift (objectEntries responses))
       (\<lambda>entries.
          andThen (responseTypes ''void'' (filter (\<lambda>(statusCode, r). isSuccess statusCode) entries))
            (\<lambda>successResponses.
               andThen (responseTypes ''unknown'' (filter (\<lambda>(statusCode, r). isError statusCode) entries))
                 (\<lambda>errorResponses.
                    ret [createNamespace (createTypeIdentifier cc (JStr ''Response'') [])
                           [createTypeAlias ''Success''
                              (createTypeUnion (map JStr
                                 (if successResponses \<noteq> [] then successResponses else [''void'']))),
                            createTypeAlias ''Error''
                              (createTypeUnion (map JStr
                                 (if errorResponses \<noteq> [] then errorResponses else [''unknown''])))]])))"

text \<open>The block \<^verbatim>\<open>if (requestBody) { ... }\<close> of \<^verbatim>\<open>createEndpoints\<close>.\<close>

definition requestBodyTypes :: "(jsval \<Rightarrow> string) \<Rightarrow> jsval \<Rightarrow> string list prog" where
  "requestBodyTypes cc requestBody =
     andThen (lift (getRequestBodySchemas requestBody))
       (\<lambda>schemas.
          andThen (createTypes schemas)
            (\<lambda>requestBodies.
               ret [createTypeAlias (createTypeIdentifier cc (JStr ''RequestBody'') [])
                      (createTypeUnion (map JStr requestBodies))]))"

text \<open>The argument of the \<^verbatim>\<open>createEndpoint\<close> hook.\<close>

record endpoint =
  ep_operationName :: string
  ep_method :: string
  ep_pathTemplate :: string
  ep_parameters :: "(string \<times> string list) list"
  ep_hasRequestBody :: bool
  ep_headers :: "(string \<times> string) list"
  ep_returnType :: string
  ep_typeName :: string

text \<open>
  The hooks of \<^verbatim>\<open>generate\<close> and the formatter (prettier with the caller's
  configuration) are functions from outside; each returns a text or throws.
\<close>

record options =
  preProcess :: "jsval \<Rightarrow> error + jsval"
  validate :: "jsval \<Rightarrow> error + unit"
  createImports :: "jsval \<Rightarrow> error + string"
  createRequestFunction :: "jsval \<Rightarrow> jsval \<Rightarrow> error + string"
  createEndpoint :: "endpoint \<Rightarrow> error + string"
  baseUrl :: jsval
  format :: "string \<Rightarrow> error + string"

definition optionalComment :: "jsval \<Rightarrow> jsval \<Rightarrow> error + string list" where
  "optionalComment description summary =
     (if truthy (orElse description summary)
      then map_sum id (\<lambda>c. [c]) (createComment (filter truthy [description, summary]))
      else Inr [])"

text \<open>The body of the loop over the operations of one path.\<close>

definition createOperation ::
  "(jsval \<Rightarrow> string) \<Rightarrow> options \<Rightarrow> string \<Rightarrow> jsval \<Rightarrow> string \<times> jsval \<Rightarrow> string list prog" where
  "createOperation cc opts path sharedParameters entry =
     (let method = fst entry; operation = snd entry in
      if nullish operation then throw TypeError
      else
        (let summary = get operation ''summary'';
             description = get operation ''description'';
             operationId = get operation ''operationId'';
             parameters = (if get operation ''parameters'' = JUndefined then JArr []
                           else get operation ''parameters'');
             requestBody = get operation ''requestBody'';
             responses = get operation ''responses'';
             opName = orElse operationId (JStr (method @ path));
             operationName = createOperationName cc opName
         in
         andThen (createTypeName cc opName [])
           (\<lambda>typeName.
         andThen (lift (optionalComment description summary))
           (\<lambda>comment.
         andThen (lift (allParameters sharedParameters parameters))
           (\<lambda>allParameters.
         andThen (lift (groupParameters allParameters []))
           (\<lambda>parametersByLocation.
         andThen (parameterTypes cc parametersByLocation)
           (\<lambda>parameterAliases.
         andThen (if truthy responses then responseNamespace cc responses else ret [])
           (\<lambda>responseAliases.
         andThen (if truthy requestBody then requestBodyTypes cc requestBody else ret [])
           (\<lambda>requestBodyAliases.
         andThen (lift (createEndpoint opts
                    \<lparr>ep_operationName = operationName,
                     ep_method = method,
                     ep_pathTemplate = path,
                     ep_parameters =
                       map (\<lambda>(location, g). (location, [''type'', ''required'', ''properties'']))
                         parametersByLocation,
                     ep_hasRequestBody = truthy requestBody,
                     ep_headers =
                       (if truthy requestBody then [(''Content-Type'', ''application/json'')]
                        else []),
                     ep_returnType = ''json'',
                     ep_typeName = typeName\<rparr>))
           (\<lambda>endpoint.
              ret (comment
                   @ [createNamespace typeName
                        (parameterAliases @ responseAliases @ requestBodyAliases),
                      endpoint])))))))))))"

definition HTTP_METHODS :: "string list" where
  "HTTP_METHODS = [''get'', ''delete'', ''patch'', ''post'', ''put'']"

text \<open>The body of the loop over the paths.\<close>

definition createPathItem ::
  "(jsval \<Rightarrow> string) \<Rightarrow> options \<Rightarrow> string \<times> jsval \<Rightarrow> string list prog" where
  "createPathItem cc opts entry =
     (let path = fst entry; operations = snd entry in
      if nullish operations then throw TypeError
      else
        andThen (lift (optionalComment (get operations ''description'') (get operations ''summary'')))
          (\<lambda>comment.
             if isRef operations then
               throw (NotYetImplemented ''External $ref for path item object not yet implemented.'')
             else if truthy (get operations ''servers'') then
               throw (NotYetImplemented ''Custom per-endpoint servers not yet implemented.'')
             else
               (let sharedParameters = orElse (get operations ''parameters'') (JArr []) in
                andThen (lift (objectEntries operations))
                  (\<lambda>entries.
                     andThen (mapM (createOperation cc opts path sharedParameters)
                                (filter (\<lambda>(method, operation). method \<in> set HTTP_METHODS) entries))
                       (\<lambda>endpoints. ret (comment @ concat endpoints))))))"

definition createEndpoints :: "(jsval \<Rightarrow> string) \<Rightarrow> options \<Rightarrow> jsval \<Rightarrow> string list prog" where
  "createEndpoints cc opts openApiDocument =
     (if nullish openApiDocument then throw TypeError
      else
        andThen (lift (objectEntries (get openApiDocument ''paths'')))
          (\<lambda>entries.
             andThen (mapM (createPathItem cc opts) entries)
               (\<lambda>endpoints. ret (concat endpoints))))"

section \<open>generate.js: the entry point\<close>

text \<open>\<open>convertObj\<close> stands for the converter of the package swagger2openapi.\<close>

definition defaultPreProcess :: "(jsval \<Rightarrow> error + jsval) \<Rightarrow> jsval \<Rightarrow> error + jsval" where
  "defaultPreProcess convertObj openApiDocument =
     (if nullish openApiDocument then Inl TypeError
      else if get openApiDocument ''swagger'' = JStr ''2.0'' then convertObj openApiDocument
      else Inr openApiDocument)"

definition defaultValidate :: "jsval \<Rightarrow> error + unit" where
  "defaultValidate openApiDocument =
     (if nullish openApiDocument then Inl TypeError
      else
        (case get openApiDocument ''openapi'' of
           JStr v \<Rightarrow> if startsWith v ''3'' then Inr () else Inl OnlyOpenApiV3
         | _ \<Rightarrow> Inl OnlyOpenApiV3))"

text \<open>
  The statements of the module, in the order in which \<^verbatim>\<open>generate\<close> pushes them;
  \<^verbatim>\<open>generate\<close> joins them by an empty line and formats the text.
\<close>

definition statements :: "(jsval \<Rightarrow> string) \<Rightarrow> options \<Rightarrow> jsval \<Rightarrow> string list prog" where
  "statements cc opts openApiDocument =
     andThen (lift (createInfoHeader openApiDocument))
       (\<lambda>infoHeader.
     andThen (lift (createImports opts openApiDocument))
       (\<lambda>imports.
     andThen (buildRefMap cc openApiDocument)
       (\<lambda>_.
     andThen (createTypesFromSchemas cc openApiDocument)
       (\<lambda>schemas.
     andThen (createTypesFromParameters openApiDocument)
       (\<lambda>parameters.
     andThen (createTypesFromRequestBodies cc openApiDocument)
       (\<lambda>requestBodies.
     andThen (createTypesFromResponses openApiDocument)
       (\<lambda>responses.
     andThen (lift (createRequestFunction opts openApiDocument (baseUrl opts)))
       (\<lambda>requestFunction.
     andThen (createEndpoints cc opts openApiDocument)
       (\<lambda>endpoints.
          ret ([infoHeader, imports] @ schemas @ parameters @ requestBodies @ responses
               @ [requestFunction] @ endpoints))))))))))"

definition generate :: "(jsval \<Rightarrow> string) \<Rightarrow> options \<Rightarrow> jsval \<Rightarrow> string prog" where
  "generate cc opts initialOpenApiDocument =
     andThen (lift (preProcess opts initialOpenApiDocument))
       (\<lambda>openApiDocument.
          andThen (lift (validate opts openApiDocument))
            (\<lambda>_.
               andThen (statements cc opts openApiDocument)
                 (\<lambda>statements. lift (format opts (join (newline @ newline) statements)))))"

section \<open>Two runs from related states\<close>

definition relAt :: "(state \<Rightarrow> state \<Rightarrow> bool) \<Rightarrow> 'a prog \<Rightarrow> state \<Rightarrow> bool" where
  "relAt R m st = (\<forall>st'. R st st' \<longrightarrow> fst (m st) = fst (m st') \<and> R (snd (m st)) (snd (m st')))"

definition warnRel :: "(state \<Rightarrow> state \<Rightarrow> bool) \<Rightarrow> bool" where
  "warnRel R = ((\<forall>k a b. R a b \<longrightarrow> R (warn k a) (warn k b)) \<and> (\<forall>a b. R a b \<longrightarrow> refMap a = refMap b))"

lemma relAt_const: "relAt R (\<lambda>s. (r, s)) st"
  by (simp add: relAt_def)

lemma relAt_if:
  "(c \<Longrightarrow> relAt R a st) \<Longrightarrow> (\<not> c \<Longrightarrow> relAt R b st) \<Longrightarrow> relAt R (\<lambda>s. if c then a s else b s) st"
  by (simp add: relAt_def)

lemma relAt_mapRes: "relAt R m st \<Longrightarrow> relAt R (\<lambda>s. mapRes f (m s)) st"
  by (auto simp: relAt_def mapRes_def split: prod.splits sum.splits)

lemma relAt_seq:
  assumes m: "relAt R m st"
    and f: "\<And>x y. m st = (Inr x, y) \<Longrightarrow> relAt R (f x) y"
  shows "relAt R (\<lambda>s. case m s of (Inl e, s1) \<Rightarrow> (Inl e, s1) | (Inr x, s1) \<Rightarrow> f x s1) st"
  unfolding relAt_def
proof (intro allI impI)
  fix st'
  assume r: "R st st'"
  obtain a y where 1: "m st = (a, y)" by (cases "m st")
  obtain a' y' where 2: "m st' = (a', y')" by (cases "m st'")
  from m r 1 2 have eq: "a = a'" and ry: "R y y'" by (auto simp: relAt_def)
  show "fst (case m st of (Inl e, s1) \<Rightarrow> (Inl e, s1) | (Inr x, s1) \<Rightarrow> f x s1)
        = fst (case m st' of (Inl e, s1) \<Rightarrow> (Inl e, s1) | (Inr x, s1) \<Rightarrow> f x s1)
      \<and> R (snd (case m st of (Inl e, s1) \<Rightarrow> (Inl e, s1) | (Inr x, s1) \<Rightarrow> f x s1))
          (snd (case m st' of (Inl e, s1) \<Rightarrow> (Inl e, s1) | (Inr x, s1) \<Rightarrow> f x s1))"
  proof (cases a)
    case (Inl e)
    with 1 2 eq ry show ?thesis by auto
  next
    case (Inr x)
    with 1 have "relAt R (f x) y" by (intro f) simp
    with ry have "fst (f x y) = fst (f x y') \<and> R (snd (f x y)) (snd (f x y'))"
      by (simp add: relAt_def)
    with 1 2 eq Inr show ?thesis by auto
  qed
qed

lemma relAt_pre:
  "(\<And>a b. R a b \<Longrightarrow> R (g a) (g b)) \<Longrightarrow> relAt R m (g st) \<Longrightarrow> relAt R (\<lambda>s. m (g s)) st"
  by (auto simp: relAt_def)

lemma warnRel_warn: "warnRel R \<Longrightarrow> R a b \<Longrightarrow> R (warn k a) (warn k b)"
  by (simp add: warnRel_def)

lemma createArrayType_fun:
  "createArrayType schema =
     (\<lambda>st. mapRes (\<lambda>t. maybeNullable schema (''Array<'' @ t @ ''>''))
       (createType (get schema ''items'') st))"
  by (rule ext) (simp add: createArrayType.simps)

lemma createTypes_fun:
  "createTypes (schema # schemas) =
     (\<lambda>st. case createType schema st of
        (Inl e, st1) \<Rightarrow> (Inl e, st1)
      | (Inr t, st1) \<Rightarrow> (\<lambda>s. mapRes ((#) t) (createTypes schemas s)) st1)"
  by (rule ext) (simp add: createTypes.simps)

lemma createObjectTypeProperties_fun:
  "createObjectTypeProperties ((name, schema) # props) requiredProperties =
     (\<lambda>st. case createObjectTypeProperty name schema (JStr name \<in> set requiredProperties) st of
        (Inl e, st1) \<Rightarrow> (Inl e, st1)
      | (Inr p, st1) \<Rightarrow>
          (\<lambda>s. mapRes ((#) p) (createObjectTypeProperties props requiredProperties s)) st1)"
  by (rule ext) (simp add: createObjectTypeProperties.simps)

definition propertyWarnings :: "jsval \<Rightarrow> state \<Rightarrow> state" where
  "propertyWarnings schema st =
     (let st1 = (if truthy (get schema ''readOnly'') then warn ''readOnly'' st else st);
          st2 = (if truthy (get schema ''writeOnly'') then warn ''writeOnly'' st1 else st1)
      in if truthy (get schema ''xml'') then warn ''xml'' st2 else st2)"

definition schemaWarnings :: "jsval \<Rightarrow> state \<Rightarrow> state" where
  "schemaWarnings schema st =
     (let st1 = (if truthy (get schema ''deprecated'') then warn ''deprecated'' st else st)
      in if truthy (get schema ''default'') then warn ''default'' st1 else st1)"

lemma createObjectTypeProperty_fun:
  "createObjectTypeProperty name schema required =
     (\<lambda>st. if nullish schema then (Inl TypeError, st)
      else (\<lambda>s. mapRes (\<lambda>t. ''\"'' @ name @ ''\"'' @ (if required then [] else ''?'') @ '': '' @ t)
              (createType schema s)) (propertyWarnings schema st))"
  by (rule ext) (simp add: createObjectTypeProperty.simps Let_def propertyWarnings_def)

definition declaredProperties :: "jsval \<Rightarrow> state \<Rightarrow> (error + string list) \<times> state" where
  "declaredProperties schema st =
     (if truthy (get schema ''properties'') then
              (case newSet (get schema ''required'') of
                 Inl e \<Rightarrow> (Inl e, st)
               | Inr requiredProperties \<Rightarrow>
                   (case objectEntries (get schema ''properties'') of
                      Inl e \<Rightarrow> (Inl e, st)
                    | Inr props \<Rightarrow> createObjectTypeProperties props requiredProperties st))
            else (Inr [], st))"

definition finishObjectType :: "jsval \<Rightarrow> string list \<Rightarrow> state \<Rightarrow> (error + string) \<times> state" where
  "finishObjectType schema properties st1 =
          (let additionalProperties = get schema ''additionalProperties'' in
           if additionalProperties \<noteq> JUndefined \<and> properties = [] then
             (if additionalProperties = JBool True then
                (Inr (maybeNullable schema ''Record<string, unknown>''), st1)
              else
                (case objectKeys additionalProperties of
                   Inl e \<Rightarrow> (Inl e, st1)
                 | Inr ks \<Rightarrow>
                     if ks = [] then (Inr (maybeNullable schema ''Record<string, unknown>''), st1)
                     else mapRes (\<lambda>t. maybeNullable schema (''Record<string, '' @ t @ ''>''))
                            (createType additionalProperties st1)))
           else
             mapRes (\<lambda>properties'.
                       maybeNullable schema (''{'' @ newline @ join '','' properties' @ newline @ ''}''))
               (if additionalProperties \<noteq> JUndefined then
                  (if additionalProperties = JBool True
                   then (Inr (properties @ [''[key: string]: unknown'']), st1)
                   else mapRes (\<lambda>t. properties @ [''[key: string]: '' @ t])
                          (createType additionalProperties st1))
                else (Inr properties, st1)))"

lemma createObjectType_fun:
  "createObjectType schema =
     (\<lambda>st. case declaredProperties schema st of
        (Inl e, st1) \<Rightarrow> (Inl e, st1)
      | (Inr properties, st1) \<Rightarrow> finishObjectType schema properties st1)"
  unfolding createObjectType.simps declaredProperties_def finishObjectType_def by (rule refl)

lemma relAt_ref: "warnRel R \<Longrightarrow> relAt R (\<lambda>s. (getTypeNameFromRef schema s, s)) st"
proof -
  assume w: "warnRel R"
  have "getTypeNameFromRef schema a = getTypeNameFromRef schema b" if "R a b" for a b
  proof -
    from w that have "refMap a = refMap b" by (simp add: warnRel_def)
    then show ?thesis by (simp add: getTypeNameFromRef_def split: jsval.splits)
  qed
  then show ?thesis by (simp add: relAt_def)
qed

lemma createType_fun:
  "createType schema =
     (\<lambda>st. if nullish schema then (Inl TypeError, st)
      else if isRef schema then (getTypeNameFromRef schema st, st)
      else if truthy (get schema ''allOf'') then
        (case get schema ''allOf'' of
           JArr members \<Rightarrow> mapRes (join '' & '') (createTypes members st)
         | _ \<Rightarrow> (Inl TypeError, st))
      else if truthy (get schema ''anyOf'') then
        (case get schema ''anyOf'' of
           JArr members \<Rightarrow> mapRes (join '' | '') (createTypes members st)
         | _ \<Rightarrow> (Inl TypeError, st))
      else if truthy (get schema ''not'') then
        (Inl (NotYetImplemented ''\"not\" keyword not yet implemented.''), st)
      else if truthy (get schema ''oneOf'') then
        (case get schema ''oneOf'' of
           JArr members \<Rightarrow> mapRes (join '' | '') (createTypes members st)
         | _ \<Rightarrow> (Inl TypeError, st))
      else if truthy (get schema ''discriminator'') then
        (Inl (NotYetImplemented ''\"discriminator\" keyword not yet implemented.''), st)
      else
        (if get schema ''type'' = JStr ''array'' then createArrayType schema
            else if get schema ''type'' = JStr ''object'' then createObjectType schema
            else (\<lambda>s2. (createScalarType schema, s2)))
         (schemaWarnings schema st))"
  by (rule ext) (simp add: createType.simps [of schema] Let_def schemaWarnings_def)

lemma warnRel_schemaWarnings:
  "warnRel R \<Longrightarrow> R a b \<Longrightarrow> R (schemaWarnings schema a) (schemaWarnings schema b)"
  by (simp add: schemaWarnings_def Let_def warnRel_warn)

lemma warnRel_propertyWarnings:
  "warnRel R \<Longrightarrow> R a b \<Longrightarrow> R (propertyWarnings schema a) (propertyWarnings schema b)"
  by (simp add: propertyWarnings_def Let_def warnRel_warn)

lemma relAt_family:
  assumes w: "warnRel R"
  shows "relAt R (createType v) st"
    and "relAt R (createTypes vs) st"
    and "relAt R (createArrayType v) st"
    and "relAt R (createObjectType v) st"
    and "relAt R (createObjectTypeProperties kvs req) st"
    and "relAt R (createObjectTypeProperty name v required) st"
proof (induction v st and vs st and v st and v st and kvs req st and name v required st
    rule: createType_createTypes_createArrayType_createObjectType_createObjectTypeProperties_createObjectTypeProperty.induct)
  case (1 schema st)
  show ?case
    apply (subst createType_fun)
    apply (intro relAt_if relAt_const relAt_ref w)
    subgoal using 1(1) by (cases "get schema ''allOf''") (auto intro: relAt_const relAt_mapRes)
    subgoal using 1(2) by (cases "get schema ''anyOf''") (auto intro: relAt_const relAt_mapRes)
    subgoal using 1(3) by (cases "get schema ''oneOf''") (auto intro: relAt_const relAt_mapRes)
    subgoal
      apply (rule relAt_pre)
       apply (erule warnRel_schemaWarnings [OF w])
      using 1(4,5) apply (auto simp: schemaWarnings_def Let_def intro: relAt_const)
      done
    done
next
  case (2 st)
  have "createTypes [] = (\<lambda>s. (Inr [], s))"
    by (rule ext) (simp add: createTypes.simps)
  then show ?case by (simp add: relAt_const)
next
  case (3 schema schemas st)
  show ?case
    apply (subst createTypes_fun)
    apply (rule relAt_seq)
     apply (rule 3(1))
    apply (rule relAt_mapRes)
    apply (rule 3(2))
     apply (rule sym, assumption)
    apply (rule refl)
    done
next
  case (4 schema st)
  show ?case
    apply (subst createArrayType_fun)
    apply (rule relAt_mapRes)
    apply (rule 4)
    done
next
  case (5 schema st)
  have d: "relAt R (declaredProperties schema) st"
  proof -
    have "declaredProperties schema =
      (\<lambda>s. if truthy (get schema ''properties'') then
              (case newSet (get schema ''required'') of
                 Inl e \<Rightarrow> (Inl e, s)
               | Inr requiredProperties \<Rightarrow>
                   (case objectEntries (get schema ''properties'') of
                      Inl e \<Rightarrow> (Inl e, s)
                    | Inr props \<Rightarrow> createObjectTypeProperties props requiredProperties s))
            else (Inr [], s))"
      by (rule ext) (simp add: declaredProperties_def)
    then show ?thesis
      using 5(1)
      by (cases "truthy (get schema ''properties'')"; cases "newSet (get schema ''required'')";
          cases "objectEntries (get schema ''properties'')") (simp_all add: relAt_const)
  qed
  have f: "relAt R (finishObjectType schema properties) y"
    if "declaredProperties schema st = (Inr properties, y)" for properties y
  proof -
    have "finishObjectType schema properties =
      (\<lambda>s. if get schema ''additionalProperties'' \<noteq> JUndefined \<and> properties = [] then
             (if get schema ''additionalProperties'' = JBool True then
                (Inr (maybeNullable schema ''Record<string, unknown>''), s)
              else
                (case objectKeys (get schema ''additionalProperties'') of
                   Inl e \<Rightarrow> (Inl e, s)
                 | Inr ks \<Rightarrow>
                     if ks = [] then (Inr (maybeNullable schema ''Record<string, unknown>''), s)
                     else mapRes (\<lambda>t. maybeNullable schema (''Record<string, '' @ t @ ''>''))
                            (createType (get schema ''additionalProperties'') s)))
           else
             mapRes (\<lambda>properties'.
                       maybeNullable schema (''{'' @ newline @ join '','' properties' @ newline @ ''}''))
               (if get schema ''additionalProperties'' \<noteq> JUndefined then
                  (if get schema ''additionalProperties'' = JBool True
                   then (Inr (properties @ [''[key: string]: unknown'']), s)
                   else mapRes (\<lambda>t. properties @ [''[key: string]: '' @ t])
                          (createType (get schema ''additionalProperties'') s))
                else (Inr properties, s)))"
      by (rule ext) (simp add: finishObjectType_def Let_def)
    then show ?thesis
      using 5(2) [OF that [symmetric, unfolded declaredProperties_def] refl refl]
        5(3) [OF that [symmetric, unfolded declaredProperties_def] refl refl]
      by (cases "objectKeys (get schema ''additionalProperties'')")
        (auto simp: relAt_const intro!: relAt_mapRes relAt_if)
  qed
  show ?case
    apply (subst createObjectType_fun)
    apply (rule relAt_seq [OF d])
    apply (erule f)
    done
next
  case (6 req st)
  have "createObjectTypeProperties [] req = (\<lambda>s. (Inr [], s))"
    by (rule ext) (simp add: createObjectTypeProperties.simps)
  then show ?case by (simp add: relAt_const)
next
  case (7 name schema props req st)
  show ?case
    apply (subst createObjectTypeProperties_fun)
    apply (rule relAt_seq)
     apply (rule 7(1))
    apply (rule relAt_mapRes)
    apply (rule 7(2))
     apply (rule sym, assumption)
    apply (rule refl)
    done
next
  case (8 name schema required st)
  show ?case
    apply (subst createObjectTypeProperty_fun)
    apply (intro relAt_if relAt_const)
    apply (rule relAt_pre)
     apply (erule warnRel_propertyWarnings [OF w])
    apply (rule relAt_mapRes)
    using 8 apply (auto simp: propertyWarnings_def Let_def)
    done
qed

section \<open>Dictionaries\<close>

lemmas compile_simps =
  createType.simps createTypes.simps createArrayType.simps createObjectType.simps
  createObjectTypeProperties.simps createObjectTypeProperty.simps
  isRef_def createScalarType_def createEnumType_def maybeNullable_def formatted_def
  createNullableType_def createTypeUnion_def joinVals_def mapRes_def newSet_def
  getTypeNameFromRef_def objectKeys_def warn_def Let_def

definition compilesAsObject :: "jsval \<Rightarrow> bool" where
  "compilesAsObject schema =
     (\<not> nullish schema \<and> \<not> isRef schema \<and> \<not> truthy (get schema ''allOf'')
      \<and> \<not> truthy (get schema ''anyOf'') \<and> \<not> truthy (get schema ''not'')
      \<and> \<not> truthy (get schema ''oneOf'') \<and> \<not> truthy (get schema ''discriminator'')
      \<and> get schema ''type'' = JStr ''object'')"

definition noDeclaredProperties :: "jsval \<Rightarrow> bool" where
  "noDeclaredProperties schema =
     (\<not> truthy (get schema ''properties'')
      \<or> (get schema ''properties'' = JObj [] \<and> \<not> isl (newSet (get schema ''required''))))"

lemma createType_object:
  "compilesAsObject schema \<Longrightarrow>
   createType schema st = createObjectType schema (schemaWarnings schema st)"
  by (simp add: createType_fun compilesAsObject_def)

lemma declaredProperties_none:
  "noDeclaredProperties schema \<Longrightarrow> declaredProperties schema st = (Inr [], st)"
  by (cases "newSet (get schema ''required'')")
     (auto simp: noDeclaredProperties_def declaredProperties_def createObjectTypeProperties.simps
        newSet_def split: if_splits)

lemma dictionary_unconstrained:
  assumes "compilesAsObject schema" and "noDeclaredProperties schema"
    and "get schema ''additionalProperties'' \<in> {JBool False, JBool True, JObj []}"
  shows "createType schema st =
    (Inr (maybeNullable schema ''Record<string, unknown>''), schemaWarnings schema st)"
  using assms(3)
  by (auto simp: createType_object [OF assms(1)] createObjectType_fun
      declaredProperties_none [OF assms(2)] finishObjectType_def objectKeys_def)

text \<open>
  Claim C10. An object schema with no declared properties and
  \<^verbatim>\<open>additionalProperties: false\<close> compiles to the unconstrained dictionary type
  \<^verbatim>\<open>Record<string, unknown>\<close> (with the null member appended when the schema is
  nullable), the same type as a schema of the same nullability whose
  \<^verbatim>\<open>additionalProperties\<close> is \<^verbatim>\<open>true\<close> or the empty object: \<^verbatim>\<open>false\<close> is not
  told apart from \<^verbatim>\<open>true\<close>.
\<close>

theorem additionalProperties_false_is_unconstrained:
  assumes "compilesAsObject s" and "noDeclaredProperties s"
    and "get s ''additionalProperties'' = JBool False"
    and "compilesAsObject s'" and "noDeclaredProperties s'"
    and "get s' ''additionalProperties'' \<in> {JBool True, JObj []}"
    and "truthy (get s ''nullable'') = truthy (get s' ''nullable'')"
  shows "fst (createType s st) = fst (createType s' st')
    \<and> fst (createType s st) =
        Inr (if truthy (get s ''nullable'') then ''Record<string, unknown> | null''
             else ''Record<string, unknown>'')"
proof -
  have 1: "createType s st =
      (Inr (maybeNullable s ''Record<string, unknown>''), schemaWarnings s st)"
    using assms(1,2,3) by (intro dictionary_unconstrained) auto
  have 2: "createType s' st' =
      (Inr (maybeNullable s' ''Record<string, unknown>''), schemaWarnings s' st')"
    using assms(4,5,6) by (intro dictionary_unconstrained) auto
  show ?thesis
    using assms(7)
    by (simp add: 1 2 maybeNullable_def createNullableType_def createTypeUnion_def joinVals_def)
qed

theorem additionalProperties_false_witness:
  "fst (createType (JObj [(''type'', JStr ''object''), (''additionalProperties'', JBool False)]) fresh)
     = fst (createType (JObj [(''type'', JStr ''object''), (''additionalProperties'', JBool True)]) fresh)
   \<and> fst (createType (JObj [(''type'', JStr ''object''), (''additionalProperties'', JBool False)])
        fresh) = Inr ''Record<string, unknown>''"
  using additionalProperties_false_is_unconstrained
    [of "JObj [(''type'', JStr ''object''), (''additionalProperties'', JBool False)]"
        "JObj [(''type'', JStr ''object''), (''additionalProperties'', JBool True)]" fresh fresh]
  by (auto simp: compilesAsObject_def noDeclaredProperties_def isRef_def)

section \<open>Independence of the warnings shown\<close>

definition rel :: "(state \<Rightarrow> state \<Rightarrow> bool) \<Rightarrow> 'a prog \<Rightarrow> bool" where
  "rel R m = (\<forall>st. relAt R m st)"

definition stateRel :: "(state \<Rightarrow> state \<Rightarrow> bool) \<Rightarrow> bool" where
  "stateRel R =
     (warnRel R
      \<and> (\<forall>a b. R a b \<longrightarrow> createdTypeNames a = createdTypeNames b)
      \<and> (\<forall>a b X. R a b \<longrightarrow> R (a\<lparr>createdTypeNames := X\<rparr>) (b\<lparr>createdTypeNames := X\<rparr>))
      \<and> (\<forall>a b M. R a b \<longrightarrow> R (a\<lparr>refMap := M\<rparr>) (b\<lparr>refMap := M\<rparr>)))"

lemma stateRel_warnRel: "stateRel R \<Longrightarrow> warnRel R"
  by (simp add: stateRel_def)

lemma rel_ret: "rel R (ret x)"
  by (simp add: rel_def relAt_def ret_def)

lemma rel_throw: "rel R (throw e)"
  by (simp add: rel_def relAt_def throw_def)

lemma rel_lift: "rel R (lift r)"
  by (simp add: rel_def relAt_def lift_def)

lemma rel_andThen: "rel R m \<Longrightarrow> (\<And>x. rel R (f x)) \<Longrightarrow> rel R (andThen m f)"
proof -
  assume m: "rel R m" and f: "\<And>x. rel R (f x)"
  have "andThen m f = (\<lambda>s. case m s of (Inl e, s1) \<Rightarrow> (Inl e, s1) | (Inr x, s1) \<Rightarrow> f x s1)"
    by (rule ext) (simp add: andThen_def)
  moreover have "relAt R (\<lambda>s. case m s of (Inl e, s1) \<Rightarrow> (Inl e, s1) | (Inr x, s1) \<Rightarrow> f x s1) st"
    for st
    using m f by (intro relAt_seq) (simp_all add: rel_def)
  ultimately show ?thesis by (simp add: rel_def)
qed

lemma rel_mapM: "(\<And>x. rel R (f x)) \<Longrightarrow> rel R (mapM f xs)"
proof (induction xs)
  case Nil
  have "mapM f [] = ret []" by (rule ext) (simp add: ret_def)
  then show ?case by (simp add: rel_ret)
next
  case (Cons x xs)
  have "mapM f (x # xs) = andThen (f x) (\<lambda>y s. mapRes ((#) y) (mapM f xs s))"
    by (rule ext) (simp add: andThen_def)
  moreover have "rel R (\<lambda>s. mapRes ((#) y) (mapM f xs s))" for y
    using Cons by (simp add: rel_def relAt_mapRes)
  ultimately show ?case using Cons.prems by (simp add: rel_andThen)
qed

lemma rel_if: "(c \<Longrightarrow> rel R a) \<Longrightarrow> (\<not> c \<Longrightarrow> rel R b) \<Longrightarrow> rel R (if c then a else b)"
  by simp

lemma rel_case_prod: "(\<And>a b. rel R (f a b)) \<Longrightarrow> rel R (case p of (a, b) \<Rightarrow> f a b)"
  by (cases p) simp

lemma rel_createType: "warnRel R \<Longrightarrow> rel R (createType v)"
  by (simp add: rel_def relAt_family)

lemma rel_createTypes: "warnRel R \<Longrightarrow> rel R (createTypes vs)"
  by (simp add: rel_def relAt_family)

lemma stateRel_created: "stateRel R \<Longrightarrow> R a b \<Longrightarrow> createdTypeNames a = createdTypeNames b"
  by (simp add: stateRel_def)

lemma stateRel_refMap: "stateRel R \<Longrightarrow> R a b \<Longrightarrow> refMap a = refMap b"
  by (simp add: stateRel_def warnRel_def)

lemma stateRel_created_update:
  "stateRel R \<Longrightarrow> R a b \<Longrightarrow> R (a\<lparr>createdTypeNames := X\<rparr>) (b\<lparr>createdTypeNames := X\<rparr>)"
  by (simp add: stateRel_def)

lemma stateRel_refMap_update:
  "stateRel R \<Longrightarrow> R a b \<Longrightarrow> R (a\<lparr>refMap := M\<rparr>) (b\<lparr>refMap := M\<rparr>)"
  by (simp add: stateRel_def)

lemma rel_createTypeName: "stateRel R \<Longrightarrow> rel R (createTypeName cc v suffix)"
  unfolding rel_def relAt_def
proof (intro allI impI)
  fix st st'
  assume s: "stateRel R" and r: "R st st'"
  from stateRel_created [OF s r] stateRel_created_update [OF s r]
  show "fst (createTypeName cc v suffix st) = fst (createTypeName cc v suffix st')
    \<and> R (snd (createTypeName cc v suffix st)) (snd (createTypeName cc v suffix st'))"
    using r by (simp add: createTypeName_def Let_def)
qed

lemma rel_buildRefMap: "stateRel R \<Longrightarrow> rel R (buildRefMap cc doc)"
  unfolding rel_def relAt_def
proof (intro allI impI)
  fix st st'
  assume s: "stateRel R" and r: "R st st'"
  from stateRel_refMap [OF s r] stateRel_refMap_update [OF s r]
  show "fst (buildRefMap cc doc st) = fst (buildRefMap cc doc st')
    \<and> R (snd (buildRefMap cc doc st)) (snd (buildRefMap cc doc st'))"
    using r by (simp add: buildRefMap_def Let_def)
qed

lemmas rel_intros =
  rel_andThen rel_mapM rel_if rel_case_prod rel_ret rel_throw rel_lift rel_createType
  rel_createTypes rel_createTypeName rel_buildRefMap stateRel_warnRel

lemma rel_createTypesFromSchemas: "stateRel R \<Longrightarrow> rel R (createTypesFromSchemas cc doc)"
  unfolding createTypesFromSchemas_def Let_def by (intro rel_intros) 

lemma rel_createTypesFromParameters: "rel R (createTypesFromParameters doc)"
  unfolding createTypesFromParameters_def Let_def by (intro rel_intros)

lemma rel_createTypesFromRequestBodies:
  "stateRel R \<Longrightarrow> rel R (createTypesFromRequestBodies cc doc)"
  unfolding createTypesFromRequestBodies_def Let_def by (intro rel_intros)

lemma rel_createTypesFromResponses: "rel R (createTypesFromResponses doc)"
  unfolding createTypesFromResponses_def Let_def by (intro rel_intros)

lemma rel_parameterTypes: "stateRel R \<Longrightarrow> rel R (parameterTypes cc groups)"
  unfolding parameterTypes_def by (intro rel_intros)

lemma rel_contentTypes: "stateRel R \<Longrightarrow> rel R (contentTypes content)"
  unfolding contentTypes_def by (intro rel_intros)

lemma rel_responseTypes: "stateRel R \<Longrightarrow> rel R (responseTypes placeholder responses)"
  unfolding responseTypes_def by (intro rel_intros rel_contentTypes)

lemma rel_responseNamespace: "stateRel R \<Longrightarrow> rel R (responseNamespace cc responses)"
  unfolding responseNamespace_def by (intro rel_intros rel_responseTypes)

lemma rel_requestBodyTypes: "stateRel R \<Longrightarrow> rel R (requestBodyTypes cc requestBody)"
  unfolding requestBodyTypes_def by (intro rel_intros)

lemma rel_createOperation:
  "stateRel R \<Longrightarrow> rel R (createOperation cc opts path sharedParameters entry)"
  unfolding createOperation_def Let_def
  by (intro rel_intros rel_parameterTypes rel_responseNamespace rel_requestBodyTypes)

lemma rel_createPathItem: "stateRel R \<Longrightarrow> rel R (createPathItem cc opts entry)"
  unfolding createPathItem_def Let_def by (intro rel_intros rel_createOperation)

lemma rel_createEndpoints: "stateRel R \<Longrightarrow> rel R (createEndpoints cc opts doc)"
  unfolding createEndpoints_def by (intro rel_intros rel_createPathItem)

lemma rel_statements: "stateRel R \<Longrightarrow> rel R (statements cc opts doc)"
  unfolding statements_def
  by (intro rel_intros rel_createTypesFromSchemas rel_createTypesFromParameters
      rel_createTypesFromRequestBodies rel_createTypesFromResponses rel_createEndpoints)

lemma rel_generate: "stateRel R \<Longrightarrow> rel R (generate cc opts doc)"
  unfolding generate_def by (intro rel_intros rel_statements)

definition agree :: "state \<Rightarrow> state \<Rightarrow> bool" where
  "agree a b = (createdTypeNames a = createdTypeNames b \<and> refMap a = refMap b)"

lemma stateRel_agree: "stateRel agree"
  by (simp add: stateRel_def warnRel_def agree_def warn_def)

lemma generate_agree:
  "agree st1 st2 \<Longrightarrow> fst (generate cc opts doc st1) = fst (generate cc opts doc st2)"
  using rel_generate [OF stateRel_agree, of cc opts doc] by (simp add: rel_def relAt_def)

text \<open>
  Claim C4. Two runs of \<^verbatim>\<open>generate\<close> on the same document, each from a state with
  an empty identifier registry and an empty reference table, return the same text (or
  throw the same error), whatever warnings either run has shown before.
\<close>

theorem generate_deterministic:
  assumes "createdTypeNames st1 = {}" and "refMap st1 = Map.empty"
    and "createdTypeNames st2 = {}" and "refMap st2 = Map.empty"
  shows "fst (generate cc opts doc st1) = fst (generate cc opts doc st2)"
  using assms by (intro generate_agree) (simp add: agree_def)

definition exampleOptions :: options where
  "exampleOptions =
     \<lparr>preProcess = Inr, validate = defaultValidate, createImports = (\<lambda>doc. Inr ''import x''),
      createRequestFunction = (\<lambda>doc url. Inr ''request''),
      createEndpoint = (\<lambda>e. Inr (ep_operationName e)), baseUrl = JUndefined, format = Inr\<rparr>"

theorem generate_deterministic_witness:
  "fst (generate toString exampleOptions
          (JObj [(''openapi'', JStr ''3.0.0''), (''info'', JObj [(''title'', JStr ''t'')]),
                 (''paths'', JObj [])]) fresh)
   = fst (generate toString exampleOptions
          (JObj [(''openapi'', JStr ''3.0.0''), (''info'', JObj [(''title'', JStr ''t'')]),
                 (''paths'', JObj [])])
          (fresh\<lparr>shownWarnings := {''deprecated''}, console := [''deprecated'']\<rparr>))"
  using generate_deterministic [of fresh "fresh\<lparr>shownWarnings := {''deprecated''}, console := [''deprecated'']\<rparr>"
      toString exampleOptions]
  by (simp add: fresh_def)

section \<open>The order of the compiler's cases\<close>

text \<open>
  Claim C3, as the code has it. The cases of \<^verbatim>\<open>createType\<close> apply in the order
  \<^verbatim>\<open>$ref\<close>, \<^verbatim>\<open>allOf\<close>, \<^verbatim>\<open>anyOf\<close>, \<^verbatim>\<open>not\<close>, \<^verbatim>\<open>oneOf\<close>, \<^verbatim>\<open>discriminator\<close>.
  A schema with an \<^verbatim>\<open>anyOf\<close> list compiles to the union of its members whatever its
  \<^verbatim>\<open>not\<close> and \<^verbatim>\<open>discriminator\<close> keywords; a schema with a \<^verbatim>\<open>oneOf\<close> list does
  so whatever its \<^verbatim>\<open>discriminator\<close>, as long as it has no \<^verbatim>\<open>not\<close>. The
  \<^verbatim>\<open>not\<close> error is thrown when none of \<^verbatim>\<open>$ref\<close>, \<^verbatim>\<open>allOf\<close>, \<^verbatim>\<open>anyOf\<close> applies,
  also when \<^verbatim>\<open>oneOf\<close> is there; the \<^verbatim>\<open>discriminator\<close> error when none of the five
  other cases applies.
\<close>

theorem createType_decision_order:
  assumes "\<not> nullish schema"
  shows "(isRef schema \<longrightarrow> createType schema st = (getTypeNameFromRef schema st, st))
    \<and> (\<not> isRef schema \<and> get schema ''allOf'' = JArr members \<longrightarrow>
         createType schema st = mapRes (join '' & '') (createTypes members st))
    \<and> (\<not> isRef schema \<and> \<not> truthy (get schema ''allOf'') \<and> get schema ''anyOf'' = JArr members \<longrightarrow>
         createType schema st = mapRes (join '' | '') (createTypes members st))
    \<and> (\<not> isRef schema \<and> \<not> truthy (get schema ''allOf'') \<and> \<not> truthy (get schema ''anyOf'')
         \<and> truthy (get schema ''not'') \<longrightarrow>
         createType schema st =
           (Inl (NotYetImplemented ''\"not\" keyword not yet implemented.''), st))
    \<and> (\<not> isRef schema \<and> \<not> truthy (get schema ''allOf'') \<and> \<not> truthy (get schema ''anyOf'')
         \<and> \<not> truthy (get schema ''not'') \<and> get schema ''oneOf'' = JArr members \<longrightarrow>
         createType schema st = mapRes (join '' | '') (createTypes members st))
    \<and> (\<not> isRef schema \<and> \<not> truthy (get schema ''allOf'') \<and> \<not> truthy (get schema ''anyOf'')
         \<and> \<not> truthy (get schema ''not'') \<and> \<not> truthy (get schema ''oneOf'')
         \<and> truthy (get schema ''discriminator'') \<longrightarrow>
         createType schema st =
           (Inl (NotYetImplemented ''\"discriminator\" keyword not yet implemented.''), st))"
  using assms by (simp add: createType_fun)

theorem createType_decision_order_witness:
  "createType
     (JObj [(''anyOf'', JArr [JObj [(''type'', JStr ''string'')], JObj [(''type'', JStr ''number'')]]),
            (''not'', JObj []), (''discriminator'', JObj [])]) fresh
   = (Inr ''string | number'', fresh)
   \<and> createType
     (JObj [(''oneOf'', JArr [JObj [(''type'', JStr ''string'')], JObj [(''type'', JStr ''number'')]]),
            (''discriminator'', JObj [])]) fresh
   = (Inr ''string | number'', fresh)"
  using createType_decision_order
    [of "JObj [(''anyOf'', JArr [JObj [(''type'', JStr ''string'')], JObj [(''type'', JStr ''number'')]]),
            (''not'', JObj []), (''discriminator'', JObj [])]"
        fresh "[JObj [(''type'', JStr ''string'')], JObj [(''type'', JStr ''number'')]]"]
    createType_decision_order
    [of "JObj [(''oneOf'', JArr [JObj [(''type'', JStr ''string'')], JObj [(''type'', JStr ''number'')]]),
            (''discriminator'', JObj [])]"
        fresh "[JObj [(''type'', JStr ''string'')], JObj [(''type'', JStr ''number'')]]"]
  by (simp add: compile_simps)

theorem oneOf_with_not_counterexample:
  "createType
     (JObj [(''oneOf'', JArr [JObj [(''type'', JStr ''string'')], JObj [(''type'', JStr ''number'')]]),
            (''not'', JObj [(''type'', JStr ''boolean'')])]) fresh
   = (Inl (NotYetImplemented ''\"not\" keyword not yet implemented.''), fresh)
   \<and> createType
     (JObj [(''oneOf'', JArr [JObj [(''type'', JStr ''string'')], JObj [(''type'', JStr ''number'')]]),
            (''not'', JObj [(''type'', JStr ''boolean'')])]) fresh
   \<noteq> mapRes (join '' | '')
       (createTypes [JObj [(''type'', JStr ''string'')], JObj [(''type'', JStr ''number'')]] fresh)"
  by (simp add: compile_simps)

text \<open>What only warns keeps every property of the state that \<^verbatim>\<open>warn\<close> keeps.\<close>

lemma createType_keeps:
  assumes "\<And>k s. P s \<Longrightarrow> P (warn k s)" and "P st"
  shows "P (snd (createType v st))"
proof -
  have "warnRel (\<lambda>a b. a = b \<and> P a)"
    using assms(1) by (simp add: warnRel_def)
  from relAt_family(1) [OF this, of v st] assms(2) show ?thesis
    by (simp add: relAt_def)
qed

lemma agree_warn: "agree st a \<Longrightarrow> agree st (warn k a)"
  by (simp add: agree_def warn_def)

lemma agree_refl: "agree st st"
  by (simp add: agree_def)

lemma agree_trans: "agree a b \<Longrightarrow> agree b c \<Longrightarrow> agree a c"
  by (simp add: agree_def)

lemma agree_createType: "agree st (snd (createType v st))"
  by (rule createType_keeps [where P = "agree st"]) (simp_all add: agree_warn agree_refl)

lemma createType_agree: "agree a b \<Longrightarrow> fst (createType v a) = fst (createType v b)"
  using relAt_family(1) [OF stateRel_warnRel [OF stateRel_agree], of v a]
  by (simp add: relAt_def)

lemma agree_schemaWarnings: "agree st (schemaWarnings schema st)"
  by (simp add: schemaWarnings_def Let_def agree_warn agree_refl)

lemma agree_propertyWarnings: "agree st (propertyWarnings schema st)"
  by (simp add: propertyWarnings_def Let_def agree_warn agree_refl)

section \<open>Required and optional members\<close>

text \<open>The member of one declared property, given the type its schema compiled to.\<close>

definition memberText :: "string \<Rightarrow> bool \<Rightarrow> string \<Rightarrow> string" where
  "memberText name required t = ''\"'' @ name @ ''\"'' @ (if required then [] else ''?'') @ '': '' @ t"

text \<open>
  The members the specification asks for: one for each declared property, typed by its
  compiled schema, required if and only if its name is in the required-name list.
\<close>

definition members :: "state \<Rightarrow> jsval list \<Rightarrow> (string \<times> jsval) list \<Rightarrow> string list" where
  "members st req props =
     map (\<lambda>(name, s). memberText name (JStr name \<in> set req) (projr (fst (createType s st)))) props"

definition allCompile :: "state \<Rightarrow> (string \<times> jsval) list \<Rightarrow> bool" where
  "allCompile st props = list_all (\<lambda>(name, s). \<not> isl (fst (createType s st))) props"

lemma createObjectTypeProperty_member:
  assumes "createObjectTypeProperty name s required st = (Inr p, st')"
  shows "\<not> isl (fst (createType s st)) \<and> p = memberText name required (projr (fst (createType s st)))
    \<and> agree st st'"
proof -
  let ?st1 = "propertyWarnings s st"
  from assms have n: "\<not> nullish s"
    by (auto simp: createObjectTypeProperty_fun)
  obtain r y where c: "createType s ?st1 = (r, y)" by (cases "createType s ?st1")
  from assms n c obtain t where r: "r = Inr t" and p: "p = memberText name required t" and y: "st' = y"
    by (cases r) (auto simp: createObjectTypeProperty_fun mapRes_def memberText_def)
  have "fst (createType s st) = fst (createType s ?st1)"
    by (rule createType_agree) (rule agree_propertyWarnings)
  with c r have 1: "fst (createType s st) = Inr t" by simp
  have "agree ?st1 (snd (createType s ?st1))" by (rule agree_createType)
  with c y have "agree st st'"
    using agree_propertyWarnings [of st s] by (auto intro: agree_trans)
  with 1 p show ?thesis by simp
qed

lemma createObjectTypeProperties_members:
  "createObjectTypeProperties props req st = (Inr ms, st')
   \<Longrightarrow> ms = members st req props \<and> allCompile st props \<and> agree st st'"
proof (induction props arbitrary: st ms st')
  case Nil
  then show ?case
    by (simp add: createObjectTypeProperties.simps members_def allCompile_def agree_refl)
next
  case (Cons a props)
  obtain name s where a: "a = (name, s)" by (cases a)
  let ?req = "JStr name \<in> set req"
  obtain r y where h: "createObjectTypeProperty name s ?req st = (r, y)"
    by (cases "createObjectTypeProperty name s ?req st")
  from Cons.prems a h obtain p where r: "r = Inr p"
    by (cases r) (auto simp: createObjectTypeProperties.simps)
  obtain r2 y2 where t: "createObjectTypeProperties props req y = (r2, y2)"
    by (cases "createObjectTypeProperties props req y")
  from Cons.prems a h r t obtain ps where r2: "r2 = Inr ps" and ms: "ms = p # ps" and y2: "st' = y2"
    by (cases r2) (auto simp: createObjectTypeProperties.simps mapRes_def)
  from createObjectTypeProperty_member [OF h [unfolded r]]
  have 1: "\<not> isl (fst (createType s st))"
    and 2: "p = memberText name ?req (projr (fst (createType s st)))"
    and 3: "agree st y" by simp_all
  from Cons.IH [OF t [unfolded r2]]
  have 4: "ps = members y req props" and 5: "allCompile y props" and 6: "agree y y2" by simp_all
  have same: "fst (createType v y) = fst (createType v st)" for v
    by (rule createType_agree [symmetric]) (rule 3)
  have "members y req props = members st req props"
    by (simp add: members_def same)
  moreover have "allCompile y props = allCompile st props"
    by (simp add: allCompile_def same)
  ultimately show ?case
    using 1 2 3 4 5 6 a ms y2
    by (auto simp: members_def allCompile_def intro: agree_trans)
qed

text \<open>
  Claim C7. An object schema with declared properties compiles to an object type with
  one member for each declared property, in order; the member is written as required
  (no question mark) if and only if its name is in the schema's required-name list,
  and with no required list every member is optional. An index signature follows the
  members only when \<^verbatim>\<open>additionalProperties\<close> is set.
\<close>

theorem required_iff_listed:
  assumes "compilesAsObject schema"
    and "get schema ''properties'' = JObj props" and "props \<noteq> []"
    and "newSet (get schema ''required'') = Inr req"
    and "createType schema st = (Inr text, st')"
  shows "\<exists>extra.
     text = maybeNullable schema
              (''{'' @ newline @ join '','' (members st req props @ extra) @ newline @ ''}'')
     \<and> allCompile st props
     \<and> (get schema ''additionalProperties'' = JUndefined \<longrightarrow> extra = [])
     \<and> (get schema ''required'' = JUndefined \<longrightarrow>
          members st req props =
            map (\<lambda>(name, s). memberText name False (projr (fst (createType s st)))) props)
     \<and> (\<forall>name t. memberText name True t = ''\"'' @ name @ ''\": '' @ t
           \<and> memberText name False t = ''\"'' @ name @ ''\"?: '' @ t)"
proof -
  let ?st1 = "schemaWarnings schema st"
  have a1: "agree st ?st1" by (rule agree_schemaWarnings)
  from assms(1,5) have c: "createObjectType schema ?st1 = (Inr text, st')"
    by (simp add: createType_object)
  from assms(2,4) have d: "declaredProperties schema ?st1 = createObjectTypeProperties props req ?st1"
    by (simp add: declaredProperties_def)
  obtain r y where p: "createObjectTypeProperties props req ?st1 = (r, y)"
    by (cases "createObjectTypeProperties props req ?st1")
  from c d p obtain ms where r: "r = Inr ms" and f: "finishObjectType schema ms y = (Inr text, st')"
    by (cases r) (auto simp: createObjectType_fun)
  from createObjectTypeProperties_members [OF p [unfolded r]]
  have 1: "ms = members ?st1 req props" and 2: "allCompile ?st1 props" by simp_all
  have same: "fst (createType v ?st1) = fst (createType v st)" for v
    by (rule createType_agree [symmetric]) (rule a1)
  have 3: "ms = members st req props" using 1 by (simp add: members_def same)
  have 4: "allCompile st props" using 2 by (simp add: allCompile_def same)
  from 3 assms(3) have ne: "ms \<noteq> []" by (simp add: members_def)
  have 5: "\<exists>extra. text = maybeNullable schema
              (''{'' @ newline @ join '','' (ms @ extra) @ newline @ ''}'')
     \<and> (get schema ''additionalProperties'' = JUndefined \<longrightarrow> extra = [])"
    using f ne
    by (auto simp: finishObjectType_def Let_def mapRes_def split: if_splits prod.splits sum.splits)
  have 6: "get schema ''required'' = JUndefined \<longrightarrow> req = []"
    using assms(4) by (auto simp: newSet_def)
  have 7: "members st [] props =
      map (\<lambda>(name, s). memberText name False (projr (fst (createType s st)))) props"
    by (simp add: members_def)
  from 3 4 5 6 7 show ?thesis by (auto simp: memberText_def)
qed

definition petSchema :: jsval where
  "petSchema =
     JObj [(''type'', JStr ''object''),
           (''properties'',
            JObj [(''id'', JObj [(''type'', JStr ''integer'')]),
                  (''name'', JObj [(''type'', JStr ''string'')])]),
           (''required'', JArr [JStr ''id''])]"

theorem required_iff_listed_witness:
  "createType petSchema fresh
     = (Inr (''{'' @ newline @ ''\"id\": number,\"name\"?: string'' @ newline @ ''}''), fresh)
   \<and> members fresh [JStr ''id'']
        [(''id'', JObj [(''type'', JStr ''integer'')]), (''name'', JObj [(''type'', JStr ''string'')])]
     = [''\"id\": number'', ''\"name\"?: string'']
   \<and> (\<exists>extra.
        ''{'' @ newline @ ''\"id\": number,\"name\"?: string'' @ newline @ ''}''
        = maybeNullable petSchema
            (''{'' @ newline
             @ join '',''
                 (members fresh [JStr ''id'']
                    [(''id'', JObj [(''type'', JStr ''integer'')]),
                     (''name'', JObj [(''type'', JStr ''string'')])] @ extra)
             @ newline @ ''}'')
        \<and> extra = [])"
proof -
  have c: "createType petSchema fresh
     = (Inr (''{'' @ newline @ ''\"id\": number,\"name\"?: string'' @ newline @ ''}''), fresh)"
    by (simp add: petSchema_def compile_simps)
  have m: "members fresh [JStr ''id'']
        [(''id'', JObj [(''type'', JStr ''integer'')]), (''name'', JObj [(''type'', JStr ''string'')])]
     = [''\"id\": number'', ''\"name\"?: string'']"
    by (simp add: members_def memberText_def compile_simps)
  have h1: "compilesAsObject petSchema"
    by (simp add: petSchema_def compilesAsObject_def isRef_def)
  have h2: "get petSchema ''properties''
      = JObj [(''id'', JObj [(''type'', JStr ''integer'')]), (''name'', JObj [(''type'', JStr ''string'')])]"
    by (simp add: petSchema_def)
  have h3: "newSet (get petSchema ''required'') = Inr [JStr ''id'']"
    by (simp add: petSchema_def newSet_def)
  have h4: "get petSchema ''additionalProperties'' = JUndefined"
    by (simp add: petSchema_def)
  from required_iff_listed [OF h1 h2 _ h3 c] h4 c m show ?thesis
    by auto
qed

section \<open>Ignored keywords and their warnings\<close>

lemma snd_mapRes: "snd (mapRes f r) = snd r"
  by (auto simp: mapRes_def split: prod.splits sum.splits)

lemma family_agree:
  assumes "agree a b"
  shows "fst (createArrayType v a) = fst (createArrayType v b)"
    and "fst (createObjectType v a) = fst (createObjectType v b)"
  using relAt_family(3,4) [OF stateRel_warnRel [OF stateRel_agree], of v a] assms
  by (simp_all add: relAt_def)

lemma family_keeps:
  assumes "\<And>k s. P s \<Longrightarrow> P (warn k s)" and "P st"
  shows "P (snd (createArrayType v st))" and "P (snd (createObjectType v st))"
proof -
  have "warnRel (\<lambda>a b. a = b \<and> P a)"
    using assms(1) by (simp add: warnRel_def)
  from relAt_family(3,4) [OF this, of v st] assms(2)
  show "P (snd (createArrayType v st))" and "P (snd (createObjectType v st))"
    by (simp_all add: relAt_def)
qed

text \<open>The keys of a schema node that decide the type it compiles to.\<close>

definition readKeys :: "string list" where
  "readKeys =
     [''$ref'', ''allOf'', ''anyOf'', ''not'', ''oneOf'', ''discriminator'', ''type'', ''enum'',
      ''nullable'', ''format'', ''items'', ''properties'', ''required'', ''additionalProperties'']"

definition sameRead :: "jsval \<Rightarrow> jsval \<Rightarrow> bool" where
  "sameRead s' s = (nullish s' = nullish s \<and> list_all (\<lambda>k. get s' k = get s k) readKeys)"

lemma sameRead_parts:
  assumes "sameRead s' s"
  shows "isRef s' = isRef s"
    and "getTypeNameFromRef s' = getTypeNameFromRef s"
    and "createScalarType s' = createScalarType s"
    and "createArrayType s' = createArrayType s"
    and "createObjectType s' = createObjectType s"
proof -
  from assms have g [simp]:
    "get s' ''$ref'' = get s ''$ref''" "get s' ''type'' = get s ''type''"
    "get s' ''enum'' = get s ''enum''" "get s' ''nullable'' = get s ''nullable''"
    "get s' ''format'' = get s ''format''" "get s' ''items'' = get s ''items''"
    "get s' ''properties'' = get s ''properties''" "get s' ''required'' = get s ''required''"
    "get s' ''additionalProperties'' = get s ''additionalProperties''"
    by (simp_all add: sameRead_def readKeys_def)
  show "isRef s' = isRef s" by (simp add: isRef_def)
  show "getTypeNameFromRef s' = getTypeNameFromRef s"
    by (rule ext) (simp add: getTypeNameFromRef_def)
  have n [simp]: "maybeNullable s' = maybeNullable s"
    by (rule ext) (simp add: maybeNullable_def)
  have e: "createEnumType s' = createEnumType s"
    unfolding createEnumType_def g ..
  have f: "formatted s' = formatted s"
    by (rule ext) (simp add: formatted_def)
  show "createScalarType s' = createScalarType s"
    unfolding createScalarType_def e f n g ..
  show "createArrayType s' = createArrayType s"
    by (simp add: createArrayType_fun)
  have d: "declaredProperties s' = declaredProperties s"
    unfolding declaredProperties_def g ..
  have fin: "finishObjectType s' = finishObjectType s"
    unfolding finishObjectType_def n g ..
  show "createObjectType s' = createObjectType s"
    unfolding createObjectType_fun d fin ..
qed

lemma sameRead_createType:
  assumes "sameRead s' s"
  shows "fst (createType s' st) = fst (createType s st)"
proof -
  from assms have g [simp]:
    "nullish s' = nullish s"
    "get s' ''allOf'' = get s ''allOf''" "get s' ''anyOf'' = get s ''anyOf''"
    "get s' ''not'' = get s ''not''" "get s' ''oneOf'' = get s ''oneOf''"
    "get s' ''discriminator'' = get s ''discriminator''" "get s' ''type'' = get s ''type''"
    by (simp_all add: sameRead_def readKeys_def)
  note p = sameRead_parts [OF assms]
  have a: "agree (schemaWarnings s' st) (schemaWarnings s st)"
    using agree_schemaWarnings [of st s'] agree_schemaWarnings [of st s]
    by (simp add: agree_def)
  show ?thesis
    by (simp add: createType_fun [of s'] createType_fun [of s] p family_agree [OF a])
qed

lemma sameRead_createObjectTypeProperty:
  assumes "sameRead s' s"
  shows "fst (createObjectTypeProperty name s' required st)
       = fst (createObjectTypeProperty name s required st)"
proof -
  from assms have n: "nullish s' = nullish s" by (simp add: sameRead_def)
  have a: "agree (propertyWarnings s' st) (propertyWarnings s st)"
    using agree_propertyWarnings [of st s'] agree_propertyWarnings [of st s]
    by (simp add: agree_def)
  have "fst (createType s' (propertyWarnings s' st)) = fst (createType s (propertyWarnings s' st))"
    by (rule sameRead_createType [OF assms])
  also have "\<dots> = fst (createType s (propertyWarnings s st))"
    by (rule createType_agree [OF a])
  finally have "fst (mapRes f (createType s' (propertyWarnings s' st)))
      = fst (mapRes f (createType s (propertyWarnings s st)))" for f :: "string \<Rightarrow> string"
    by (cases "createType s' (propertyWarnings s' st)"; cases "createType s (propertyWarnings s st)")
       (auto simp: mapRes_def split: sum.splits)
  then show ?thesis
    by (simp add: createObjectTypeProperty_fun n)
qed

definition ignoredKeywords :: "string list" where
  "ignoredKeywords = [''deprecated'', ''default'', ''readOnly'', ''writeOnly'', ''xml'']"

text \<open>The schema object without one of its keys.\<close>

definition removeKey :: "string \<Rightarrow> (string \<times> jsval) list \<Rightarrow> (string \<times> jsval) list" where
  "removeKey k kvs = filter (\<lambda>p. fst p \<noteq> k) kvs"

lemma map_of_removeKey: "map_of (removeKey k kvs) k' = (if k' = k then None else map_of kvs k')"
  by (induction kvs) (auto simp: removeKey_def)

lemma sameRead_removeKey:
  "k \<in> set ignoredKeywords \<Longrightarrow> sameRead (JObj (removeKey k kvs)) (JObj kvs)"
proof -
  assume "k \<in> set ignoredKeywords"
  then consider "k = ''deprecated''" | "k = ''default''" | "k = ''readOnly''" | "k = ''writeOnly''"
    | "k = ''xml''"
    by (auto simp: ignoredKeywords_def)
  then show ?thesis
    by cases (simp_all add: sameRead_def readKeys_def map_of_removeKey)
qed

text \<open>Every key logged was logged once, and the keys logged are the keys marked as shown.\<close>

definition warnedOnce :: "state \<Rightarrow> bool" where
  "warnedOnce st = (distinct (console st) \<and> set (console st) = shownWarnings st)"

lemma warnedOnce_warn: "warnedOnce st \<Longrightarrow> warnedOnce (warn k st)"
  by (auto simp: warnedOnce_def warn_def)

lemma stateRel_warnedOnce: "stateRel (\<lambda>a b. a = b \<and> warnedOnce a)"
  by (auto simp: stateRel_def warnRel_def warnedOnce_warn) (simp_all add: warnedOnce_def)

lemma generate_warnedOnce: "warnedOnce st \<Longrightarrow> warnedOnce (snd (generate cc opts doc st))"
  using rel_generate [OF stateRel_warnedOnce, of cc opts doc] by (simp add: rel_def relAt_def)

definition reachesWarnings :: "jsval \<Rightarrow> bool" where
  "reachesWarnings schema =
     (\<not> nullish schema \<and> \<not> isRef schema \<and> \<not> truthy (get schema ''allOf'')
      \<and> \<not> truthy (get schema ''anyOf'') \<and> \<not> truthy (get schema ''not'')
      \<and> \<not> truthy (get schema ''oneOf'') \<and> \<not> truthy (get schema ''discriminator''))"

lemma logged_warn: "k \<in> set (console st) \<Longrightarrow> k \<in> set (console (warn k' st))"
  by (simp add: warn_def)

lemma warn_logged: "warnedOnce st \<Longrightarrow> k \<in> set (console (warn k st))"
  by (auto simp: warn_def warnedOnce_def)

lemma schemaWarnings_logged:
  assumes "warnedOnce st" and "truthy (get schema k)" and "k = ''deprecated'' \<or> k = ''default''"
  shows "k \<in> set (console (schemaWarnings schema st))"
  using assms
  by (auto simp: schemaWarnings_def Let_def warn_logged warnedOnce_warn logged_warn)

lemma propertyWarnings_logged:
  assumes "warnedOnce st" and "truthy (get schema k)"
    and "k = ''readOnly'' \<or> k = ''writeOnly'' \<or> k = ''xml''"
  shows "k \<in> set (console (propertyWarnings schema st))"
  using assms
  by (auto simp: propertyWarnings_def Let_def warn_logged warnedOnce_warn logged_warn)

lemma createType_logged:
  assumes "reachesWarnings schema" and "k \<in> set (console (schemaWarnings schema st))"
  shows "k \<in> set (console (snd (createType schema st)))"
proof -
  let ?P = "\<lambda>s. k \<in> set (console s)"
  note keep = family_keeps [where P = ?P, OF logged_warn assms(2)]
  from assms(1) show ?thesis
    using keep [of schema] assms(2)
    by (simp add: createType_fun reachesWarnings_def)
qed

lemma createObjectTypeProperty_logged:
  assumes "\<not> nullish schema" and "k \<in> set (console (propertyWarnings schema st))"
  shows "k \<in> set (console (snd (createObjectTypeProperty name schema required st)))"
proof -
  have "k \<in> set (console (snd (createType schema (propertyWarnings schema st))))"
    by (rule createType_keeps [where P = "\<lambda>s. k \<in> set (console s)"])
       (simp_all add: logged_warn assms(2))
  with assms(1) show ?thesis by (simp add: createObjectTypeProperty_fun snd_mapRes)
qed

lemma createType_warnedOnce: "warnedOnce st \<Longrightarrow> warnedOnce (snd (createType v st))"
  by (rule createType_keeps [where P = warnedOnce]) (simp_all add: warnedOnce_warn)

text \<open>
  Two nodes that agree on the keys read compile alike, result and state, when they show
  the same warnings or when one of the cases before the warnings returns.
\<close>

lemma sameRead_createType_eq:
  assumes "sameRead s' s"
    and "\<not> reachesWarnings s \<or> schemaWarnings s' st = schemaWarnings s st"
  shows "createType s' st = createType s st"
proof -
  from assms(1) have g [simp]:
    "nullish s' = nullish s"
    "get s' ''allOf'' = get s ''allOf''" "get s' ''anyOf'' = get s ''anyOf''"
    "get s' ''not'' = get s ''not''" "get s' ''oneOf'' = get s ''oneOf''"
    "get s' ''discriminator'' = get s ''discriminator''" "get s' ''type'' = get s ''type''"
    by (simp_all add: sameRead_def readKeys_def)
  note p = sameRead_parts [OF assms(1)]
  from assms(2) show ?thesis
    by (auto simp add: createType_fun [of s'] createType_fun [of s] p reachesWarnings_def)
qed

lemma schemaWarnings_removeKey:
  assumes "k \<in> set ignoredKeywords"
    and "\<not> truthy (get (JObj kvs) k) \<or> k = ''readOnly'' \<or> k = ''writeOnly'' \<or> k = ''xml''"
  shows "schemaWarnings (JObj (removeKey k kvs)) st = schemaWarnings (JObj kvs) st"
proof -
  from assms(1) consider "k = ''deprecated''" | "k = ''default''" | "k = ''readOnly''"
    | "k = ''writeOnly''" | "k = ''xml''"
    by (auto simp: ignoredKeywords_def)
  then show ?thesis
    using assms(2)
    by cases (auto simp add: schemaWarnings_def Let_def map_of_removeKey split: option.splits)
qed

lemma propertyWarnings_removeKey:
  assumes "k \<in> set ignoredKeywords"
    and "\<not> truthy (get (JObj kvs) k) \<or> k = ''deprecated'' \<or> k = ''default''"
  shows "propertyWarnings (JObj (removeKey k kvs)) st = propertyWarnings (JObj kvs) st"
proof -
  from assms(1) consider "k = ''deprecated''" | "k = ''default''" | "k = ''readOnly''"
    | "k = ''writeOnly''" | "k = ''xml''"
    by (auto simp: ignoredKeywords_def)
  then show ?thesis
    using assms(2)
    by cases (auto simp add: propertyWarnings_def Let_def map_of_removeKey split: option.splits)
qed

lemma createObjectTypeProperty_eq:
  assumes "\<And>st. createType s' st = createType s st"
    and "propertyWarnings s' st = propertyWarnings s st" and "nullish s' = nullish s"
  shows "createObjectTypeProperty name s' required st = createObjectTypeProperty name s required st"
  using assms by (simp add: createObjectTypeProperty_fun)

text \<open>
  Claim C9, as the code has it. Removing one of the keywords \<^verbatim>\<open>deprecated\<close>,
  \<^verbatim>\<open>default\<close>, \<^verbatim>\<open>readOnly\<close>, \<^verbatim>\<open>writeOnly\<close>, \<^verbatim>\<open>xml\<close> from a schema node
  does not change the type the node compiles to, as a schema or as an object property.
  No key is logged twice, in a compilation or in a whole run. A truthy
  \<^verbatim>\<open>deprecated\<close> or \<^verbatim>\<open>default\<close> is logged when the node is not a reference, a
  composition or an unsupported node; a truthy \<^verbatim>\<open>readOnly\<close>, \<^verbatim>\<open>writeOnly\<close> or
  \<^verbatim>\<open>xml\<close> is logged when the node is compiled as an object property. In any other
  place the keyword changes neither the result nor the state, so nothing is logged for
  it: when its value is falsy, when it is \<^verbatim>\<open>deprecated\<close> or \<^verbatim>\<open>default\<close> on a node
  where one of the earlier cases returns, and when it is \<^verbatim>\<open>readOnly\<close>,
  \<^verbatim>\<open>writeOnly\<close> or \<^verbatim>\<open>xml\<close> on a node compiled as a schema. A keyword inside an
  \<^verbatim>\<open>additionalProperties\<close> schema does change what the enclosing schema compiles
  to, which tests that schema for having no keys.
\<close>

theorem ignored_keywords:
  assumes "k \<in> set ignoredKeywords" and "warnedOnce st"
  shows "fst (createType (JObj (removeKey k kvs)) st) = fst (createType (JObj kvs) st)
    \<and> fst (createObjectTypeProperty name (JObj (removeKey k kvs)) required st)
        = fst (createObjectTypeProperty name (JObj kvs) required st)
    \<and> distinct (console (snd (createType (JObj kvs) st)))
    \<and> distinct (console (snd (generate cc opts doc st)))
    \<and> ((k = ''deprecated'' \<or> k = ''default'') \<and> reachesWarnings (JObj kvs)
         \<and> truthy (get (JObj kvs) k)
        \<longrightarrow> k \<in> set (console (snd (createType (JObj kvs) st))))
    \<and> ((k = ''readOnly'' \<or> k = ''writeOnly'' \<or> k = ''xml'') \<and> truthy (get (JObj kvs) k)
        \<longrightarrow> k \<in> set (console (snd (createObjectTypeProperty name (JObj kvs) required st))))
    \<and> (\<not> truthy (get (JObj kvs) k) \<longrightarrow>
        createType (JObj (removeKey k kvs)) st = createType (JObj kvs) st
        \<and> createObjectTypeProperty name (JObj (removeKey k kvs)) required st
          = createObjectTypeProperty name (JObj kvs) required st)
    \<and> ((k = ''deprecated'' \<or> k = ''default'') \<and> \<not> reachesWarnings (JObj kvs) \<longrightarrow>
        createType (JObj (removeKey k kvs)) st = createType (JObj kvs) st
        \<and> createObjectTypeProperty name (JObj (removeKey k kvs)) required st
          = createObjectTypeProperty name (JObj kvs) required st)
    \<and> (k = ''readOnly'' \<or> k = ''writeOnly'' \<or> k = ''xml'' \<longrightarrow>
        createType (JObj (removeKey k kvs)) st = createType (JObj kvs) st)
    \<and> fst (createType (JObj [(''type'', JStr ''object''),
                   (''additionalProperties'', JObj [(k, v)])]) st)
        = Inl (UnknownScalarType JUndefined)
    \<and> fst (createType (JObj [(''type'', JStr ''object''),
                   (''additionalProperties'', JObj (removeKey k [(k, v)]))]) st)
        = Inr ''Record<string, unknown>''"
proof -
  note same = sameRead_removeKey [OF assms(1), of kvs]
  have 1: "fst (createType (JObj (removeKey k kvs)) st) = fst (createType (JObj kvs) st)"
    by (rule sameRead_createType [OF same])
  have 2: "fst (createObjectTypeProperty name (JObj (removeKey k kvs)) required st)
        = fst (createObjectTypeProperty name (JObj kvs) required st)"
    by (rule sameRead_createObjectTypeProperty [OF same])
  have 3: "distinct (console (snd (createType (JObj kvs) st)))"
    using createType_warnedOnce [OF assms(2), of "JObj kvs"] by (simp add: warnedOnce_def)
  have 4: "distinct (console (snd (generate cc opts doc st)))"
    using generate_warnedOnce [OF assms(2), of cc opts doc] by (simp add: warnedOnce_def)
  have 5: "k \<in> set (console (snd (createType (JObj kvs) st)))"
    if "k = ''deprecated'' \<or> k = ''default''" "reachesWarnings (JObj kvs)" "truthy (get (JObj kvs) k)"
    by (rule createType_logged [OF that(2)]) (rule schemaWarnings_logged [OF assms(2) that(3) that(1)])
  have 6: "k \<in> set (console (snd (createObjectTypeProperty name (JObj kvs) required st)))"
    if "k = ''readOnly'' \<or> k = ''writeOnly'' \<or> k = ''xml''" "truthy (get (JObj kvs) k)"
    by (rule createObjectTypeProperty_logged)
       (simp, rule propertyWarnings_logged [OF assms(2) that(2) that(1)])
  have 7: "createType (JObj (removeKey k kvs)) s = createType (JObj kvs) s"
    if "\<not> truthy (get (JObj kvs) k)" for s
    by (rule sameRead_createType_eq [OF same])
       (simp add: schemaWarnings_removeKey [OF assms(1) disjI1, OF that])
  have 8: "createObjectTypeProperty name (JObj (removeKey k kvs)) required st
          = createObjectTypeProperty name (JObj kvs) required st"
    if "\<not> truthy (get (JObj kvs) k)"
    by (rule createObjectTypeProperty_eq)
       (simp_all add: 7 [OF that] propertyWarnings_removeKey [OF assms(1) disjI1, OF that])
  have 9: "createType (JObj (removeKey k kvs)) s = createType (JObj kvs) s"
    if "\<not> reachesWarnings (JObj kvs)" for s
    by (rule sameRead_createType_eq [OF same]) (simp add: that)
  have 10: "createObjectTypeProperty name (JObj (removeKey k kvs)) required st
          = createObjectTypeProperty name (JObj kvs) required st"
    if "k = ''deprecated'' \<or> k = ''default''" "\<not> reachesWarnings (JObj kvs)"
    by (rule createObjectTypeProperty_eq)
       (simp_all add: 9 [OF that(2)] propertyWarnings_removeKey [OF assms(1) disjI2, OF that(1)])
  have 11: "createType (JObj (removeKey k kvs)) st = createType (JObj kvs) st"
    if "k = ''readOnly'' \<or> k = ''writeOnly'' \<or> k = ''xml''"
    by (rule sameRead_createType_eq [OF same])
       (simp add: schemaWarnings_removeKey [OF assms(1) disjI2, OF that])
  from assms(1) consider "k = ''deprecated''" | "k = ''default''" | "k = ''readOnly''"
    | "k = ''writeOnly''" | "k = ''xml''"
    by (auto simp: ignoredKeywords_def)
  then have 12: "fst (createType (JObj [(''type'', JStr ''object''),
                   (''additionalProperties'', JObj [(k, v)])]) st)
        = Inl (UnknownScalarType JUndefined)
    \<and> fst (createType (JObj [(''type'', JStr ''object''),
                   (''additionalProperties'', JObj (removeKey k [(k, v)]))]) st)
        = Inr ''Record<string, unknown>''"
    by cases (simp_all add: compile_simps removeKey_def)
  from 12 have 13: "fst (createType (JObj [(''type'', JStr ''object''),
                   (''additionalProperties'', JObj [(k, v)])]) st)
        = Inl (UnknownScalarType JUndefined)"
    and 14: "fst (createType (JObj [(''type'', JStr ''object''),
                   (''additionalProperties'', JObj (removeKey k [(k, v)]))]) st)
        = Inr ''Record<string, unknown>''"
    by simp_all
  show ?thesis
    by (intro conjI impI; (elim conjE)?;
        ((rule 1 2 3 4 13 14) | (rule 5 6 7 8 9 10 11; assumption)))
qed

theorem ignored_keywords_witness:
  "fst (createType (JObj [(''type'', JStr ''string'')]) fresh)
     = fst (createType (JObj [(''type'', JStr ''string''), (''deprecated'', JBool True)]) fresh)
   \<and> console (snd (createType (JObj [(''type'', JStr ''string''), (''deprecated'', JBool True)]) fresh))
     = [''deprecated'']
   \<and> ''deprecated''
     \<in> set (console (snd (createType (JObj [(''type'', JStr ''string''), (''deprecated'', JBool True)])
                             fresh)))
   \<and> createType (JObj [(''type'', JStr ''string'')]) fresh
     = createType (JObj [(''type'', JStr ''string''), (''deprecated'', JBool False)]) fresh"
proof -
  have h1: "''deprecated'' \<in> set ignoredKeywords" by (simp add: ignoredKeywords_def)
  have h2: "warnedOnce fresh" by (simp add: warnedOnce_def fresh_def)
  have h3: "reachesWarnings (JObj [(''type'', JStr ''string''), (''deprecated'', JBool True)])"
    by (simp add: reachesWarnings_def isRef_def)
  have r: "removeKey ''deprecated'' [(''type'', JStr ''string''), (''deprecated'', JBool True)]
      = [(''type'', JStr ''string'')]"
    by (simp add: removeKey_def)
  have r': "removeKey ''deprecated'' [(''type'', JStr ''string''), (''deprecated'', JBool False)]
      = [(''type'', JStr ''string'')]"
    by (simp add: removeKey_def)
  have c: "console (snd (createType (JObj [(''type'', JStr ''string''), (''deprecated'', JBool True)]) fresh))
     = [''deprecated'']"
    by (simp add: compile_simps fresh_def)
  from ignored_keywords [OF h1 h2, of "[(''type'', JStr ''string''), (''deprecated'', JBool True)]"
      undefined undefined undefined undefined undefined undefined] h3 r c
  have a: "fst (createType (JObj [(''type'', JStr ''string'')]) fresh)
     = fst (createType (JObj [(''type'', JStr ''string''), (''deprecated'', JBool True)]) fresh)
   \<and> ''deprecated''
     \<in> set (console (snd (createType (JObj [(''type'', JStr ''string''), (''deprecated'', JBool True)])
                             fresh)))"
    by simp
  from ignored_keywords [OF h1 h2, of "[(''type'', JStr ''string''), (''deprecated'', JBool False)]"
      undefined undefined undefined undefined undefined undefined] r'
  have b: "createType (JObj [(''type'', JStr ''string'')]) fresh
     = createType (JObj [(''type'', JStr ''string''), (''deprecated'', JBool False)]) fresh"
    by simp
  from a b c show ?thesis by simp
qed

theorem ignored_keywords_counterexample:
  "console (snd (createType (JObj [(''type'', JStr ''string''), (''readOnly'', JBool True)]) fresh)) = []
   \<and> console (snd (createType
        (JObj [(''allOf'', JArr [JObj [(''type'', JStr ''string'')]]), (''deprecated'', JBool True)])
        fresh)) = []
   \<and> console (snd (createType (JObj [(''type'', JStr ''string''), (''deprecated'', JBool False)])
        fresh)) = []
   \<and> fst (createType
        (JObj [(''type'', JStr ''object''),
               (''additionalProperties'', JObj [(''deprecated'', JBool True)])]) fresh)
     = Inl (UnknownScalarType JUndefined)
   \<and> fst (createType
        (JObj [(''type'', JStr ''object''), (''additionalProperties'', JObj [])]) fresh)
     = Inr ''Record<string, unknown>''"
  by (simp add: compile_simps fresh_def)

section \<open>Statements that only warn\<close>

definition steady :: "'a prog \<Rightarrow> bool" where
  "steady m = (\<forall>st. agree st (snd (m st)))"

lemma steady_ret: "steady (ret x)"
  by (simp add: steady_def ret_def agree_refl)

lemma steady_throw: "steady (throw e)"
  by (simp add: steady_def throw_def agree_refl)

lemma steady_lift: "steady (lift r)"
  by (simp add: steady_def lift_def agree_refl)

lemma steady_andThen: "steady m \<Longrightarrow> (\<And>x. steady (f x)) \<Longrightarrow> steady (andThen m f)"
  unfolding steady_def andThen_def
  by (auto split: prod.splits sum.splits) (metis agree_trans snd_conv)+

lemma steady_mapM: "(\<And>x. steady (f x)) \<Longrightarrow> steady (mapM f xs)"
proof (induction xs)
  case Nil
  show ?case by (simp add: steady_def agree_refl)
next
  case (Cons x xs)
  have "mapM f (x # xs) = andThen (f x) (\<lambda>y s. mapRes ((#) y) (mapM f xs s))"
    by (rule ext) (simp add: andThen_def)
  moreover have "steady (\<lambda>s. mapRes ((#) y) (mapM f xs s))" for y
    using Cons by (simp add: steady_def snd_mapRes)
  ultimately show ?case using Cons.prems by (simp add: steady_andThen)
qed

lemma steady_if: "(c \<Longrightarrow> steady a) \<Longrightarrow> (\<not> c \<Longrightarrow> steady b) \<Longrightarrow> steady (if c then a else b)"
  by simp

lemma steady_case_prod: "(\<And>a b. steady (f a b)) \<Longrightarrow> steady (case p of (a, b) \<Rightarrow> f a b)"
  by (cases p) simp

lemma steady_createType: "steady (createType v)"
  by (simp add: steady_def agree_createType)

lemmas steady_intros =
  steady_andThen steady_mapM steady_if steady_case_prod steady_ret steady_throw steady_lift
  steady_createType

text \<open>
  A mapped statement that only warns computes, for each element, what it computes for
  that element in the state before the loop.
\<close>

lemma mapM_result:
  assumes r: "\<And>x. rel agree (f x)" and s: "\<And>x. steady (f x)"
  shows "mapM f xs st = (Inr ys, st')
    \<Longrightarrow> ys = map (\<lambda>x. projr (fst (f x st))) xs \<and> list_all (\<lambda>x. \<not> isl (fst (f x st))) xs
        \<and> agree st st'"
proof (induction xs arbitrary: st ys st')
  case Nil
  then show ?case by (simp add: agree_refl)
next
  case (Cons x xs)
  obtain a y where h: "f x st = (a, y)" by (cases "f x st")
  from Cons.prems h obtain v where a: "a = Inr v" by (cases a) auto
  obtain r2 y2 where t: "mapM f xs y = (r2, y2)" by (cases "mapM f xs y")
  from Cons.prems h a t obtain vs where r2: "r2 = Inr vs" and ys: "ys = v # vs" and y2: "st' = y2"
    by (cases r2) (auto simp: mapRes_def)
  from s [of x] h have 1: "agree st y" by (auto simp: steady_def dest: spec [of _ st])
  from Cons.IH [OF t [unfolded r2]]
  have 2: "vs = map (\<lambda>x. projr (fst (f x y))) xs" and 3: "list_all (\<lambda>x. \<not> isl (fst (f x y))) xs"
    and 4: "agree y y2" by simp_all
  have same: "fst (f z y) = fst (f z st)" for z
    using r [of z] 1 by (simp add: rel_def relAt_def)
  from 1 2 3 4 h a ys y2 show ?case
    by (auto simp: same intro: agree_trans)
qed

section \<open>Response groups\<close>

lemma join_map_JStr: "joinVals sep (map JStr ts) = join sep ts"
  by (simp add: joinVals_def comp_def)

text \<open>
  The types the specification asks of one response: the placeholder when it declares no
  content, and otherwise the compiled schema of each media type.
\<close>

definition entryTypes :: "state \<Rightarrow> string \<Rightarrow> jsval \<Rightarrow> string list" where
  "entryTypes st placeholder response =
     (if \<not> truthy (get response ''content'') then [placeholder]
      else map (\<lambda>(mediaType, media). projr (fst (createType (get media ''schema'') st)))
             (projr (objectEntries (get response ''content''))))"

text \<open>The members of the union of one group; the placeholder alone when there are none.\<close>

definition groupTypes :: "state \<Rightarrow> string \<Rightarrow> (string \<times> jsval) list \<Rightarrow> string list" where
  "groupTypes st placeholder responses =
     (let types = concat (map (\<lambda>(statusCode, response). entryTypes st placeholder response) responses)
      in if types \<noteq> [] then types else [placeholder])"

definition mediaEntry :: "string \<times> jsval \<Rightarrow> string prog" where
  "mediaEntry = (\<lambda>(mediaType, media).
                if nullish media then throw TypeError else createType (get media ''schema''))"

lemma rel_mediaEntry: "rel agree (mediaEntry e)"
  unfolding mediaEntry_def by (intro rel_intros) (rule stateRel_agree)

lemma steady_mediaEntry: "steady (mediaEntry e)"
  unfolding mediaEntry_def by (intro steady_intros)

lemma contentTypes_result:
  assumes "contentTypes content st = (Inr ts, st')"
  shows "ts = map (\<lambda>(mediaType, media). projr (fst (createType (get media ''schema'') st)))
               (projr (objectEntries content))"
proof -
  have c: "contentTypes content = andThen (lift (objectEntries content)) (mapM mediaEntry)"
    by (simp add: contentTypes_def mediaEntry_def)
  from assms obtain es where e: "objectEntries content = Inr es" and m: "mapM mediaEntry es st = (Inr ts, st')"
    by (cases "objectEntries content") (auto simp: c andThen_def lift_def)
  from mapM_result [OF rel_mediaEntry steady_mediaEntry m]
  have ts: "ts = map (\<lambda>x. projr (fst (mediaEntry x st))) es"
    and ok: "list_all (\<lambda>x. \<not> isl (fst (mediaEntry x st))) es" by simp_all
  have "projr (fst (mediaEntry x st)) = (case x of (mediaType, media) \<Rightarrow>
      projr (fst (createType (get media ''schema'') st)))" if "\<not> isl (fst (mediaEntry x st))" for x
    using that by (cases x) (auto simp: mediaEntry_def throw_def split: if_splits)
  with ok have "map (\<lambda>x. projr (fst (mediaEntry x st))) es
      = map (\<lambda>(mediaType, media). projr (fst (createType (get media ''schema'') st))) es"
    by (intro map_cong refl) (auto simp: list_all_iff)
  with ts e show ?thesis by simp
qed

definition responseEntry :: "string \<Rightarrow> string \<times> jsval \<Rightarrow> string list prog" where
  "responseEntry placeholder = (\<lambda>(statusCode, response).
                if nullish response then throw TypeError
                else if \<not> truthy (get response ''content'') then ret [placeholder]
                else contentTypes (get response ''content''))"

lemma rel_responseEntry: "rel agree (responseEntry placeholder e)"
  unfolding responseEntry_def by (intro rel_intros rel_contentTypes) (rule stateRel_agree)

lemma steady_contentTypes: "steady (contentTypes content)"
  unfolding contentTypes_def by (intro steady_intros)

lemma steady_responseEntry: "steady (responseEntry placeholder e)"
  unfolding responseEntry_def by (intro steady_intros steady_contentTypes)

lemma responseEntry_result:
  assumes "\<not> isl (fst (responseEntry placeholder (statusCode, response) st))"
  shows "projr (fst (responseEntry placeholder (statusCode, response) st))
       = entryTypes st placeholder response"
proof (cases "nullish response \<or> \<not> truthy (get response ''content'')")
  case True
  with assms show ?thesis
    by (auto simp: responseEntry_def entryTypes_def throw_def ret_def)
next
  case False
  obtain a y where c: "contentTypes (get response ''content'') st = (a, y)"
    by (cases "contentTypes (get response ''content'') st")
  from assms False c obtain ts where a: "a = Inr ts"
    by (cases a) (auto simp: responseEntry_def)
  from contentTypes_result [OF c [unfolded a]] False c a show ?thesis
    by (simp add: responseEntry_def entryTypes_def)
qed

lemma responseTypes_result:
  assumes "responseTypes placeholder responses st = (Inr ts, st')"
  shows "ts = concat (map (\<lambda>(statusCode, response). entryTypes st placeholder response) responses)
    \<and> agree st st'"
proof -
  have c: "responseTypes placeholder responses =
      andThen (mapM (responseEntry placeholder) responses) (\<lambda>types. ret (concat types))"
    by (simp add: responseTypes_def responseEntry_def)
  from assms obtain tss where m: "mapM (responseEntry placeholder) responses st = (Inr tss, st')"
    and ts: "ts = concat tss"
    by (cases "mapM (responseEntry placeholder) responses st")
       (auto simp: c andThen_def ret_def split: sum.splits)
  from mapM_result [OF rel_responseEntry steady_responseEntry m]
  have tss: "tss = map (\<lambda>x. projr (fst (responseEntry placeholder x st))) responses"
    and ok: "list_all (\<lambda>x. \<not> isl (fst (responseEntry placeholder x st))) responses"
    and ag: "agree st st'" by simp_all
  from ok have "map (\<lambda>x. projr (fst (responseEntry placeholder x st))) responses
      = map (\<lambda>(statusCode, response). entryTypes st placeholder response) responses"
    by (intro map_cong refl) (auto simp: list_all_iff responseEntry_result)
  with tss ts ag show ?thesis by simp
qed

text \<open>
  Claim C6. For an operation that declares responses, the \<^verbatim>\<open>Response\<close> namespace
  holds the alias \<^verbatim>\<open>Success\<close>, the union over the entries whose status code starts
  with \<^verbatim>\<open>2\<close>, and the alias \<^verbatim>\<open>Error\<close>, the union over the entries whose code is
  \<^verbatim>\<open>default\<close> or starts with \<^verbatim>\<open>4\<close> or \<^verbatim>\<open>5\<close>. An entry with no content gives
  the placeholder (\<^verbatim>\<open>void\<close>, \<^verbatim>\<open>unknown\<close>), an entry with content one compiled
  type for each media type, and a group with no entries is the placeholder alone.
\<close>

theorem response_groups:
  assumes "responseNamespace cc responses st = (Inr out, st')"
  shows "out =
      [createNamespace (createTypeIdentifier cc (JStr ''Response'') [])
         [createTypeAlias ''Success''
            (join '' | ''
               (groupTypes st ''void''
                  (filter (\<lambda>(statusCode, r). take 1 statusCode = ''2'')
                     (projr (objectEntries responses))))),
          createTypeAlias ''Error''
            (join '' | ''
               (groupTypes st ''unknown''
                  (filter (\<lambda>(statusCode, r).
                             statusCode = ''default'' \<or> take 1 statusCode = ''4''
                             \<or> take 1 statusCode = ''5'')
                     (projr (objectEntries responses)))))]]
    \<and> groupTypes st ''void'' [] = [''void''] \<and> groupTypes st ''unknown'' [] = [''unknown'']"
proof -
  from assms obtain es where e: "objectEntries responses = Inr es"
    by (cases "objectEntries responses") (auto simp: responseNamespace_def andThen_def lift_def)
  let ?S = "filter (\<lambda>(statusCode, r). isSuccess statusCode) es"
  let ?E = "filter (\<lambda>(statusCode, r). isError statusCode) es"
  obtain a1 y1 where s: "responseTypes ''void'' ?S st = (a1, y1)"
    by (cases "responseTypes ''void'' ?S st")
  from assms e s obtain ss where a1: "a1 = Inr ss"
    by (cases a1) (auto simp: responseNamespace_def andThen_def lift_def)
  obtain a2 y2 where r: "responseTypes ''unknown'' ?E y1 = (a2, y2)"
    by (cases "responseTypes ''unknown'' ?E y1")
  from assms e s a1 r obtain rs where a2: "a2 = Inr rs"
    by (cases a2) (auto simp: responseNamespace_def andThen_def lift_def)
  from responseTypes_result [OF s [unfolded a1]]
  have ss: "ss = concat (map (\<lambda>(statusCode, response). entryTypes st ''void'' response) ?S)"
    and ag: "agree st y1" by simp_all
  have same: "fst (createType v y1) = fst (createType v st)" for v
    by (rule createType_agree [symmetric]) (rule ag)
  from responseTypes_result [OF r [unfolded a2]]
  have "rs = concat (map (\<lambda>(statusCode, response). entryTypes y1 ''unknown'' response) ?E)"
    by simp
  moreover have "entryTypes y1 = entryTypes st"
    unfolding entryTypes_def same ..
  ultimately
  have rs: "rs = concat (map (\<lambda>(statusCode, response). entryTypes st ''unknown'' response) ?E)"
    by simp
  have out: "out =
      [createNamespace (createTypeIdentifier cc (JStr ''Response'') [])
         [createTypeAlias ''Success'' (join '' | '' (if ss \<noteq> [] then ss else [''void''])),
          createTypeAlias ''Error'' (join '' | '' (if rs \<noteq> [] then rs else [''unknown'']))]]"
    using assms e s a1 r a2
    by (simp add: responseNamespace_def andThen_def lift_def ret_def createTypeUnion_def
        join_map_JStr)
  have f1: "(\<lambda>(statusCode, r). isSuccess statusCode)
      = (\<lambda>(statusCode, r :: jsval). take 1 statusCode = ''2'')"
    by (simp add: isSuccess_def startsWith_def)
  have f2: "(\<lambda>(statusCode, r). isError statusCode)
      = (\<lambda>(statusCode, r :: jsval). statusCode = ''default'' \<or> take 1 statusCode = ''4''
            \<or> take 1 statusCode = ''5'')"
    by (simp add: isError_def startsWith_def)
  show ?thesis
    unfolding out ss rs f1 [symmetric] f2 [symmetric]
    by (simp add: groupTypes_def Let_def e)
qed

definition exampleResponses :: jsval where
  "exampleResponses =
     JObj [(''200'', JObj [(''content'',
               JObj [(''application/json'', JObj [(''schema'', JObj [(''type'', JStr ''string'')])])])]),
           (''204'', JObj [(''description'', JStr ''No content'')]),
           (''404'', JObj [(''description'', JStr ''Not found'')]),
           (''default'', JObj [(''content'',
               JObj [(''application/json'', JObj [(''schema'', JObj [(''type'', JStr ''number'')])])])])]"

lemmas run_simps =
  andThen_def lift_def ret_def throw_def responseNamespace_def responseTypes_def contentTypes_def
  isSuccess_def isError_def startsWith_def createTypeIdentifier_def toPascalCase_def
  capitalize_def toUpperCase_def

theorem response_groups_witness:
  "responseNamespace toString exampleResponses fresh
     = (Inr [createNamespace ''Response''
               [createTypeAlias ''Success'' ''string | void'',
                createTypeAlias ''Error'' ''unknown | number'']], fresh)
   \<and> [createNamespace ''Response''
               [createTypeAlias ''Success'' ''string | void'',
                createTypeAlias ''Error'' ''unknown | number'']]
     = [createNamespace (createTypeIdentifier toString (JStr ''Response'') [])
         [createTypeAlias ''Success''
            (join '' | ''
               (groupTypes fresh ''void''
                  (filter (\<lambda>(statusCode, r). take 1 statusCode = ''2'')
                     (projr (objectEntries exampleResponses))))),
          createTypeAlias ''Error''
            (join '' | ''
               (groupTypes fresh ''unknown''
                  (filter (\<lambda>(statusCode, r).
                             statusCode = ''default'' \<or> take 1 statusCode = ''4''
                             \<or> take 1 statusCode = ''5'')
                     (projr (objectEntries exampleResponses)))))]]"
proof -
  have e: "responseNamespace toString exampleResponses fresh
     = (Inr [createNamespace ''Response''
               [createTypeAlias ''Success'' ''string | void'',
                createTypeAlias ''Error'' ''unknown | number'']], fresh)"
    by (simp add: exampleResponses_def run_simps compile_simps)
  from response_groups [OF e] e show ?thesis by simp
qed

section \<open>Assignment to a plain object\<close>





lemma keys_setProp: "fst ` set (setProp k v kvs) = insert k (fst ` set kvs)"
proof (cases "k \<in> fst ` set kvs")
  case True
  have "fst ` set (map (\<lambda>p. if fst p = k then (k, v) else p) kvs) = fst ` set kvs"
    by (induction kvs) auto
  with True show ?thesis by (auto simp: setProp_def)
next
  case False
  let ?P = "\<lambda>p. precedes (fst p) k"
  have "set kvs = set (takeWhile ?P kvs) \<union> set (dropWhile ?P kvs)"
    by (metis set_append takeWhile_dropWhile_id)
  with False show ?thesis by (auto simp: setProp_def)
qed


section \<open>Parameters grouped by location\<close>





















section \<open>The identifier registry\<close>

text \<open>
  A statement reserves the names \<open>ks\<close> when every run of it that returns has added
  exactly these names to \<^verbatim>\<open>createdTypeNames\<close>, none of them reserved before and no two
  of them equal.
\<close>

definition reserves :: "'a prog \<Rightarrow> string list \<Rightarrow> bool" where
  "reserves m ks =
     (\<forall>st r st'. m st = (Inr r, st') \<longrightarrow>
        createdTypeNames st' = createdTypeNames st \<union> set ks \<and> distinct ks
        \<and> set ks \<inter> createdTypeNames st = {})"

lemma reserves_ret: "reserves (ret x) []"
  by (simp add: reserves_def ret_def)

lemma reserves_throw: "reserves (throw e) ks"
  by (simp add: reserves_def throw_def)

lemma reserves_lift: "reserves (lift r) []"
  by (simp add: reserves_def lift_def)

lemma reserves_steady: "steady m \<Longrightarrow> reserves m []"
  unfolding reserves_def steady_def agree_def
  by (metis Un_empty_right distinct.simps(1) inf_bot_left list.set(1) snd_conv)

lemma reserves_andThen:
  assumes m: "reserves m ks" and f: "\<And>x. reserves (f x) ks'"
  shows "reserves (andThen m f) (ks @ ks')"
  unfolding reserves_def
proof (intro allI impI)
  fix st r st'
  assume a: "andThen m f st = (Inr r, st')"
  obtain b y where h: "m st = (b, y)" by (cases "m st")
  from a h obtain x where b: "b = Inr x" and t: "f x y = (Inr r, st')"
    by (cases b) (auto simp: andThen_def)
  from m h b have 1: "createdTypeNames y = createdTypeNames st \<union> set ks" "distinct ks"
    "set ks \<inter> createdTypeNames st = {}"
    by (auto simp: reserves_def)
  from f [of x] t have 2: "createdTypeNames st' = createdTypeNames y \<union> set ks'" "distinct ks'"
    "set ks' \<inter> createdTypeNames y = {}"
    by (auto simp: reserves_def)
  from 1 2 show "createdTypeNames st' = createdTypeNames st \<union> set (ks @ ks') \<and> distinct (ks @ ks')
        \<and> set (ks @ ks') \<inter> createdTypeNames st = {}"
    by auto
qed

lemma reserves_lift_andThen:
  assumes "\<And>x. r = Inr x \<Longrightarrow> reserves (f x) ks"
  shows "reserves (andThen (lift r) f) ks"
  using assms by (cases r) (auto simp: reserves_def andThen_def lift_def)

lemma reserves_mapM:
  assumes "\<And>x. reserves (f x) (keys x)"
  shows "reserves (mapM f xs) (concat (map keys xs))"
proof (induction xs)
  case Nil
  show ?case by (simp add: reserves_def)
next
  case (Cons x xs)
  have e: "mapM f (x # xs) = andThen (f x) (\<lambda>y s. mapRes ((#) y) (mapM f xs s))"
    by (rule ext) (simp add: andThen_def)
  have "reserves (\<lambda>s. mapRes ((#) y) (mapM f xs s)) (concat (map keys xs))" for y
    using Cons.IH unfolding reserves_def
    by (auto simp: mapRes_def split: prod.splits sum.splits)
  from reserves_andThen [OF assms [of x] this] show ?case
    by (simp add: e)
qed

lemma reserves_if:
  "(c \<Longrightarrow> reserves a ks) \<Longrightarrow> (\<not> c \<Longrightarrow> reserves b ks) \<Longrightarrow> reserves (if c then a else b) ks"
  by simp

lemma reserves_createTypeName:
  "reserves (createTypeName cc v suffix) [createTypeIdentifier cc v suffix]"
  by (auto simp: reserves_def createTypeName_def Let_def split: if_splits)

lemma reserves_buildRefMap: "reserves (buildRefMap cc doc) []"
  by (auto simp: reserves_def buildRefMap_def Let_def split: if_splits)

lemma steady_createTypes: "steady (createTypes vs)"
proof -
  have "warnRel (\<lambda>a b. a = b \<and> agree st a)" for st
    by (simp add: warnRel_def agree_warn)
  from relAt_family(2) [OF this] show ?thesis
    by (simp add: steady_def relAt_def agree_refl)
qed

lemma steady_parameterTypes: "steady (parameterTypes cc groups)"
  unfolding parameterTypes_def by (intro steady_intros)

lemma steady_responseTypes: "steady (responseTypes placeholder responses)"
  unfolding responseTypes_def by (intro steady_intros steady_contentTypes)

lemma steady_responseNamespace: "steady (responseNamespace cc responses)"
  unfolding responseNamespace_def by (intro steady_intros steady_responseTypes)

lemma steady_requestBodyTypes: "steady (requestBodyTypes cc requestBody)"
  unfolding requestBodyTypes_def by (intro steady_intros steady_createTypes)

lemmas ident_simps =
  createTypeIdentifier_def toPascalCase_def capitalize_def toUpperCase_def

text \<open>The name an operation reserves for its namespace.\<close>

definition operationTypeName :: "(jsval \<Rightarrow> string) \<Rightarrow> string \<Rightarrow> string \<times> jsval \<Rightarrow> string" where
  "operationTypeName cc path entry =
     createTypeIdentifier cc
       (orElse (get (snd entry) ''operationId'') (JStr (fst entry @ path))) []"

lemma steady_operation_rest:
  "steady
     (andThen (lift (optionalComment description summary))
           (\<lambda>comment.
         andThen (lift (allParameters sharedParameters parameters))
           (\<lambda>allParameters.
         andThen (lift (groupParameters allParameters []))
           (\<lambda>parametersByLocation.
         andThen (parameterTypes cc parametersByLocation)
           (\<lambda>parameterAliases.
         andThen (if truthy responses then responseNamespace cc responses else ret [])
           (\<lambda>responseAliases.
         andThen (if truthy requestBody then requestBodyTypes cc requestBody else ret [])
           (\<lambda>requestBodyAliases.
         andThen (lift (createEndpoint opts (ep parametersByLocation)))
           (\<lambda>endpoint.
              ret (out comment parameterAliases responseAliases requestBodyAliases endpoint)))))))))"
  by (intro steady_intros steady_parameterTypes steady_responseNamespace steady_requestBodyTypes)

lemma reserves_createOperation:
  "reserves (createOperation cc opts path sharedParameters entry) [operationTypeName cc path entry]"
proof (cases "nullish (snd entry)")
  case True
  then show ?thesis by (simp add: createOperation_def Let_def reserves_throw)
next
  case False
  have "reserves (createOperation cc opts path sharedParameters entry)
      ([operationTypeName cc path entry] @ [])"
    using False unfolding createOperation_def Let_def operationTypeName_def
    by (simp only: if_False)
       (intro reserves_andThen reserves_createTypeName reserves_steady steady_operation_rest)
  then show ?thesis by simp
qed

lemma reserves_then_ret:
  "reserves m ks \<Longrightarrow> reserves (andThen m (\<lambda>x. ret (g x))) ks"
  using reserves_andThen [of m ks "\<lambda>x. ret (g x)" "[]"] by (simp add: reserves_ret)

text \<open>The names the operations of one path reserve, in order.\<close>

definition pathTypeNames :: "(jsval \<Rightarrow> string) \<Rightarrow> string \<times> jsval \<Rightarrow> string list" where
  "pathTypeNames cc entry =
     map (operationTypeName cc (fst entry))
       (filter (\<lambda>(method, operation). method \<in> set HTTP_METHODS)
          (projr (objectEntries (snd entry))))"

lemma reserves_createPathItem: "reserves (createPathItem cc opts entry) (pathTypeNames cc entry)"
proof (cases "nullish (snd entry)")
  case True
  then show ?thesis by (simp add: createPathItem_def Let_def reserves_throw)
next
  case False
  have ops: "reserves
      (andThen (lift (objectEntries (snd entry)))
         (\<lambda>entries.
            andThen (mapM (createOperation cc opts (fst entry) shared)
                       (filter (\<lambda>(method, operation). method \<in> set HTTP_METHODS) entries))
              (\<lambda>endpoints. ret (comment @ concat endpoints))))
      (pathTypeNames cc entry)" for shared comment
  proof (rule reserves_lift_andThen)
    fix entries
    assume e: "objectEntries (snd entry) = Inr entries"
    have "reserves (mapM (createOperation cc opts (fst entry) shared)
                 (filter (\<lambda>(method, operation). method \<in> set HTTP_METHODS) entries))
        (concat (map (\<lambda>x. [operationTypeName cc (fst entry) x])
                   (filter (\<lambda>(method, operation). method \<in> set HTTP_METHODS) entries)))"
      by (rule reserves_mapM) (rule reserves_createOperation)
    then have "reserves (mapM (createOperation cc opts (fst entry) shared)
                 (filter (\<lambda>(method, operation). method \<in> set HTTP_METHODS) entries))
        (pathTypeNames cc entry)"
      by (simp add: pathTypeNames_def e concat_map_singleton)
    then show "reserves
        (andThen (mapM (createOperation cc opts (fst entry) shared)
                   (filter (\<lambda>(method, operation). method \<in> set HTTP_METHODS) entries))
           (\<lambda>endpoints. ret (comment @ concat endpoints)))
        (pathTypeNames cc entry)"
      by (rule reserves_then_ret)
  qed
  show ?thesis
    using False unfolding createPathItem_def Let_def
    by (simp only: if_False) (intro reserves_lift_andThen reserves_if reserves_throw ops)
qed

text \<open>The names the operations of the document reserve, in order.\<close>

definition endpointTypeNames :: "(jsval \<Rightarrow> string) \<Rightarrow> jsval \<Rightarrow> string list" where
  "endpointTypeNames cc openApiDocument =
     concat (map (pathTypeNames cc) (projr (objectEntries (get openApiDocument ''paths''))))"

lemma reserves_createEndpoints:
  "reserves (createEndpoints cc opts doc) (endpointTypeNames cc doc)"
proof (cases "nullish doc")
  case True
  then show ?thesis by (simp add: createEndpoints_def reserves_throw)
next
  case False
  have "reserves
      (andThen (lift (objectEntries (get doc ''paths'')))
          (\<lambda>entries.
             andThen (mapM (createPathItem cc opts) entries)
               (\<lambda>endpoints. ret (concat endpoints))))
      (endpointTypeNames cc doc)"
  proof (rule reserves_lift_andThen)
    fix entries
    assume e: "objectEntries (get doc ''paths'') = Inr entries"
    have "reserves (mapM (createPathItem cc opts) entries) (concat (map (pathTypeNames cc) entries))"
      by (rule reserves_mapM) (rule reserves_createPathItem)
    then have "reserves (mapM (createPathItem cc opts) entries) (endpointTypeNames cc doc)"
      by (simp add: endpointTypeNames_def e)
    then show "reserves (andThen (mapM (createPathItem cc opts) entries)
               (\<lambda>endpoints. ret (concat endpoints))) (endpointTypeNames cc doc)"
      by (rule reserves_then_ret)
  qed
  with False show ?thesis by (simp add: createEndpoints_def)
qed

text \<open>The names the component schemas and the component request bodies reserve.\<close>

definition schemaTypeNames :: "(jsval \<Rightarrow> string) \<Rightarrow> jsval \<Rightarrow> string list" where
  "schemaTypeNames cc openApiDocument =
     (let components = get openApiDocument ''components'' in
      if \<not> truthy components \<or> \<not> truthy (get components ''schemas'') then []
      else map (\<lambda>(name, schema). createTypeIdentifier cc (JStr name) [])
             (projr (objectEntries (get components ''schemas''))))"

definition requestBodyTypeNames :: "(jsval \<Rightarrow> string) \<Rightarrow> jsval \<Rightarrow> string list" where
  "requestBodyTypeNames cc openApiDocument =
     (let components = get openApiDocument ''components'' in
      if \<not> truthy components \<or> \<not> truthy (get components ''requestBodies'') then []
      else map (\<lambda>(name, component). createTypeIdentifier cc (JStr name) ''RequestBody'')
             (projr (objectEntries (get components ''requestBodies''))))"

lemma reserves_schema_entry:
  "reserves
     (case entry of (name, schema) \<Rightarrow>
        andThen (createTypeName cc (JStr name) [])
          (\<lambda>typeName. andThen (createType schema)
             (\<lambda>typeDefinition. ret (createTypeAlias typeName typeDefinition))))
     [case entry of (name, schema) \<Rightarrow> createTypeIdentifier cc (JStr name) []]"
proof (cases entry)
  case (Pair name schema)
  have "reserves
     (andThen (createTypeName cc (JStr name) [])
          (\<lambda>typeName. andThen (createType schema)
             (\<lambda>typeDefinition. ret (createTypeAlias typeName typeDefinition))))
     ([createTypeIdentifier cc (JStr name) []] @ [])"
    by (intro reserves_andThen reserves_createTypeName reserves_steady steady_intros)
  with Pair show ?thesis by simp
qed

lemma reserves_createTypesFromSchemas:
  "reserves (createTypesFromSchemas cc doc) (schemaTypeNames cc doc)"
proof (cases "nullish doc \<or> \<not> truthy (get doc ''components'')
    \<or> \<not> truthy (get (get doc ''components'') ''schemas'')")
  case True
  then show ?thesis
    by (auto simp: createTypesFromSchemas_def schemaTypeNames_def Let_def reserves_throw reserves_ret)
next
  case False
  let ?f = "\<lambda>(name, schema).
                andThen (createTypeName cc (JStr name) [])
                  (\<lambda>typeName. andThen (createType schema)
                     (\<lambda>typeDefinition. ret (createTypeAlias typeName typeDefinition)))"
  have "reserves (andThen (lift (objectEntries (get (get doc ''components'') ''schemas''))) (mapM ?f))
      (schemaTypeNames cc doc)"
  proof (rule reserves_lift_andThen)
    fix entries
    assume e: "objectEntries (get (get doc ''components'') ''schemas'') = Inr entries"
    have "reserves (mapM ?f entries)
        (concat (map (\<lambda>entry. [case entry of (name, schema) \<Rightarrow> createTypeIdentifier cc (JStr name) []])
                   entries))"
      by (rule reserves_mapM) (rule reserves_schema_entry)
    then show "reserves (mapM ?f entries) (schemaTypeNames cc doc)"
      using False by (simp add: schemaTypeNames_def e concat_map_singleton)
  qed
  with False show ?thesis by (simp add: createTypesFromSchemas_def)
qed

lemma reserves_requestBody_entry:
  "reserves
     (case entry of (name, component) \<Rightarrow>
        andThen (lift (getRequestBodySchemas component))
          (\<lambda>schemas.
             andThen (createTypeName cc (JStr name) ''RequestBody'')
               (\<lambda>typeName.
                  andThen (createType (case schemas of [] \<Rightarrow> JUndefined | schema # _ \<Rightarrow> schema))
                    (\<lambda>typeDefinition. ret (createTypeAlias typeName typeDefinition)))))
     [case entry of (name, component) \<Rightarrow> createTypeIdentifier cc (JStr name) ''RequestBody'']"
proof (cases entry)
  case (Pair name component)
  have "reserves
     (andThen (createTypeName cc (JStr name) ''RequestBody'')
               (\<lambda>typeName.
                  andThen (createType v)
                    (\<lambda>typeDefinition. ret (createTypeAlias typeName typeDefinition))))
     ([createTypeIdentifier cc (JStr name) ''RequestBody''] @ [])" for v
    by (intro reserves_andThen reserves_createTypeName reserves_steady steady_intros)
  then have "reserves
     (andThen (lift (getRequestBodySchemas component))
          (\<lambda>schemas.
             andThen (createTypeName cc (JStr name) ''RequestBody'')
               (\<lambda>typeName.
                  andThen (createType (case schemas of [] \<Rightarrow> JUndefined | schema # _ \<Rightarrow> schema))
                    (\<lambda>typeDefinition. ret (createTypeAlias typeName typeDefinition)))))
     [createTypeIdentifier cc (JStr name) ''RequestBody'']"
    by (intro reserves_lift_andThen) simp
  with Pair show ?thesis by simp
qed

lemma reserves_createTypesFromRequestBodies:
  "reserves (createTypesFromRequestBodies cc doc) (requestBodyTypeNames cc doc)"
proof (cases "nullish doc \<or> \<not> truthy (get doc ''components'')
    \<or> \<not> truthy (get (get doc ''components'') ''requestBodies'')")
  case True
  then show ?thesis
    by (auto simp: createTypesFromRequestBodies_def requestBodyTypeNames_def Let_def
        reserves_throw reserves_ret)
next
  case False
  let ?f = "\<lambda>(name, component).
        andThen (lift (getRequestBodySchemas component))
          (\<lambda>schemas.
             andThen (createTypeName cc (JStr name) ''RequestBody'')
               (\<lambda>typeName.
                  andThen (createType (case schemas of [] \<Rightarrow> JUndefined | schema # _ \<Rightarrow> schema))
                    (\<lambda>typeDefinition. ret (createTypeAlias typeName typeDefinition))))"
  have "reserves
      (andThen (lift (objectEntries (get (get doc ''components'') ''requestBodies''))) (mapM ?f))
      (requestBodyTypeNames cc doc)"
  proof (rule reserves_lift_andThen)
    fix entries
    assume e: "objectEntries (get (get doc ''components'') ''requestBodies'') = Inr entries"
    have "reserves (mapM ?f entries)
        (concat (map (\<lambda>entry. [case entry of (name, component) \<Rightarrow>
                                   createTypeIdentifier cc (JStr name) ''RequestBody''])
                   entries))"
      by (rule reserves_mapM) (rule reserves_requestBody_entry)
    then show "reserves (mapM ?f entries) (requestBodyTypeNames cc doc)"
      using False by (simp add: requestBodyTypeNames_def e concat_map_singleton)
  qed
  with False show ?thesis by (simp add: createTypesFromRequestBodies_def)
qed

lemma reserves_createTypesFromParameters: "reserves (createTypesFromParameters doc) []"
  by (simp add: createTypesFromParameters_def Let_def reserves_throw reserves_ret)

lemma reserves_createTypesFromResponses: "reserves (createTypesFromResponses doc) []"
  by (simp add: createTypesFromResponses_def Let_def reserves_throw reserves_ret)

text \<open>Every name one run reserves, in the order of the reservations.\<close>

definition reservedNames :: "(jsval \<Rightarrow> string) \<Rightarrow> jsval \<Rightarrow> string list" where
  "reservedNames cc openApiDocument =
     schemaTypeNames cc openApiDocument @ requestBodyTypeNames cc openApiDocument
     @ endpointTypeNames cc openApiDocument"

lemma reserves_statements: "reserves (statements cc opts doc) (reservedNames cc doc)"
proof -
  have "reserves
     (andThen (buildRefMap cc doc)
       (\<lambda>_.
     andThen (createTypesFromSchemas cc doc)
       (\<lambda>schemas.
     andThen (createTypesFromParameters doc)
       (\<lambda>parameters.
     andThen (createTypesFromRequestBodies cc doc)
       (\<lambda>requestBodies.
     andThen (createTypesFromResponses doc)
       (\<lambda>responses.
     andThen (lift (createRequestFunction opts doc (baseUrl opts)))
       (\<lambda>requestFunction.
     andThen (createEndpoints cc opts doc)
       (\<lambda>endpoints.
          ret ([infoHeader, imports] @ schemas @ parameters @ requestBodies @ responses
               @ [requestFunction] @ endpoints)))))))))
     ([] @ schemaTypeNames cc doc @ [] @ requestBodyTypeNames cc doc @ [] @ endpointTypeNames cc doc)"
    for infoHeader "imports"
    by (intro reserves_andThen reserves_buildRefMap reserves_createTypesFromSchemas
        reserves_createTypesFromParameters reserves_createTypesFromRequestBodies
        reserves_createTypesFromResponses reserves_lift_andThen reserves_then_ret
        reserves_createEndpoints)
  then show ?thesis
    unfolding statements_def reservedNames_def
    by (intro reserves_lift_andThen) simp
qed

lemma reserves_generate:
  assumes "preProcess opts doc = Inr doc'"
  shows "reserves (generate cc opts doc) (reservedNames cc doc')"
proof -
  have "reserves (andThen (statements cc opts doc')
                 (\<lambda>statements. lift (format opts (join (newline @ newline) statements))))
      (reservedNames cc doc' @ [])"
    by (intro reserves_andThen reserves_statements reserves_lift)
  then show ?thesis
    unfolding generate_def
    by (intro reserves_lift_andThen) (simp add: assms)
qed

text \<open>
  The first statement that throws ends the run: a loop whose earlier iterations return
  throws what the next iteration throws, in the state that iteration leaves.
\<close>

lemma andThen_returns: "m st = (Inr x, st1) \<Longrightarrow> andThen m f st = f x st1"
  by (simp add: andThen_def)

lemma andThen_throws: "m st = (Inl e, st1) \<Longrightarrow> andThen m f st = (Inl e, st1)"
  by (simp add: andThen_def)

lemma mapM_throws:
  "mapM f xs st = (Inr ys, st1) \<Longrightarrow> f x st1 = (Inl e, st2)
   \<Longrightarrow> mapM f (xs @ x # rest) st = (Inl e, st2)"
proof (induction xs arbitrary: st ys)
  case Nil
  then show ?case by simp
next
  case (Cons a xs)
  obtain r y where h: "f a st = (r, y)" by (cases "f a st")
  from Cons.prems(1) h obtain v where r: "r = Inr v" by (cases r) auto
  obtain r2 y2 where t: "mapM f xs y = (r2, y2)" by (cases "mapM f xs y")
  from Cons.prems(1) h r t obtain vs where r2: "r2 = Inr vs" and y2: "y2 = st1"
    by (cases r2) (auto simp: mapRes_def)
  from Cons.IH [OF t [unfolded r2 y2] Cons.prems(2)] h r show ?case
    by (simp add: mapRes_def)
qed

lemma reserves_names:
  "reserves m ks \<Longrightarrow> m st = (Inr r, st') \<Longrightarrow> createdTypeNames st' = createdTypeNames st \<union> set ks"
  by (auto simp: reserves_def)

lemma reserves_operations:
  "reserves (mapM (createOperation cc opts path shared) operations)
     (map (operationTypeName cc path) operations)"
proof -
  have "reserves (mapM (createOperation cc opts path shared) operations)
        (concat (map (\<lambda>x. [operationTypeName cc path x]) operations))"
    by (rule reserves_mapM) (rule reserves_createOperation)
  then show ?thesis by (simp add: concat_map_singleton)
qed

lemma reserves_pathItems:
  "reserves (mapM (createPathItem cc opts) entries) (concat (map (pathTypeNames cc) entries))"
  by (rule reserves_mapM) (rule reserves_createPathItem)

lemma createOperation_duplicate:
  assumes "\<not> nullish operation"
    and "operationTypeName cc path (method, operation) \<in> createdTypeNames st"
  shows "createOperation cc opts path sharedParameters (method, operation) st
        = (Inl (DuplicateTypeName (operationTypeName cc path (method, operation))
                  (orElse (get operation ''operationId'') (JStr (method @ path)))), st)"
  using assms
  by (simp add: createOperation_def Let_def operationTypeName_def andThen_def createTypeName_def)

lemma createPathItem_throws:
  assumes "\<not> nullish item"
    and "\<not> isl (optionalComment (get item ''description'') (get item ''summary''))"
    and "\<not> isRef item" and "\<not> truthy (get item ''servers'')"
    and f: "filter (\<lambda>(method, operation). method \<in> set HTTP_METHODS) (projr (objectEntries item))
          = earlier @ entry # later"
    and m: "mapM (createOperation cc opts path (orElse (get item ''parameters'') (JArr []))) earlier st
          = (Inr made, st1)"
    and t: "createOperation cc opts path (orElse (get item ''parameters'') (JArr [])) entry st1
          = (Inl e, st2)"
  shows "createPathItem cc opts (path, item) st = (Inl e, st2)"
proof -
  from assms(1) obtain entries where o: "objectEntries item = Inr entries"
    by (cases item) auto
  from assms(2) obtain comment
    where c: "optionalComment (get item ''description'') (get item ''summary'') = Inr comment"
    by (cases "optionalComment (get item ''description'') (get item ''summary'')") auto
  have f': "filter (\<lambda>(method, operation). method \<in> set HTTP_METHODS) entries
          = earlier @ entry # later"
    using f unfolding o sum.sel .
  have thrown: "mapM (createOperation cc opts path (orElse (get item ''parameters'') (JArr [])))
        (earlier @ entry # later) st = (Inl e, st2)"
    using m t by (rule mapM_throws)
  have "createPathItem cc opts (path, item) st
      = andThen (mapM (createOperation cc opts path (orElse (get item ''parameters'') (JArr [])))
                   (earlier @ entry # later))
          (\<lambda>endpoints. ret (comment @ concat endpoints)) st"
    using assms(1,3,4) by (simp add: createPathItem_def Let_def andThen_def lift_def c o f')
  also have "\<dots> = (Inl e, st2)"
    by (rule andThen_throws) (rule thrown)
  finally show ?thesis .
qed

lemma createEndpoints_throws:
  assumes "\<not> nullish doc"
    and e: "objectEntries (get doc ''paths'') = Inr (earlier @ entry # later)"
    and m: "mapM (createPathItem cc opts) earlier st = (Inr made, st1)"
    and t: "createPathItem cc opts entry st1 = (Inl err, st2)"
  shows "createEndpoints cc opts doc st = (Inl err, st2)"
proof -
  have thrown: "mapM (createPathItem cc opts) (earlier @ entry # later) st = (Inl err, st2)"
    using m t by (rule mapM_throws)
  have "createEndpoints cc opts doc st
      = andThen (mapM (createPathItem cc opts) (earlier @ entry # later))
          (\<lambda>endpoints. ret (concat endpoints)) st"
    using assms(1) by (simp add: createEndpoints_def andThen_def lift_def e)
  also have "\<dots> = (Inl err, st2)"
    by (rule andThen_throws) (rule thrown)
  finally show ?thesis .
qed

text \<open>
  The statements \<^verbatim>\<open>generate\<close> pushes before it calls \<^verbatim>\<open>createEndpoints\<close>;
  \<open>statements\<close> is these followed by the endpoints.
\<close>

definition statementsBeforeEndpoints ::
  "(jsval \<Rightarrow> string) \<Rightarrow> options \<Rightarrow> jsval \<Rightarrow> string list prog" where
  "statementsBeforeEndpoints cc opts openApiDocument =
     andThen (lift (createInfoHeader openApiDocument))
       (\<lambda>infoHeader.
     andThen (lift (createImports opts openApiDocument))
       (\<lambda>imports.
     andThen (buildRefMap cc openApiDocument)
       (\<lambda>_.
     andThen (createTypesFromSchemas cc openApiDocument)
       (\<lambda>schemas.
     andThen (createTypesFromParameters openApiDocument)
       (\<lambda>parameters.
     andThen (createTypesFromRequestBodies cc openApiDocument)
       (\<lambda>requestBodies.
     andThen (createTypesFromResponses openApiDocument)
       (\<lambda>responses.
     andThen (lift (createRequestFunction opts openApiDocument (baseUrl opts)))
       (\<lambda>requestFunction.
          ret ([infoHeader, imports] @ schemas @ parameters @ requestBodies @ responses
               @ [requestFunction])))))))))"

lemma andThen_assoc: "andThen (andThen m f) g = andThen m (\<lambda>x. andThen (f x) g)"
  by (rule ext) (simp add: andThen_def split: prod.splits sum.splits)

lemma andThen_ret: "andThen (ret x) f = f x"
  by (rule ext) (simp add: andThen_def ret_def)

lemma statements_split:
  "statements cc opts doc =
     andThen (statementsBeforeEndpoints cc opts doc)
       (\<lambda>before. andThen (createEndpoints cc opts doc) (\<lambda>endpoints. ret (before @ endpoints)))"
  unfolding statements_def statementsBeforeEndpoints_def andThen_assoc andThen_ret
  by simp

lemma statementsBeforeEndpoints_nullish:
  "nullish doc \<Longrightarrow> statementsBeforeEndpoints cc opts doc st = (Inl TypeError, st)"
  unfolding statementsBeforeEndpoints_def
  by (rule andThen_throws) (simp add: createInfoHeader_def lift_def)

lemma statementsBeforeEndpoints_document:
  "statementsBeforeEndpoints cc opts doc st = (Inr made, st1) \<Longrightarrow> \<not> nullish doc"
  using statementsBeforeEndpoints_nullish [of doc cc opts st] by auto

lemma generate_throws:
  assumes "preProcess opts doc = Inr doc'" and "validate opts doc' = Inr u"
    and "statementsBeforeEndpoints cc opts doc' st = (Inr made, st1)"
    and "createEndpoints cc opts doc' st1 = (Inl e, st2)"
  shows "generate cc opts doc st = (Inl e, st2)"
proof -
  have "statements cc opts doc' st
      = andThen (createEndpoints cc opts doc') (\<lambda>endpoints. ret (made @ endpoints)) st1"
    unfolding statements_split by (rule andThen_returns) (rule assms(3))
  also have "\<dots> = (Inl e, st2)"
    by (rule andThen_throws) (rule assms(4))
  finally show ?thesis
    by (simp add: generate_def andThen_def lift_def assms(1,2))
qed

text \<open>
  Claim C8, as the code has it. A reservation of a name that is already in the registry
  throws the duplicate-name error and leaves the registry as it was; any other
  reservation returns the name and adds it. Operations reserve in the same registry as
  component schemas and request bodies, and reserving is the first thing the compilation
  of an operation does. So in a run of \<^verbatim>\<open>generate\<close> that returns, the names reserved
  for schemas, request bodies and operations are pairwise different and were not
  reserved before, and a document with two operations that normalize to the same name
  makes the run throw. What it throws is the duplicate-name error of the second
  operation when every statement before that reservation returns: the statements before
  the endpoints, the paths before the operation's path, the checks of that path, and the
  operations before it in the path.
\<close>

theorem identifiers_unique:
  "(createTypeIdentifier cc v suffix \<in> createdTypeNames st \<longrightarrow>
      createTypeName cc v suffix st
        = (Inl (DuplicateTypeName (createTypeIdentifier cc v suffix) v), st))
   \<and> (createTypeIdentifier cc v suffix \<notin> createdTypeNames st \<longrightarrow>
      createTypeName cc v suffix st
        = (Inr (createTypeIdentifier cc v suffix),
           st\<lparr>createdTypeNames := insert (createTypeIdentifier cc v suffix) (createdTypeNames st)\<rparr>))
   \<and> (\<not> nullish operation \<and> operationTypeName cc path (method, operation) \<in> createdTypeNames st
      \<longrightarrow> createOperation cc opts path sharedParameters (method, operation) st
        = (Inl (DuplicateTypeName (operationTypeName cc path (method, operation))
                  (orElse (get operation ''operationId'') (JStr (method @ path)))), st))
   \<and> (preProcess opts doc = Inr doc' \<and> generate cc opts doc st = (Inr out, st') \<longrightarrow>
        distinct (reservedNames cc doc') \<and> set (reservedNames cc doc') \<inter> createdTypeNames st = {}
        \<and> createdTypeNames st' = createdTypeNames st \<union> set (reservedNames cc doc'))
   \<and> (preProcess opts doc = Inr doc' \<and> \<not> distinct (endpointTypeNames cc doc') \<longrightarrow>
        isl (fst (generate cc opts doc st)))
   \<and> (preProcess opts doc = Inr doc' \<and> validate opts doc' = Inr ()
        \<and> statementsBeforeEndpoints cc opts doc' st = (Inr made, st1)
        \<and> objectEntries (get doc' ''paths'') = Inr (paths1 @ (path2, item) # paths2)
        \<and> mapM (createPathItem cc opts) paths1 st1 = (Inr made1, st2)
        \<and> \<not> nullish item
        \<and> \<not> isl (optionalComment (get item ''description'') (get item ''summary''))
        \<and> \<not> isRef item \<and> \<not> truthy (get item ''servers'')
        \<and> filter (\<lambda>(method, operation). method \<in> set HTTP_METHODS) (projr (objectEntries item))
            = operations1 @ (method2, operation2) # operations2
        \<and> mapM (createOperation cc opts path2 (orElse (get item ''parameters'') (JArr [])))
              operations1 st2 = (Inr made2, st3)
        \<and> \<not> nullish operation2
        \<and> operationTypeName cc path2 (method2, operation2)
            \<in> set (concat (map (pathTypeNames cc) paths1)
                     @ map (operationTypeName cc path2) operations1)
        \<longrightarrow> generate cc opts doc st
          = (Inl (DuplicateTypeName (operationTypeName cc path2 (method2, operation2))
                    (orElse (get operation2 ''operationId'') (JStr (method2 @ path2)))), st3))"
proof -
  have 1: "createTypeName cc v suffix st
        = (Inl (DuplicateTypeName (createTypeIdentifier cc v suffix) v), st)"
    if "createTypeIdentifier cc v suffix \<in> createdTypeNames st"
    using that by (simp add: createTypeName_def Let_def)
  have 2: "createTypeName cc v suffix st
        = (Inr (createTypeIdentifier cc v suffix),
           st\<lparr>createdTypeNames := insert (createTypeIdentifier cc v suffix) (createdTypeNames st)\<rparr>)"
    if "createTypeIdentifier cc v suffix \<notin> createdTypeNames st"
    using that by (simp add: createTypeName_def Let_def)
  have 3: "createOperation cc opts path sharedParameters (method, operation) st
        = (Inl (DuplicateTypeName (operationTypeName cc path (method, operation))
                  (orElse (get operation ''operationId'') (JStr (method @ path)))), st)"
    if "\<not> nullish operation" "operationTypeName cc path (method, operation) \<in> createdTypeNames st"
    using that by (rule createOperation_duplicate)
  have 4: "distinct (reservedNames cc doc') \<and> set (reservedNames cc doc') \<inter> createdTypeNames st = {}
        \<and> createdTypeNames st' = createdTypeNames st \<union> set (reservedNames cc doc')"
    if "preProcess opts doc = Inr doc'" "generate cc opts doc st = (Inr out, st')" for out st'
    using reserves_generate [OF that(1), of cc] that(2) by (simp add: reserves_def)
  have 5: "isl (fst (generate cc opts doc st))"
    if p: "preProcess opts doc = Inr doc'" and d: "\<not> distinct (endpointTypeNames cc doc')"
  proof (rule ccontr)
    assume "\<not> isl (fst (generate cc opts doc st))"
    then obtain out st' where "generate cc opts doc st = (Inr out, st')"
      by (cases "generate cc opts doc st"; cases "fst (generate cc opts doc st)") auto
    from 4 [OF p this] have "distinct (reservedNames cc doc')" by simp
    with d show False by (simp add: reservedNames_def)
  qed
  have 6: "generate cc opts doc st
          = (Inl (DuplicateTypeName (operationTypeName cc path2 (method2, operation2))
                    (orElse (get operation2 ''operationId'') (JStr (method2 @ path2)))), st3)"
    if p: "preProcess opts doc = Inr doc'" and v: "validate opts doc' = Inr ()"
      and b: "statementsBeforeEndpoints cc opts doc' st = (Inr made, st1)"
      and e: "objectEntries (get doc' ''paths'') = Inr (paths1 @ (path2, item) # paths2)"
      and m1: "mapM (createPathItem cc opts) paths1 st1 = (Inr made1, st2)"
      and i: "\<not> nullish item"
        "\<not> isl (optionalComment (get item ''description'') (get item ''summary''))"
        "\<not> isRef item" "\<not> truthy (get item ''servers'')"
      and f: "filter (\<lambda>(method, operation). method \<in> set HTTP_METHODS) (projr (objectEntries item))
            = operations1 @ (method2, operation2) # operations2"
      and m2: "mapM (createOperation cc opts path2 (orElse (get item ''parameters'') (JArr [])))
              operations1 st2 = (Inr made2, st3)"
      and n: "\<not> nullish operation2"
      and d: "operationTypeName cc path2 (method2, operation2)
            \<in> set (concat (map (pathTypeNames cc) paths1)
                     @ map (operationTypeName cc path2) operations1)"
  proof -
    from reserves_names [OF reserves_pathItems m1] reserves_names [OF reserves_operations m2] d
    have "operationTypeName cc path2 (method2, operation2) \<in> createdTypeNames st3" by auto
    note createOperation_duplicate [OF n this]
    note createPathItem_throws [OF i f m2 this]
    note createEndpoints_throws [OF statementsBeforeEndpoints_document [OF b] e m1 this]
    from generate_throws [OF p v b this] show ?thesis .
  qed
  show ?thesis
  proof (intro conjI impI; (elim conjE)?)
    show "createTypeName cc v suffix st
        = (Inl (DuplicateTypeName (createTypeIdentifier cc v suffix) v), st)"
      if "createTypeIdentifier cc v suffix \<in> createdTypeNames st"
      using that by (rule 1)
    show "createTypeName cc v suffix st
        = (Inr (createTypeIdentifier cc v suffix),
           st\<lparr>createdTypeNames := insert (createTypeIdentifier cc v suffix) (createdTypeNames st)\<rparr>)"
      if "createTypeIdentifier cc v suffix \<notin> createdTypeNames st"
      using that by (rule 2)
    show "createOperation cc opts path sharedParameters (method, operation) st
        = (Inl (DuplicateTypeName (operationTypeName cc path (method, operation))
                  (orElse (get operation ''operationId'') (JStr (method @ path)))), st)"
      if "\<not> nullish operation" "operationTypeName cc path (method, operation) \<in> createdTypeNames st"
      using that by (rule 3)
    show "distinct (reservedNames cc doc')"
      if "preProcess opts doc = Inr doc'" "generate cc opts doc st = (Inr out, st')"
      using 4 [OF that] by simp
    show "set (reservedNames cc doc') \<inter> createdTypeNames st = {}"
      if "preProcess opts doc = Inr doc'" "generate cc opts doc st = (Inr out, st')"
      using 4 [OF that] by simp
    show "createdTypeNames st' = createdTypeNames st \<union> set (reservedNames cc doc')"
      if "preProcess opts doc = Inr doc'" "generate cc opts doc st = (Inr out, st')"
      using 4 [OF that] by simp
    show "isl (fst (generate cc opts doc st))"
      if "preProcess opts doc = Inr doc'" "\<not> distinct (endpointTypeNames cc doc')"
      using that by (rule 5)
    show "generate cc opts doc st
          = (Inl (DuplicateTypeName (operationTypeName cc path2 (method2, operation2))
                    (orElse (get operation2 ''operationId'') (JStr (method2 @ path2)))), st3)"
      if "preProcess opts doc = Inr doc'" "validate opts doc' = Inr ()"
        "statementsBeforeEndpoints cc opts doc' st = (Inr made, st1)"
        "objectEntries (get doc' ''paths'') = Inr (paths1 @ (path2, item) # paths2)"
        "mapM (createPathItem cc opts) paths1 st1 = (Inr made1, st2)"
        "\<not> nullish item"
        "\<not> isl (optionalComment (get item ''description'') (get item ''summary''))"
        "\<not> isRef item" "\<not> truthy (get item ''servers'')"
        "filter (\<lambda>(method, operation). method \<in> set HTTP_METHODS) (projr (objectEntries item))
            = operations1 @ (method2, operation2) # operations2"
        "mapM (createOperation cc opts path2 (orElse (get item ''parameters'') (JArr [])))
              operations1 st2 = (Inr made2, st3)"
        "\<not> nullish operation2"
        "operationTypeName cc path2 (method2, operation2)
            \<in> set (concat (map (pathTypeNames cc) paths1)
                     @ map (operationTypeName cc path2) operations1)"
      using that by (rule 6)
  qed
qed

definition twinOperations :: jsval where
  "twinOperations =
     JObj [(''openapi'', JStr ''3.0.0''),
           (''info'', JObj [(''title'', JStr ''Pets''), (''version'', JStr ''1'')]),
           (''paths'',
            JObj [(''/pets'', JObj [(''get'', JObj [(''operationId'', JStr ''listPets'')])]),
                  (''/animals'', JObj [(''get'', JObj [(''operationId'', JStr ''listPets'')])])])]"

lemma twinOperations_before:
  "statementsBeforeEndpoints toString exampleOptions twinOperations fresh
     = (Inr [''/**'' @ newline @ '' * Pets'' @ newline @ '' * '' @ newline @ '' * Version: 1''
               @ newline @ '' */'',
             ''import x'', ''request''], fresh)"
  by (simp add: statementsBeforeEndpoints_def exampleOptions_def twinOperations_def
      createInfoHeader_def createComment_def commentLine_def trim_def
      whitespace_def newline_def buildRefMap_def createTypesFromSchemas_def
      createTypesFromParameters_def createTypesFromRequestBodies_def
      createTypesFromResponses_def fresh_def run_simps)

lemma twinOperations_first:
  "mapM (createPathItem toString exampleOptions)
     [(''/pets'', JObj [(''get'', JObj [(''operationId'', JStr ''listPets'')])])] fresh
   = (Inr [[createNamespace ''ListPets'' [], ''listPets'']],
      fresh\<lparr>createdTypeNames := {''ListPets''}\<rparr>)"
  by (simp add: exampleOptions_def createPathItem_def createOperation_def
      optionalComment_def allParameters_def parameterTypes_def createTypeName_def
      createOperationName_def HTTP_METHODS_def orElse_def fresh_def isRef_def
      ident_simps run_simps mapRes_def Let_def)

theorem identifiers_unique_witness:
  "generate toString exampleOptions twinOperations fresh
     = (Inl (DuplicateTypeName ''ListPets'' (JStr ''listPets'')),
        fresh\<lparr>createdTypeNames := {''ListPets''}\<rparr>)
   \<and> isl (fst (generate toString exampleOptions twinOperations fresh))
   \<and> createTypeName toString (JStr ''listPets'') []
        (fresh\<lparr>createdTypeNames := {''ListPets''}\<rparr>)
     = (Inl (DuplicateTypeName ''ListPets'' (JStr ''listPets'')),
        fresh\<lparr>createdTypeNames := {''ListPets''}\<rparr>)"
proof -
  let ?second = "JObj [(''operationId'', JStr ''listPets'')]"
  let ?item = "JObj [(''get'', ?second)]"
  let ?reserved = "fresh\<lparr>createdTypeNames := {''ListPets''}\<rparr>"
  have i: "createTypeIdentifier toString (JStr ''listPets'') [] = ''ListPets''"
    by (simp add: ident_simps)
  have n: "operationTypeName toString ''/animals'' (''get'', ?second) = ''ListPets''"
    by (simp add: operationTypeName_def orElse_def ident_simps)
  have names: "pathTypeNames toString (''/pets'', ?item) = [''ListPets'']"
    by (simp add: pathTypeNames_def operationTypeName_def HTTP_METHODS_def orElse_def ident_simps)
  have twins: "\<not> distinct (endpointTypeNames toString twinOperations)"
    by (simp add: endpointTypeNames_def twinOperations_def pathTypeNames_def
        operationTypeName_def HTTP_METHODS_def orElse_def ident_simps)
  have p: "preProcess exampleOptions twinOperations = Inr twinOperations"
    by (simp add: exampleOptions_def)
  have v: "validate exampleOptions twinOperations = Inr ()"
    by (simp add: exampleOptions_def defaultValidate_def twinOperations_def startsWith_def)
  have e: "objectEntries (get twinOperations ''paths'')
      = Inr ([(''/pets'', ?item)] @ (''/animals'', ?item) # [])"
    by (simp add: twinOperations_def)
  have c: "\<not> nullish ?item"
    "\<not> isl (optionalComment (get ?item ''description'') (get ?item ''summary''))"
    "\<not> isRef ?item" "\<not> truthy (get ?item ''servers'')"
    by (simp_all add: optionalComment_def orElse_def isRef_def)
  have f: "filter (\<lambda>(method, operation). method \<in> set HTTP_METHODS) (projr (objectEntries ?item))
      = [] @ (''get'', ?second) # []"
    by (simp add: HTTP_METHODS_def)
  have m: "mapM (createOperation toString exampleOptions ''/animals''
                  (orElse (get ?item ''parameters'') (JArr []))) [] ?reserved
      = (Inr [], ?reserved)"
    by simp
  have s: "\<not> nullish ?second"
    by simp
  have d: "operationTypeName toString ''/animals'' (''get'', ?second)
      \<in> set (concat (map (pathTypeNames toString) [(''/pets'', ?item)])
               @ map (operationTypeName toString ''/animals'') [])"
    by (simp add: n names)
  have all: "preProcess exampleOptions twinOperations = Inr twinOperations
        \<and> validate exampleOptions twinOperations = Inr ()
        \<and> statementsBeforeEndpoints toString exampleOptions twinOperations fresh
            = (Inr [''/**'' @ newline @ '' * Pets'' @ newline @ '' * '' @ newline
                      @ '' * Version: 1'' @ newline @ '' */'',
                    ''import x'', ''request''], fresh)
        \<and> objectEntries (get twinOperations ''paths'')
            = Inr ([(''/pets'', ?item)] @ (''/animals'', ?item) # [])
        \<and> mapM (createPathItem toString exampleOptions) [(''/pets'', ?item)] fresh
            = (Inr [[createNamespace ''ListPets'' [], ''listPets'']], ?reserved)
        \<and> \<not> nullish ?item
        \<and> \<not> isl (optionalComment (get ?item ''description'') (get ?item ''summary''))
        \<and> \<not> isRef ?item \<and> \<not> truthy (get ?item ''servers'')
        \<and> filter (\<lambda>(method, operation). method \<in> set HTTP_METHODS) (projr (objectEntries ?item))
            = [] @ (''get'', ?second) # []
        \<and> mapM (createOperation toString exampleOptions ''/animals''
                    (orElse (get ?item ''parameters'') (JArr []))) [] ?reserved
            = (Inr [], ?reserved)
        \<and> \<not> nullish ?second
        \<and> operationTypeName toString ''/animals'' (''get'', ?second)
            \<in> set (concat (map (pathTypeNames toString) [(''/pets'', ?item)])
                     @ map (operationTypeName toString ''/animals'') [])"
    by (intro conjI p v twinOperations_before e twinOperations_first c f m s d)
  note t = identifiers_unique [where cc = toString and opts = exampleOptions
      and doc = twinOperations and doc' = twinOperations]
  note run = t [where st = fresh, THEN conjunct2, THEN conjunct2, THEN conjunct2, THEN conjunct2,
      THEN conjunct2, THEN mp, OF all]
  have 1: "generate toString exampleOptions twinOperations fresh
     = (Inl (DuplicateTypeName ''ListPets'' (JStr ''listPets'')), ?reserved)"
    unfolding run by (simp add: n orElse_def)
  have 2: "isl (fst (generate toString exampleOptions twinOperations fresh))"
    by (rule t [where st = fresh, THEN conjunct2, THEN conjunct2, THEN conjunct2, THEN conjunct2,
          THEN conjunct1, THEN mp]) (intro conjI p twins)
  from t [where st = ?reserved and v = "JStr ''listPets''" and suffix = "[]", THEN conjunct1] i
  have 3: "createTypeName toString (JStr ''listPets'') [] ?reserved
     = (Inl (DuplicateTypeName ''ListPets'' (JStr ''listPets'')), ?reserved)"
    by (simp add: fresh_def)
  from 1 2 3 show ?thesis by simp
qed

definition twinOperationsFile :: jsval where
  "twinOperationsFile =
     JObj [(''openapi'', JStr ''3.0.0''),
           (''info'', JObj [(''title'', JStr ''Pets''), (''version'', JStr ''1'')]),
           (''paths'',
            JObj [(''/pets'',
                   JObj [(''get'',
                          JObj [(''operationId'', JStr ''listPets''),
                                (''responses'',
                                 JObj [(''200'',
                                        JObj [(''content'',
                                               JObj [(''application/json'',
                                                      JObj [(''schema'',
                                                             JObj [(''type'', JStr ''file'')])])])])])])]),
                  (''/animals'', JObj [(''get'', JObj [(''operationId'', JStr ''listPets'')])])])]"

theorem twin_operations_counterexample:
  "endpointTypeNames toString twinOperationsFile = [''ListPets'', ''ListPets'']
   \<and> fst (generate toString exampleOptions twinOperationsFile fresh)
     = Inl (UnknownScalarType (JStr ''file''))
   \<and> fst (generate toString exampleOptions twinOperationsFile fresh)
     \<noteq> Inl (DuplicateTypeName ''ListPets'' (JStr ''listPets''))"
proof -
  have 1: "endpointTypeNames toString twinOperationsFile = [''ListPets'', ''ListPets'']"
    by (simp add: endpointTypeNames_def pathTypeNames_def operationTypeName_def
        twinOperationsFile_def HTTP_METHODS_def orElse_def ident_simps)
  have 2: "fst (generate toString exampleOptions twinOperationsFile fresh)
     = Inl (UnknownScalarType (JStr ''file''))"
    by (simp add: generate_def statements_def exampleOptions_def twinOperationsFile_def
        defaultValidate_def createInfoHeader_def createComment_def commentLine_def trim_def
        whitespace_def newline_def buildRefMap_def createTypesFromSchemas_def
        createTypesFromParameters_def createTypesFromRequestBodies_def
        createTypesFromResponses_def createEndpoints_def createPathItem_def createOperation_def
        optionalComment_def allParameters_def parameterTypes_def createTypeName_def
        createOperationName_def createNamespace_def HTTP_METHODS_def orElse_def fresh_def
        run_simps compile_simps)
  from 1 2 show ?thesis by simp
qed

section \<open>The reference table\<close>

lemma fold_mapSet:
  "fold mapSet kvs m k = (case map_of (rev kvs) k of Some v \<Rightarrow> Some v | None \<Rightarrow> m k)"
  by (induction kvs arbitrary: m) (auto simp: mapSet_def map_add_def split: option.splits)

lemma map_of_only_value:
  assumes "(k, v) \<in> set xs" and "\<And>v'. (k, v') \<in> set xs \<Longrightarrow> v' = v"
  shows "map_of xs k = Some v"
proof (cases "map_of xs k")
  case None
  with assms(1) show ?thesis by (auto simp: map_of_eq_None_iff intro: rev_image_eqI)
next
  case (Some v')
  then have "(k, v') \<in> set xs" by (rule map_of_SomeD)
  with assms(2) Some show ?thesis by simp
qed

text \<open>The names of the components of one kind.\<close>

definition componentNames :: "jsval \<Rightarrow> string \<Rightarrow> string list" where
  "componentNames components key = projr (objectKeys (orElse (get components key) (JObj [])))"

lemma objectKeys_orElse: "\<not> isl (objectKeys (orElse v (JObj [])))"
  by (cases v) (simp_all add: objectKeys_def orElse_def)

lemma refEntries_set:
  "set (refEntries cc components key)
     = (\<lambda>refName. (''#/components/'' @ key @ ''/'' @ refName,
                    createTypeIdentifier cc (JStr refName) []))
       ` set (componentNames components key)"
  using objectKeys_orElse [of "get components key"]
  by (cases "objectKeys (orElse (get components key) (JObj []))")
     (auto simp: refEntries_def componentNames_def)

lemma ref_inject:
  assumes "key \<in> set componentKeys" and "key' \<in> set componentKeys"
    and "''#/components/'' @ key' @ ''/'' @ name' = ''#/components/'' @ key @ ''/'' @ name"
  shows "name' = name"
  using assms by (auto simp: componentKeys_def)

lemma refMap_built:
  assumes "key \<in> set componentKeys" and "name \<in> set (componentNames components key)"
  shows "fold mapSet (concat (map (refEntries cc components) componentKeys)) m
           (''#/components/'' @ key @ ''/'' @ name)
         = Some (createTypeIdentifier cc (JStr name) [])"
proof -
  let ?all = "concat (map (refEntries cc components) componentKeys)"
  let ?ref = "''#/components/'' @ key @ ''/'' @ name"
  have in_all: "(?ref, createTypeIdentifier cc (JStr name) []) \<in> set (rev ?all)"
    using assms by (auto simp: refEntries_set)
  have only: "v' = createTypeIdentifier cc (JStr name) []" if "(?ref, v') \<in> set (rev ?all)" for v'
  proof -
    from that obtain key' name' where k: "key' \<in> set componentKeys"
      and e: "?ref = ''#/components/'' @ key' @ ''/'' @ name'"
      and v: "v' = createTypeIdentifier cc (JStr name') []"
      by (auto simp: refEntries_set)
    from ref_inject [OF assms(1) k e [symmetric]] v show ?thesis by simp
  qed
  from map_of_only_value [OF in_all only] show ?thesis
    by (simp add: fold_mapSet)
qed

text \<open>
  The bodies of the loops of \<^verbatim>\<open>createTypesFromSchemas\<close> and
  \<^verbatim>\<open>createTypesFromRequestBodies\<close>: the alias of one component.
\<close>

definition schemaAlias :: "(jsval \<Rightarrow> string) \<Rightarrow> string \<times> jsval \<Rightarrow> string prog" where
  "schemaAlias cc =
     (\<lambda>(name, schema).
        andThen (createTypeName cc (JStr name) [])
          (\<lambda>typeName. andThen (createType schema)
             (\<lambda>typeDefinition. ret (createTypeAlias typeName typeDefinition))))"

definition requestBodyAlias :: "(jsval \<Rightarrow> string) \<Rightarrow> string \<times> jsval \<Rightarrow> string prog" where
  "requestBodyAlias cc =
     (\<lambda>(name, component).
        andThen (lift (getRequestBodySchemas component))
          (\<lambda>schemas.
             andThen (createTypeName cc (JStr name) ''RequestBody'')
               (\<lambda>typeName.
                  andThen (createType (case schemas of [] \<Rightarrow> JUndefined | schema # _ \<Rightarrow> schema))
                    (\<lambda>typeDefinition. ret (createTypeAlias typeName typeDefinition)))))"

lemma createTypesFromSchemas_loop:
  assumes "\<not> nullish doc" and "truthy (get doc ''components'')"
    and "truthy (get (get doc ''components'') ''schemas'')"
  shows "createTypesFromSchemas cc doc
    = andThen (lift (objectEntries (get (get doc ''components'') ''schemas''))) (mapM (schemaAlias cc))"
  using assms by (simp add: createTypesFromSchemas_def schemaAlias_def)

lemma createTypesFromRequestBodies_loop:
  assumes "\<not> nullish doc" and "truthy (get doc ''components'')"
    and "truthy (get (get doc ''components'') ''requestBodies'')"
  shows "createTypesFromRequestBodies cc doc
    = andThen (lift (objectEntries (get (get doc ''components'') ''requestBodies'')))
        (mapM (requestBodyAlias cc))"
  using assms by (simp add: createTypesFromRequestBodies_def requestBodyAlias_def)

lemma reserves_schemaAliases:
  "reserves (mapM (schemaAlias cc) entries)
     (map (\<lambda>(name, schema). createTypeIdentifier cc (JStr name) []) entries)"
proof -
  have "reserves (mapM (schemaAlias cc) entries)
        (concat (map (\<lambda>entry. [case entry of (name, schema) \<Rightarrow> createTypeIdentifier cc (JStr name) []])
                   entries))"
    unfolding schemaAlias_def by (rule reserves_mapM) (rule reserves_schema_entry)
  then show ?thesis by (simp add: concat_map_singleton)
qed

lemma reserves_requestBodyAliases:
  "reserves (mapM (requestBodyAlias cc) entries)
     (map (\<lambda>(name, component). createTypeIdentifier cc (JStr name) ''RequestBody'') entries)"
proof -
  have "reserves (mapM (requestBodyAlias cc) entries)
        (concat (map (\<lambda>entry. [case entry of (name, component) \<Rightarrow>
                                   createTypeIdentifier cc (JStr name) ''RequestBody''])
                   entries))"
    unfolding requestBodyAlias_def by (rule reserves_mapM) (rule reserves_requestBody_entry)
  then show ?thesis by (simp add: concat_map_singleton)
qed

lemma schemas_duplicate:
  assumes "\<not> nullish doc" and "truthy (get doc ''components'')"
    and "truthy (get (get doc ''components'') ''schemas'')"
    and e: "objectEntries (get (get doc ''components'') ''schemas'')
          = Inr (earlier @ (name, schema) # later)"
    and m: "mapM (schemaAlias cc) earlier st = (Inr made, st1)"
    and d: "createTypeIdentifier cc (JStr name) []
          \<in> set (map (\<lambda>(n, s). createTypeIdentifier cc (JStr n) []) earlier)"
  shows "createTypesFromSchemas cc doc st
    = (Inl (DuplicateTypeName (createTypeIdentifier cc (JStr name) []) (JStr name)), st1)"
proof -
  from reserves_names [OF reserves_schemaAliases m] d
  have "createTypeIdentifier cc (JStr name) [] \<in> createdTypeNames st1" by simp
  then have "schemaAlias cc (name, schema) st1
      = (Inl (DuplicateTypeName (createTypeIdentifier cc (JStr name) []) (JStr name)), st1)"
    by (simp add: schemaAlias_def andThen_def createTypeName_def)
  from mapM_throws [OF m this] show ?thesis
    by (simp add: createTypesFromSchemas_loop [OF assms(1,2,3)] e andThen_def lift_def)
qed

lemma requestBodies_duplicate:
  assumes "\<not> nullish doc" and "truthy (get doc ''components'')"
    and "truthy (get (get doc ''components'') ''requestBodies'')"
    and e: "objectEntries (get (get doc ''components'') ''requestBodies'')
          = Inr (earlier @ (name, component) # later)"
    and m: "mapM (requestBodyAlias cc) earlier st = (Inr made, st1)"
    and g: "getRequestBodySchemas component = Inr schemas"
    and d: "createTypeIdentifier cc (JStr name) ''RequestBody''
          \<in> set (map (\<lambda>(n, c). createTypeIdentifier cc (JStr n) ''RequestBody'') earlier)"
  shows "createTypesFromRequestBodies cc doc st
    = (Inl (DuplicateTypeName (createTypeIdentifier cc (JStr name) ''RequestBody'') (JStr name)), st1)"
proof -
  from reserves_names [OF reserves_requestBodyAliases m] d
  have "createTypeIdentifier cc (JStr name) ''RequestBody'' \<in> createdTypeNames st1" by simp
  then have "requestBodyAlias cc (name, component) st1
      = (Inl (DuplicateTypeName (createTypeIdentifier cc (JStr name) ''RequestBody'') (JStr name)), st1)"
    by (simp add: requestBodyAlias_def andThen_def createTypeName_def lift_def g)
  from mapM_throws [OF m this] show ?thesis
    by (simp add: createTypesFromRequestBodies_loop [OF assms(1,2,3)] e andThen_def lift_def)
qed

text \<open>
  Claim C2, as the code has it. Building the reference table computes the identifier of
  every component of the four kinds by the casing rule alone and records it under the
  component's path. It reserves nothing: it returns for every document and leaves the
  registry as it was. Two component schemas, or two component request bodies, whose
  names give the same identifier are only found when their aliases are made: that
  statement cannot return, and it throws the duplicate-name error at the second of the
  two entries when the aliases of the entries before it were made.
\<close>

theorem buildRefMap_reserves_nothing:
  assumes "\<not> nullish doc"
  shows "fst (buildRefMap cc doc st) = Inr ()
    \<and> createdTypeNames (snd (buildRefMap cc doc st)) = createdTypeNames st
    \<and> (truthy (get doc ''components'') \<and> key \<in> set componentKeys
        \<and> name \<in> set (componentNames (get doc ''components'') key) \<longrightarrow>
        refMap (snd (buildRefMap cc doc st)) (''#/components/'' @ key @ ''/'' @ name)
          = Some (createTypeIdentifier cc (JStr name) []))
    \<and> (createTypesFromSchemas cc doc st = (Inr aliases, st') \<longrightarrow>
        distinct (schemaTypeNames cc doc))
    \<and> (createTypesFromRequestBodies cc doc st = (Inr aliases, st') \<longrightarrow>
        distinct (requestBodyTypeNames cc doc))
    \<and> (truthy (get doc ''components'') \<and> truthy (get (get doc ''components'') ''schemas'')
        \<and> objectEntries (get (get doc ''components'') ''schemas'')
            = Inr (earlier @ (name2, schema) # later)
        \<and> mapM (schemaAlias cc) earlier st = (Inr made, st1)
        \<and> createTypeIdentifier cc (JStr name2) []
            \<in> set (map (\<lambda>(n, s). createTypeIdentifier cc (JStr n) []) earlier)
        \<longrightarrow> createTypesFromSchemas cc doc st
          = (Inl (DuplicateTypeName (createTypeIdentifier cc (JStr name2) []) (JStr name2)), st1))
    \<and> (truthy (get doc ''components'') \<and> truthy (get (get doc ''components'') ''requestBodies'')
        \<and> objectEntries (get (get doc ''components'') ''requestBodies'')
            = Inr (earlier @ (name2, component) # later)
        \<and> mapM (requestBodyAlias cc) earlier st = (Inr made, st1)
        \<and> getRequestBodySchemas component = Inr schemas
        \<and> createTypeIdentifier cc (JStr name2) ''RequestBody''
            \<in> set (map (\<lambda>(n, c). createTypeIdentifier cc (JStr n) ''RequestBody'') earlier)
        \<longrightarrow> createTypesFromRequestBodies cc doc st
          = (Inl (DuplicateTypeName (createTypeIdentifier cc (JStr name2) ''RequestBody'')
                    (JStr name2)), st1))"
proof (intro conjI impI; (elim conjE)?)
  show "fst (buildRefMap cc doc st) = Inr ()"
    using assms by (simp add: buildRefMap_def Let_def)
  show "createdTypeNames (snd (buildRefMap cc doc st)) = createdTypeNames st"
    by (simp add: buildRefMap_def Let_def)
  show "refMap (snd (buildRefMap cc doc st)) (''#/components/'' @ key @ ''/'' @ name)
          = Some (createTypeIdentifier cc (JStr name) [])"
    if "truthy (get doc ''components'')" "key \<in> set componentKeys"
      "name \<in> set (componentNames (get doc ''components'') key)"
    using assms that(1) refMap_built [OF that(2,3), of cc "refMap st"]
    by (simp add: buildRefMap_def Let_def)
  show "distinct (schemaTypeNames cc doc)"
    if "createTypesFromSchemas cc doc st = (Inr aliases, st')"
    using reserves_createTypesFromSchemas [of cc doc] that by (simp add: reserves_def)
  show "distinct (requestBodyTypeNames cc doc)"
    if "createTypesFromRequestBodies cc doc st = (Inr aliases, st')"
    using reserves_createTypesFromRequestBodies [of cc doc] that by (simp add: reserves_def)
  show "createTypesFromSchemas cc doc st
          = (Inl (DuplicateTypeName (createTypeIdentifier cc (JStr name2) []) (JStr name2)), st1)"
    if "truthy (get doc ''components'')" "truthy (get (get doc ''components'') ''schemas'')"
      "objectEntries (get (get doc ''components'') ''schemas'')
            = Inr (earlier @ (name2, schema) # later)"
      "mapM (schemaAlias cc) earlier st = (Inr made, st1)"
      "createTypeIdentifier cc (JStr name2) []
            \<in> set (map (\<lambda>(n, s). createTypeIdentifier cc (JStr n) []) earlier)"
    using assms that by (rule schemas_duplicate)
  show "createTypesFromRequestBodies cc doc st
          = (Inl (DuplicateTypeName (createTypeIdentifier cc (JStr name2) ''RequestBody'')
                    (JStr name2)), st1)"
    if "truthy (get doc ''components'')" "truthy (get (get doc ''components'') ''requestBodies'')"
      "objectEntries (get (get doc ''components'') ''requestBodies'')
            = Inr (earlier @ (name2, component) # later)"
      "mapM (requestBodyAlias cc) earlier st = (Inr made, st1)"
      "getRequestBodySchemas component = Inr schemas"
      "createTypeIdentifier cc (JStr name2) ''RequestBody''
            \<in> set (map (\<lambda>(n, c). createTypeIdentifier cc (JStr n) ''RequestBody'') earlier)"
    using assms that by (rule requestBodies_duplicate)
qed

definition twinSchemas :: jsval where
  "twinSchemas =
     JObj [(''openapi'', JStr ''3.0.0''),
           (''info'', JObj [(''title'', JStr ''Pets''), (''version'', JStr ''1'')]),
           (''components'',
            JObj [(''schemas'',
                   JObj [(''pet'', JObj [(''type'', JStr ''string'')]),
                         (''Pet'', JObj [(''type'', JStr ''number'')])])]),
           (''paths'', JObj [])]"

lemma twinSchemas_names: "schemaTypeNames toString twinSchemas = [''Pet'', ''Pet'']"
  by (simp add: schemaTypeNames_def twinSchemas_def ident_simps)

lemma twinSchemas_table:
  "buildRefMap toString twinSchemas fresh
     = (Inr (),
        fresh\<lparr>refMap := [''#/components/schemas/pet'' \<mapsto> ''Pet'',
                           ''#/components/schemas/Pet'' \<mapsto> ''Pet'']\<rparr>)"
  by (simp add: buildRefMap_def twinSchemas_def componentKeys_def refEntries_def objectKeys_def
      orElse_def mapSet_def ident_simps fresh_def)

lemma twinSchemas_first:
  "mapM (schemaAlias toString) [(''pet'', JObj [(''type'', JStr ''string'')])] fresh
     = (Inr [createTypeAlias ''Pet'' ''string''], fresh\<lparr>createdTypeNames := {''Pet''}\<rparr>)"
  by (simp add: schemaAlias_def createTypeName_def fresh_def ident_simps run_simps compile_simps)

theorem buildRefMap_reserves_nothing_witness:
  "fst (buildRefMap toString twinSchemas fresh) = Inr ()
   \<and> createdTypeNames (snd (buildRefMap toString twinSchemas fresh)) = {}
   \<and> refMap (snd (buildRefMap toString twinSchemas fresh)) ''#/components/schemas/pet''
     = Some ''Pet''
   \<and> createTypesFromSchemas toString twinSchemas fresh
     = (Inl (DuplicateTypeName ''Pet'' (JStr ''Pet'')), fresh\<lparr>createdTypeNames := {''Pet''}\<rparr>)"
proof -
  have n: "\<not> nullish twinSchemas" by (simp add: twinSchemas_def)
  have c: "truthy (get twinSchemas ''components'')" by (simp add: twinSchemas_def)
  have k: "''schemas'' \<in> set componentKeys" by (simp add: componentKeys_def)
  have m: "''pet'' \<in> set (componentNames (get twinSchemas ''components'') ''schemas'')"
    by (simp add: componentNames_def twinSchemas_def objectKeys_def orElse_def)
  have i: "createTypeIdentifier toString (JStr ''pet'') [] = ''Pet''"
    by (simp add: ident_simps)
  have i': "createTypeIdentifier toString (JStr ''Pet'') [] = ''Pet''"
    by (simp add: ident_simps)
  note t = buildRefMap_reserves_nothing [OF n, where cc = toString]
  from t [of fresh "''schemas''" "''pet''"] c k m i
  have 1: "fst (buildRefMap toString twinSchemas fresh) = Inr ()
   \<and> createdTypeNames (snd (buildRefMap toString twinSchemas fresh)) = {}
   \<and> refMap (snd (buildRefMap toString twinSchemas fresh)) ''#/components/schemas/pet''
     = Some ''Pet''"
    by (simp add: fresh_def)
  have all: "truthy (get twinSchemas ''components'')
        \<and> truthy (get (get twinSchemas ''components'') ''schemas'')
        \<and> objectEntries (get (get twinSchemas ''components'') ''schemas'')
            = Inr ([(''pet'', JObj [(''type'', JStr ''string'')])]
                   @ (''Pet'', JObj [(''type'', JStr ''number'')]) # [])
        \<and> mapM (schemaAlias toString) [(''pet'', JObj [(''type'', JStr ''string'')])] fresh
            = (Inr [createTypeAlias ''Pet'' ''string''], fresh\<lparr>createdTypeNames := {''Pet''}\<rparr>)
        \<and> createTypeIdentifier toString (JStr ''Pet'') []
            \<in> set (map (\<lambda>(n, s). createTypeIdentifier toString (JStr n) [])
                       [(''pet'', JObj [(''type'', JStr ''string'')])])"
    by (intro conjI twinSchemas_first) (simp_all add: twinSchemas_def i i')
  note run = t [where st = fresh, THEN conjunct2, THEN conjunct2, THEN conjunct2, THEN conjunct2,
      THEN conjunct2, THEN conjunct1, THEN mp, OF all]
  have 2: "createTypesFromSchemas toString twinSchemas fresh
     = (Inl (DuplicateTypeName ''Pet'' (JStr ''Pet'')), fresh\<lparr>createdTypeNames := {''Pet''}\<rparr>)"
    unfolding run by (simp add: i')
  from 1 2 show ?thesis by simp
qed

theorem buildRefMap_counterexample:
  "schemaTypeNames toString twinSchemas = [''Pet'', ''Pet'']
   \<and> buildRefMap toString twinSchemas fresh
     = (Inr (),
        fresh\<lparr>refMap := [''#/components/schemas/pet'' \<mapsto> ''Pet'',
                           ''#/components/schemas/Pet'' \<mapsto> ''Pet'']\<rparr>)
   \<and> createdTypeNames (snd (buildRefMap toString twinSchemas fresh)) = {}"
  by (simp add: twinSchemas_names twinSchemas_table) (simp add: fresh_def)

definition bodyReference :: jsval where
  "bodyReference =
     JObj [(''openapi'', JStr ''3.0.0''),
           (''info'', JObj [(''title'', JStr ''Pets''), (''version'', JStr ''1'')]),
           (''components'',
            JObj [(''requestBodies'',
                   JObj [(''Pet'',
                          JObj [(''content'',
                                 JObj [(''application/json'',
                                        JObj [(''schema'', JObj [(''type'', JStr ''string'')])])])])])]),
           (''paths'',
            JObj [(''/pets'',
                   JObj [(''post'',
                          JObj [(''operationId'', JStr ''addPet''),
                                (''requestBody'',
                                 JObj [(''$ref'', JStr ''#/components/requestBodies/Pet'')])])])])]"

section \<open>References to component request bodies\<close>

text \<open>
  Claim C1 at a document whose operation refers to a component request body. The
  reference table gives the reference the name \<^verbatim>\<open>Pet\<close>, the alias made for the
  component is \<^verbatim>\<open>PetRequestBody\<close>: the module uses a name it does not declare.
\<close>

theorem request_body_reference_undeclared:
  "fst (statements toString exampleOptions bodyReference fresh)
     = Inr [''/**'' @ newline @ '' * Pets'' @ newline @ '' * '' @ newline @ '' * Version: 1''
              @ newline @ '' */'',
            ''import x'',
            createTypeAlias ''PetRequestBody'' ''string'',
            ''request'',
            createNamespace ''AddPet'' [createTypeAlias ''RequestBody'' ''Pet''],
            ''addPet'']
   \<and> requestBodyTypeNames toString bodyReference = [''PetRequestBody'']
   \<and> getTypeNameFromRef (JObj [(''$ref'', JStr ''#/components/requestBodies/Pet'')])
        (snd (buildRefMap toString bodyReference fresh))
     = Inr ''Pet''"
  by (simp add: statements_def exampleOptions_def bodyReference_def
      createInfoHeader_def createComment_def commentLine_def trim_def
      whitespace_def newline_def buildRefMap_def createTypesFromSchemas_def
      createTypesFromParameters_def createTypesFromRequestBodies_def
      createTypesFromResponses_def createEndpoints_def createPathItem_def createOperation_def
      optionalComment_def allParameters_def parameterTypes_def createTypeName_def
      createOperationName_def createNamespace_def createTypeAlias_def HTTP_METHODS_def
      orElse_def fresh_def getRequestBodySchemas_def objectValues_def requestBodyTypes_def
      requestBodyTypeNames_def componentKeys_def refEntries_def mapSet_def
      run_simps compile_simps)

theorem request_body_reference_undeclared_witness:
  "getTypeNameFromRef (JObj [(''$ref'', JStr ''#/components/requestBodies/Pet'')])
        (snd (buildRefMap toString bodyReference fresh))
     = Inr ''Pet''
   \<and> ''Pet'' \<notin> set (requestBodyTypeNames toString bodyReference)"
  using request_body_reference_undeclared by simp

end
